theory Spec2Isabelle
  imports Complex_Main "HOL-Library.Sublist" "HOL-Library.Log_Nat"
begin

section \<open>Shared Python notions\<close>

text \<open>
  The four Lambda handlers of the repository are Python modules. Strings are
  \<^typ>\<open>string\<close>, Python's unbounded integers are \<^typ>\<open>int\<close>, a missing
  dictionary key is \<^const>\<open>None\<close>, and a raised exception is the left injection of
  a sum carrying \<open>str(e)\<close>.
\<close>

type_synonym exn = string

text \<open>Python's \<open>sub in s\<close> on strings: some suffix of \<open>s\<close> starts with \<open>sub\<close>.\<close>

fun py_in :: "string \<Rightarrow> string \<Rightarrow> bool" where
  "py_in sub [] = (sub = [])"
| "py_in sub (c # cs) = (prefix sub (c # cs) \<or> py_in sub cs)"

text \<open>The case of ASCII letters, and \<open>s.lower()\<close> on ASCII text.\<close>

definition is_upper :: "char \<Rightarrow> bool" where
  "is_upper c = (65 \<le> (of_char c :: nat) \<and> (of_char c :: nat) \<le> 90)"

definition is_lower :: "char \<Rightarrow> bool" where
  "is_lower c = (97 \<le> (of_char c :: nat) \<and> (of_char c :: nat) \<le> 122)"

definition to_upper :: "char \<Rightarrow> char" where
  "to_upper c = (if is_lower c then char_of ((of_char c :: nat) - 32) else c)"

definition to_lower :: "char \<Rightarrow> char" where
  "to_lower c = (if is_upper c then char_of ((of_char c :: nat) + 32) else c)"

definition lower :: "string \<Rightarrow> string" where
  "lower s = map to_lower s"

text \<open>Decimal rendering of a non-negative integer, as \<open>str\<close> and f-strings print it.\<close>

definition digit_char :: "nat \<Rightarrow> char" where
  "digit_char d = char_of (48 + d)"

fun show_nat :: "nat \<Rightarrow> string" where
  "show_nat n = (if n < 10 then [digit_char n] else show_nat (n div 10) @ [digit_char (n mod 10)])"

declare show_nat.simps [simp del]

text \<open>\<open>str(KeyError(k))\<close> is the key in single quotes.\<close>

definition key_error :: "string \<Rightarrow> exn" where
  "key_error k = [CHR 0x27] @ k @ [CHR 0x27]"

text \<open>\<open>str(n)\<close> for an integer.\<close>

definition show_int :: "int \<Rightarrow> string" where
  "show_int i = (if i < 0 then ''-'' else []) @ show_nat (nat \<bar>i\<bar>)"

text \<open>The dictionary a handler returns.\<close>

record 'b response =
  statusCode :: int
  body :: 'b

text \<open>\<open>d.get(k, dflt)\<close> on an optional field.\<close>

definition get_default :: "'a option \<Rightarrow> 'a \<Rightarrow> 'a" where
  "get_default v dflt = (case v of None \<Rightarrow> dflt | Some x \<Rightarrow> x)"

section \<open>Cost optimizer: the static tables\<close>

text \<open>\<open>suggest_smaller_instance_type\<close>: \<open>downsize_map.get(current_type)\<close>.\<close>

definition downsize_map :: "(string \<times> string) list" where
  "downsize_map =
    [(''t3.large'', ''t3.medium''),
     (''t3.medium'', ''t3.small''),
     (''t3.xlarge'', ''t3.large''),
     (''m5.large'', ''m5.medium''),
     (''m5.xlarge'', ''m5.large''),
     (''m5.2xlarge'', ''m5.xlarge''),
     (''r5.large'', ''r5.medium''),
     (''r5.xlarge'', ''r5.large''),
     (''c5.large'', ''c5.medium''),
     (''c5.xlarge'', ''c5.large'')]"

definition suggest_smaller_instance_type :: "string \<Rightarrow> string option" where
  "suggest_smaller_instance_type current_type = map_of downsize_map current_type"

text \<open>\<open>estimate_instance_cost_savings\<close>: both prices default to 0, the difference is floored at 0.\<close>

definition cost_map :: "(string \<times> int) list" where
  "cost_map =
    [(''t3.nano'', 5), (''t3.micro'', 8), (''t3.small'', 17), (''t3.medium'', 34), (''t3.large'', 67),
     (''m5.medium'', 44), (''m5.large'', 87), (''m5.xlarge'', 174),
     (''r5.medium'', 61), (''r5.large'', 122), (''r5.xlarge'', 244),
     (''c5.medium'', 39), (''c5.large'', 77), (''c5.xlarge'', 154)]"

definition dict_get :: "('k \<times> 'v) list \<Rightarrow> 'k \<Rightarrow> 'v \<Rightarrow> 'v" where
  "dict_get d k dflt = (case map_of d k of None \<Rightarrow> dflt | Some v \<Rightarrow> v)"

definition estimate_instance_cost_savings :: "string \<Rightarrow> string \<Rightarrow> int" where
  "estimate_instance_cost_savings current_type suggested_type =
    (let current_cost = dict_get cost_map current_type 0;
         suggested_cost = dict_get cost_map suggested_type 0
     in max 0 (current_cost - suggested_cost))"

text \<open>The price of a type as the specification reads the table: the listed price, 0 when unlisted.\<close>

definition price :: "string \<Rightarrow> int" where
  "price t = (if t \<in> fst ` set cost_map then the (map_of cost_map t) else 0)"

section \<open>Notification relay (slack_notifier.py)\<close>

text \<open>
  An SNS envelope \<open>record['Sns']\<close>; every field is read with \<open>.get(key, default)\<close>, so each
  may be absent. A field that is present holds a string.
\<close>

record sns_message =
  sns_Subject :: "string option"
  sns_Message :: "string option"
  sns_TopicArn :: "string option"
  sns_Timestamp :: "string option"

text \<open>A record of \<open>event['Records']\<close>; \<open>record['Sns']\<close> raises \<open>KeyError\<close> when absent.\<close>

record sns_record =
  rec_Sns :: "sns_message option"

text \<open>The attachment of the Slack payload (the constant footer fields are left out).\<close>

record slack_message =
  sl_color :: string
  sl_title :: string
  sl_text :: string
  sl_topic :: string
  sl_timestamp :: string
  sl_type :: string

text \<open>\<open>s.split(':')[-1]\<close>: the text after the last colon, the whole string when there is none.\<close>

definition split_last :: "string \<Rightarrow> string" where
  "split_last s = rev (takeWhile (\<lambda>c. c \<noteq> CHR '':'') (rev s))"

text \<open>The UTF-8 bytes of the siren emoji that opens every title.\<close>

definition siren :: string where
  "siren = [CHR 0xF0, CHR 0x9F, CHR 0x9A, CHR 0xA8]"

text \<open>Lines 37--79 of the handler: the payload built for one envelope.\<close>

definition build_slack_message :: "sns_message \<Rightarrow> slack_message" where
  "build_slack_message sns_msg =
    (let subject = get_default (sns_Subject sns_msg) ''EPiC Infrastructure Notification'';
         message = get_default (sns_Message sns_msg) [];
         topic_arn = get_default (sns_TopicArn sns_msg) [];
         timestamp = get_default (sns_Timestamp sns_msg) [];
         (notification_type, color) =
            (if py_in ''app-notifications'' topic_arn
             then (''Application'', ''#36a64f'')
             else (''Infrastructure'', ''#ff9900''))
     in \<lparr> sl_color = color,
          sl_title = siren @ '' '' @ notification_type @ '' Alert: '' @ subject,
          sl_text = message,
          sl_topic = split_last topic_arn,
          sl_timestamp = timestamp,
          sl_type = notification_type \<rparr>)"

text \<open>
  The outside world of the relay: the environment variable and the webhook, which answers a
  POST with a status code or raises.
\<close>

record relay_env =
  SLACK_WEBHOOK_URL :: "string option"
  http_request :: "string \<Rightarrow> slack_message \<Rightarrow> exn + int"

text \<open>
  The loop over \<open>event['Records']\<close>. The second component collects the payloads posted so far;
  a raised exception leaves the loop as \<open>Inl\<close>, a non-200 answer returns at once.
\<close>

fun relay_records :: "relay_env \<Rightarrow> string \<Rightarrow> sns_record list \<Rightarrow> slack_message list
    \<Rightarrow> (exn + string response) \<times> slack_message list" where
  "relay_records env url [] posted =
     (Inr \<lparr> statusCode = 200, body = ''Notifications sent successfully'' \<rparr>, posted)"
| "relay_records env url (r # rs) posted =
     (case rec_Sns r of
        None \<Rightarrow> (Inl (key_error ''Sns''), posted)
      | Some sns_msg \<Rightarrow>
          (let slack = build_slack_message sns_msg in
           case http_request env url slack of
             Inl e \<Rightarrow> (Inl e, posted)
           | Inr status \<Rightarrow>
               if status \<noteq> 200
               then (Inr \<lparr> statusCode = 500,
                           body = ''Failed to send Slack notification: '' @ show_int status \<rparr>,
                     posted @ [slack])
               else relay_records env url rs (posted @ [slack])))"

text \<open>
  \<open>handler\<close> of the relay; \<open>event\<close> is the value under \<open>'Records'\<close>, absent when the key is.
  The result pairs the response with the payloads that were posted.
\<close>

definition relay_handler :: "relay_env \<Rightarrow> sns_record list option \<Rightarrow> string response \<times> slack_message list" where
  "relay_handler env event =
    (case SLACK_WEBHOOK_URL env of
       None \<Rightarrow> (\<lparr> statusCode = 500, body = ''Webhook URL not configured'' \<rparr>, [])
     | Some webhook_url \<Rightarrow>
         if webhook_url = []
         then (\<lparr> statusCode = 500, body = ''Webhook URL not configured'' \<rparr>, [])
         else
           (case event of
              None \<Rightarrow> (\<lparr> statusCode = 500,
                           body = ''Error processing notification: '' @ key_error ''Records'' \<rparr>, [])
            | Some records \<Rightarrow>
                (case relay_records env webhook_url records [] of
                   (Inl e, posted) \<Rightarrow>
                     (\<lparr> statusCode = 500, body = ''Error processing notification: '' @ e \<rparr>, posted)
                 | (Inr resp, posted) \<Rightarrow> (resp, posted))))"

section \<open>Python floats\<close>

text \<open>
  A Python \<open>float\<close> is an IEEE 754 binary64 number. A finite one is modelled by the rational
  it denotes, and every arithmetic operation by the exact operation followed by rounding to
  the nearest representable value, ties to the even significand: 53 significant bits from
  \<open>2 ^ -1022\<close> upwards, multiples of \<open>2 ^ -1074\<close> below. Infinities and NaN are not
  represented; the programs modelled here stay far below \<open>2 ^ 1024\<close> whenever a count of
  compliant resources does not exceed the count of resources.
\<close>

definition round_half_even :: "rat \<Rightarrow> int" where
  "round_half_even m =
    (let f = \<lfloor>m\<rfloor>; r = m - of_int f in
     if r < 1 / 2 then f
     else if 1 / 2 < r then f + 1
     else if even f then f else f + 1)"

text \<open>The binary exponent of a positive rational: \<open>2 ^ binade x \<le> x < 2 ^ (binade x + 1)\<close>.\<close>

definition binade :: "rat \<Rightarrow> int" where
  "binade x = (if 1 \<le> x then bitlen \<lfloor>x\<rfloor> - 1 else - bitlen (\<lceil>1 / x\<rceil> - 1))"

definition level :: "rat \<Rightarrow> int" where
  "level x = max (binade \<bar>x\<bar>) (- 1022)"

text \<open>The spacing of binary64 numbers around \<open>x\<close>.\<close>

definition quantum :: "rat \<Rightarrow> rat" where
  "quantum x = 2 powi (level x - 52)"

definition rnd :: "rat \<Rightarrow> rat" where
  "rnd x = (if x = 0 then 0 else of_int (round_half_even (x / quantum x)) * quantum x)"

definition fadd :: "rat \<Rightarrow> rat \<Rightarrow> rat" where
  "fadd x y = rnd (x + y)"

definition fmul :: "rat \<Rightarrow> rat \<Rightarrow> rat" where
  "fmul x y = rnd (x * y)"

text \<open>Float division; every call site guards the divisor against zero.\<close>

definition fdiv :: "rat \<Rightarrow> rat \<Rightarrow> rat" where
  "fdiv x y = rnd (x / y)"

text \<open>A decimal literal such as \<open>0.15\<close> denotes the binary64 number nearest to it.\<close>

definition float_lit :: "rat \<Rightarrow> rat" where
  "float_lit r = rnd r"

text \<open>
  \<open>f"{x:.1f}"\<close>: the exact value rounded to one decimal, ties to even, with a minus sign for
  a negative value.
\<close>

definition format_1f :: "rat \<Rightarrow> string" where
  "format_1f x =
    (let n = nat (round_half_even (\<bar>x\<bar> * 10))
     in (if x < 0 then ''-'' else []) @ show_nat (n div 10) @ ''.'' @ show_nat (n mod 10))"

section \<open>Compliance scorer (compliance_checker.py)\<close>

subsection \<open>Resources and violations\<close>

text \<open>
  The resources as the listing calls of the checks answer them. A key that the code indexes
  is a field, a key that it reads with \<open>get\<close> is an optional field. An instance carries the
  name of its state; a range of a permission is its \<open>CidrIp\<close>.
\<close>

type_synonym tag_list = "(string \<times> string) list"

record instance_description =
  i_State :: string
  i_InstanceId :: string
  i_Tags :: "tag_list option"
  i_PublicIpAddress :: "string option"

record ip_permission =
  FromPort :: "int option"
  IpProtocol :: "string option"
  IpRanges :: "string option list option"

record security_group =
  GroupName :: string
  GroupId :: string
  IpPermissions :: "ip_permission list"
  IpPermissionsEgress :: "ip_permission list option"

record public_access_block =
  BlockPublicAcls :: "bool option"
  IgnorePublicAcls :: "bool option"
  BlockPublicPolicy :: "bool option"
  RestrictPublicBuckets :: "bool option"

record db_description =
  db_DBInstanceIdentifier :: string
  db_StorageEncrypted :: "bool option"
  db_PubliclyAccessible :: "bool option"

record volume_description =
  v_VolumeId :: string
  v_Encrypted :: "bool option"

text \<open>
  The answer of a call on one bucket that the code wraps in a \<open>try\<close> of its own: the
  response, or an exception raised, with the name of its class and \<open>str(e)\<close>.
\<close>

datatype 'a lookup = Found 'a | Raised string exn

text \<open>
  The violation dictionaries. A tagging violation has the resource type, the resource and
  the missing tags; a security group has its identifier, its name and its findings; a bucket
  has its name and its findings; an encryption or exposure violation has the resource type,
  the resource and the issue.
\<close>

datatype group_finding =
    Overly_permissive_inbound "int option" "string option"
  | Unused_security_group string

datatype bucket_finding =
    Public_access_not_blocked public_access_block
  | No_public_access_block
  | Encryption_not_enabled

datatype violation =
    Missing_tags string string "string list"
  | Group_violations string string "group_finding list"
  | Bucket_violations string "bucket_finding list"
  | Resource_issue string string string

subsection \<open>Dictionaries of the report\<close>

record contributor_count =
  CappedCount :: "int option"
  CapExceeded :: "bool option"

record rule_detail =
  rd_status :: string
  rd_last_evaluated :: contributor_count

text \<open>The values stored in the status and check dictionaries.\<close>

datatype pyval =
    PInt int
  | PList "violation list"
  | PRules "(string \<times> rule_detail) list"

text \<open>A dictionary with string keys, in insertion order.\<close>

type_synonym pydict = "(string \<times> pyval) list"

definition py_truthy :: "pyval \<Rightarrow> bool" where
  "py_truthy v = (case v of PInt n \<Rightarrow> n \<noteq> 0 | PList vs \<Rightarrow> vs \<noteq> [] | PRules rs \<Rightarrow> rs \<noteq> [])"

text \<open>\<open>a or b\<close>.\<close>

definition py_or :: "pyval \<Rightarrow> pyval \<Rightarrow> pyval" where
  "py_or a b = (if py_truthy a then a else b)"

text \<open>\<open>v > 0\<close>: a \<open>TypeError\<close> unless \<open>v\<close> is a number.\<close>

definition py_gt0 :: "pyval \<Rightarrow> exn + bool" where
  "py_gt0 v = (case v of PInt n \<Rightarrow> Inr (0 < n) | _ \<Rightarrow> Inl ''TypeError'')"

text \<open>
  \<open>a / b\<close> on integers: the correctly rounded quotient, \<open>ZeroDivisionError\<close> for a zero
  divisor, \<open>OverflowError\<close> when the quotient is too large for a float.
\<close>

definition overflow_threshold :: rat where
  "overflow_threshold = 2 ^ 1024"

definition py_truediv :: "pyval \<Rightarrow> pyval \<Rightarrow> exn + rat" where
  "py_truediv a b =
    (case (a, b) of
       (PInt x, PInt y) \<Rightarrow>
         if y = 0 then Inl ''division by zero''
         else (let q = rnd (of_int x / of_int y)
               in if overflow_threshold \<le> \<bar>q\<bar> then Inl ''integer division result too large for a float''
                  else Inr q)
     | _ \<Rightarrow> Inl ''TypeError'')"

text \<open>\<open>d[k]\<close>.\<close>

definition dict_item :: "(string \<times> 'v) list \<Rightarrow> string \<Rightarrow> exn + 'v" where
  "dict_item d k = (case map_of d k of None \<Rightarrow> Inl (key_error k) | Some v \<Rightarrow> Inr v)"

text \<open>Sequencing of statements that may raise.\<close>

definition bind_exn :: "exn + 'a \<Rightarrow> ('a \<Rightarrow> exn + 'b) \<Rightarrow> exn + 'b" where
  "bind_exn m f = (case m of Inl e \<Rightarrow> Inl e | Inr x \<Rightarrow> f x)"

subsection \<open>\<open>calculate_compliance_score\<close>\<close>

text \<open>The four weight literals \<open>0.4\<close>, \<open>0.15\<close>, \<open>0.10\<close> and \<open>0.05\<close>.\<close>

definition w40 :: rat where
  "w40 = float_lit (40 / 100)"

definition w15 :: rat where
  "w15 = float_lit (15 / 100)"

definition w10 :: rat where
  "w10 = float_lit (10 / 100)"

definition w05 :: rat where
  "w05 = float_lit (5 / 100)"

definition check_weights :: "(string \<times> rat) list" where
  "check_weights =
    [(''tagging_compliance'', w15),
     (''security_groups'', w15),
     (''s3_bucket_policies'', w15),
     (''encryption_status'', w10),
     (''public_access'', w05)]"

text \<open>
  The two \<open>or\<close> chains that read the counts of a check under whichever key names the check
  uses (the same chains occur in \<open>format_custom_checks\<close>).
\<close>

definition total_of :: "pydict \<Rightarrow> pyval" where
  "total_of check_data =
    py_or (py_or (dict_get check_data ''total_resources'' (PInt 0))
                 (dict_get check_data ''total_buckets'' (PInt 0)))
          (dict_get check_data ''total_security_groups'' (PInt 0))"

definition compliant_of :: "pydict \<Rightarrow> pyval" where
  "compliant_of check_data =
    py_or (py_or (py_or (py_or (dict_get check_data ''compliant_resources'' (PInt 0))
                               (dict_get check_data ''compliant_buckets'' (PInt 0)))
                        (dict_get check_data ''compliant_security_groups'' (PInt 0)))
                 (dict_get check_data ''encrypted_resources'' (PInt 0)))
          (dict_get check_data ''private_resources'' (PInt 0))"

text \<open>
  The loop over \<open>check_weights.items()\<close>, carrying \<open>(total_score, total_weight)\<close>.
\<close>

fun score_checks :: "(string \<times> rat) list \<Rightarrow> (string \<times> pydict) list \<Rightarrow> rat \<times> rat
    \<Rightarrow> exn + rat \<times> rat" where
  "score_checks [] custom_checks acc = Inr acc"
| "score_checks ((check_name, weight) # rest) custom_checks (total_score, total_weight) =
    (let check_data = dict_get custom_checks check_name [];
         total_resources = total_of check_data;
         compliant_resources = compliant_of check_data
     in bind_exn (py_gt0 total_resources) (\<lambda>positive.
          if positive
          then bind_exn (py_truediv compliant_resources total_resources) (\<lambda>ratio.
                 let check_score = fmul ratio 100
                 in score_checks rest custom_checks
                      (fadd total_score (fmul check_score weight), fadd total_weight weight))
          else score_checks rest custom_checks (total_score, total_weight)))"

text \<open>The config-rules category, 40 percent.\<close>

definition score_config :: "pydict \<Rightarrow> exn + rat \<times> rat" where
  "score_config config_status =
    bind_exn (py_gt0 (dict_get config_status ''total_rules'' (PInt 0))) (\<lambda>positive.
      if positive
      then bind_exn (dict_item config_status ''compliant_rules'') (\<lambda>compliant.
           bind_exn (dict_item config_status ''total_rules'') (\<lambda>total.
           bind_exn (py_truediv compliant total) (\<lambda>ratio.
             let config_score = fmul ratio 100
             in Inr (fadd 0 (fmul config_score w40), fadd 0 w40))))
      else Inr (0, 0))"

text \<open>The whole function: any exception of the body is logged and answered by \<open>0.0\<close>.\<close>

definition calculate_compliance_score :: "pydict \<Rightarrow> (string \<times> pydict) list \<Rightarrow> rat" where
  "calculate_compliance_score config_status custom_checks =
    (case bind_exn (score_config config_status) (score_checks check_weights custom_checks) of
       Inl e \<Rightarrow> 0
     | Inr (total_score, total_weight) \<Rightarrow>
         if 0 < total_weight then fdiv total_score total_weight else 0)"


subsection \<open>The rule-compliance status\<close>

text \<open>An entry of \<open>ComplianceByConfigRules\<close>; the code indexes its keys, so an absent one raises.\<close>

record compliance_rec =
  ComplianceType :: "string option"
  ComplianceContributorCount :: "contributor_count option"

record rule_compliance =
  ConfigRuleName :: "string option"
  Compliance :: "compliance_rec option"

text \<open>\<open>d[k]\<close> on a field of a response.\<close>

definition field_item :: "'a option \<Rightarrow> string \<Rightarrow> exn + 'a" where
  "field_item v k = (case v of None \<Rightarrow> Inl (key_error k) | Some x \<Rightarrow> Inr x)"

text \<open>\<open>d[k] = v\<close>: an existing key keeps its place.\<close>

fun dict_set :: "string \<Rightarrow> 'v \<Rightarrow> (string \<times> 'v) list \<Rightarrow> (string \<times> 'v) list" where
  "dict_set k v [] = [(k, v)]"
| "dict_set k v ((k', v') # d) = (if k = k' then (k, v) # d else (k', v') # dict_set k v d)"

definition config_status_dict :: "int \<Rightarrow> int \<Rightarrow> int \<Rightarrow> (string \<times> rule_detail) list \<Rightarrow> pydict" where
  "config_status_dict total_rules compliant_rules non_compliant_rules rules_detail =
    [(''total_rules'', PInt total_rules),
     (''compliant_rules'', PInt compliant_rules),
     (''non_compliant_rules'', PInt non_compliant_rules),
     (''rules_detail'', PRules rules_detail)]"

text \<open>The loop of \<open>get_config_rules_compliance\<close> over the rules of the response.\<close>

fun count_rules :: "rule_compliance list \<Rightarrow> int \<times> int \<times> int \<times> (string \<times> rule_detail) list
    \<Rightarrow> exn + int \<times> int \<times> int \<times> (string \<times> rule_detail) list" where
  "count_rules [] st = Inr st"
| "count_rules (rc # rest) (total_rules, compliant_rules, non_compliant_rules, rules_detail) =
    bind_exn (field_item (ConfigRuleName rc) ''ConfigRuleName'') (\<lambda>rule_name.
    bind_exn (field_item (Compliance rc) ''Compliance'') (\<lambda>compliance.
    bind_exn (field_item (ComplianceType compliance) ''ComplianceType'') (\<lambda>ctype.
      let detail' = dict_set rule_name
            \<lparr> rd_status = ctype,
              rd_last_evaluated = get_default (ComplianceContributorCount compliance)
                \<lparr> CappedCount = None, CapExceeded = None \<rparr> \<rparr> rules_detail
      in if ctype = ''COMPLIANT''
         then count_rules rest (total_rules + 1, compliant_rules + 1, non_compliant_rules, detail')
         else count_rules rest (total_rules + 1, compliant_rules, non_compliant_rules + 1, detail'))))"

subsection \<open>The outside world of the compliance handler\<close>

text \<open>
  What the body of a custom check computes from the listings it reads: the number of
  resources examined, the number found compliant, and the violations.
\<close>

record scan_result =
  sr_total :: nat
  sr_compliant :: nat
  sr_violations :: "violation list"

record compliance_report =
  r_timestamp :: string
  r_project :: string
  r_environment :: string
  r_config_rules_status :: pydict
  r_custom_checks :: "(string \<times> pydict) list"
  r_compliance_score :: rat
  r_violations :: "violation list"
  r_recommendations :: "string list"

text \<open>A call of \<open>sns.publish\<close>: its subject and the variable parts of its message.\<close>

datatype notification =
    Compliance_notification string "string list"
  | Error_notification string "string list"

text \<open>
  The environment variables, the clock, and the services the handler calls. The managed
  rule service answers with its listing (whose key may be absent) or raises. The listing
  calls of the custom checks answer or raise; \<open>describe_instances\<close>, \<open>list_buckets\<close> and
  \<open>describe_db_instances\<close> are each called by two checks, and the argument tells the first
  call of a run from the second. \<open>cc_s3_exceptions\<close> holds the names of the exception
  classes that \<open>s3.exceptions\<close> of the client defines. \<open>cc_json_dumps\<close> tells whether
  serialising the report raises.
\<close>

record compliance_env =
  cc_SNS_TOPIC_ARN :: "string option"
  cc_PROJECT_NAME :: string
  cc_ENVIRONMENT :: string
  cc_now_isoformat :: string
  cc_describe_compliance_by_config_rule :: "exn + rule_compliance list option"
  cc_describe_instances :: "nat \<Rightarrow> exn + instance_description list list"
  cc_list_buckets :: "nat \<Rightarrow> exn + string list"
  cc_s3_exceptions :: "string list"
  cc_get_bucket_tagging :: "string \<Rightarrow> tag_list option lookup"
  cc_describe_security_groups :: "exn + security_group list"
  cc_get_public_access_block :: "string \<Rightarrow> public_access_block lookup"
  cc_get_bucket_encryption :: "string \<Rightarrow> unit lookup"
  cc_describe_db_instances :: "nat \<Rightarrow> exn + db_description list"
  cc_describe_volumes :: "exn + volume_description list"
  cc_sns_publish :: "notification \<Rightarrow> exn option"
  cc_json_dumps :: "compliance_report \<Rightarrow> exn option"

subsection \<open>The checks\<close>

text \<open>
  The \<open>try\<close> block of \<open>get_config_rules_compliance\<close>: the listing call and the loop over
  \<open>response.get('ComplianceByConfigRules', [])\<close>.
\<close>

definition config_rules_scan :: "compliance_env
    \<Rightarrow> exn + int \<times> int \<times> int \<times> (string \<times> rule_detail) list" where
  "config_rules_scan env =
    bind_exn (cc_describe_compliance_by_config_rule env)
      (\<lambda>response. count_rules (get_default response []) (0, 0, 0, []))"

definition get_config_rules_compliance :: "compliance_env \<Rightarrow> pydict" where
  "get_config_rules_compliance env =
    (case config_rules_scan env of
       Inl e \<Rightarrow> config_status_dict 0 0 0 []
     | Inr (total_rules, compliant_rules, non_compliant_rules, rules_detail) \<Rightarrow>
         config_status_dict total_rules compliant_rules non_compliant_rules rules_detail)"

text \<open>The dictionary a check returns, with the key names of that check.\<close>

definition check_dict :: "string \<Rightarrow> string \<Rightarrow> nat \<Rightarrow> nat \<Rightarrow> violation list \<Rightarrow> pydict" where
  "check_dict total_key compliant_key n_total n_compliant vs =
    [(total_key, PInt (int n_total)), (compliant_key, PInt (int n_compliant)),
     (''violations'', PList vs)]"

text \<open>
  A check: the report its \<open>try\<close> block built, or the all-zero dictionary of the \<open>except\<close>
  clause.
\<close>

definition run_check :: "string \<Rightarrow> string \<Rightarrow> exn + scan_result \<Rightarrow> pydict" where
  "run_check total_key compliant_key scan =
    (case scan of
       Inl e \<Rightarrow> check_dict total_key compliant_key 0 0 []
     | Inr r \<Rightarrow> check_dict total_key compliant_key (sr_total r) (sr_compliant r) (sr_violations r))"

text \<open>
  The loop shared by the checks: every resource visited is counted, and is either counted
  as compliant or added to the violations. An exception raised for a resource leaves the
  loop.
\<close>

definition empty_scan :: scan_result where
  "empty_scan = \<lparr> sr_total = 0, sr_compliant = 0, sr_violations = [] \<rparr>"

definition add_compliant :: "scan_result \<Rightarrow> scan_result" where
  "add_compliant r = r\<lparr> sr_total := sr_total r + 1, sr_compliant := sr_compliant r + 1 \<rparr>"

definition add_violation :: "violation \<Rightarrow> scan_result \<Rightarrow> scan_result" where
  "add_violation v r = r\<lparr> sr_total := sr_total r + 1, sr_violations := sr_violations r @ [v] \<rparr>"

fun scan_resources :: "('a \<Rightarrow> exn + violation option) \<Rightarrow> 'a list \<Rightarrow> scan_result
    \<Rightarrow> exn + scan_result" where
  "scan_resources verdict [] r = Inr r"
| "scan_resources verdict (x # xs) r =
    (case verdict x of
       Inl e \<Rightarrow> Inl e
     | Inr None \<Rightarrow> scan_resources verdict xs (add_compliant r)
     | Inr (Some v) \<Rightarrow> scan_resources verdict xs (add_violation v r))"

text \<open>
  \<open>except s3.exceptions.N:\<close> for an exception of class \<open>cls\<close> raised in the \<open>try\<close> block.
  The clause first reads the attribute \<open>N\<close> of \<open>s3.exceptions\<close>, which raises
  \<open>AttributeError\<close> when the client defines no exception class of that name; the new
  exception then leaves the statement in place of the one raised. Otherwise the exception
  is caught when it is of the class named, and goes on when it is not. The text of the
  \<open>AttributeError\<close> is only ever logged.
\<close>

datatype caught = Caught | Escapes exn

definition attribute_error :: "string \<Rightarrow> exn" where
  "attribute_error name = ''S3Exceptions object has no attribute '' @ name"

definition except_s3 :: "compliance_env \<Rightarrow> string \<Rightarrow> string \<Rightarrow> exn \<Rightarrow> caught" where
  "except_s3 env name cls e =
    (if name \<notin> set (cc_s3_exceptions env) then Escapes (attribute_error name)
     else if cls = name then Caught
     else Escapes e)"

text \<open>The dictionary \<open>{tag['Key']: tag['Value'] for tag in tags}\<close>: the last value of a key.\<close>

definition tags_dict :: "tag_list \<Rightarrow> string \<Rightarrow> string option" where
  "tags_dict tags = map_of (rev tags)"

text \<open>\<open>check_resource_tagging\<close>: instances that run or are stopped, and the project's buckets.\<close>

definition required_tags :: "string list" where
  "required_tags = [''Project'', ''Environment'', ''ManagedBy'']"

definition missing_tags :: "tag_list \<Rightarrow> string list" where
  "missing_tags tags = filter (\<lambda>t. tags_dict tags t = None) required_tags"

definition tagging_verdict :: "string \<Rightarrow> string \<Rightarrow> tag_list \<Rightarrow> violation option" where
  "tagging_verdict resource_type resource_id tags =
    (if missing_tags tags = [] then None
     else Some (Missing_tags resource_type resource_id (missing_tags tags)))"

definition instance_tagging :: "instance_description \<Rightarrow> exn + violation option" where
  "instance_tagging i =
    Inr (tagging_verdict ''EC2 Instance'' (i_InstanceId i) (get_default (i_Tags i) []))"

definition bucket_tagging :: "compliance_env \<Rightarrow> string \<Rightarrow> exn + violation option" where
  "bucket_tagging env bucket_name =
    (case cc_get_bucket_tagging env bucket_name of
       Found tag_set \<Rightarrow> Inr (tagging_verdict ''S3 Bucket'' bucket_name (get_default tag_set []))
     | Raised cls e \<Rightarrow>
         (case except_s3 env ''NoSuchTagSet'' cls e of
            Caught \<Rightarrow> Inr (Some (Missing_tags ''S3 Bucket'' bucket_name required_tags))
          | Escapes e' \<Rightarrow> Inl e'))"

definition tagging_scan :: "compliance_env \<Rightarrow> exn + scan_result" where
  "tagging_scan env =
    bind_exn (cc_describe_instances env 0) (\<lambda>reservations.
    bind_exn (scan_resources instance_tagging
        (filter (\<lambda>i. i_State i = ''running'' \<or> i_State i = ''stopped'') (concat reservations))
        empty_scan) (\<lambda>report.
    bind_exn (cc_list_buckets env 0) (\<lambda>buckets.
      scan_resources (bucket_tagging env) (filter (py_in (cc_PROJECT_NAME env)) buckets)
        report)))"

text \<open>\<open>check_security_groups\<close>: every group but those named \<open>default\<close>.\<close>

definition rule_findings :: "ip_permission \<Rightarrow> group_finding list" where
  "rule_findings rule =
    concat (map (\<lambda>cidr.
        if cidr = Some ''0.0.0.0/0'' \<and> FromPort rule \<noteq> Some 80 \<and> FromPort rule \<noteq> Some 443
        then [Overly_permissive_inbound (FromPort rule) (IpProtocol rule)] else [])
      (get_default (IpRanges rule) []))"

definition group_findings :: "security_group \<Rightarrow> group_finding list" where
  "group_findings sg =
    concat (map rule_findings (IpPermissions sg))
    @ (if IpPermissions sg = [] \<and> get_default (IpPermissionsEgress sg) [] = []
       then [Unused_security_group (GroupId sg)] else [])"

definition group_verdict :: "security_group \<Rightarrow> exn + violation option" where
  "group_verdict sg =
    Inr (if group_findings sg = [] then None
         else Some (Group_violations (GroupId sg) (GroupName sg) (group_findings sg)))"

definition security_groups_scan :: "compliance_env \<Rightarrow> exn + scan_result" where
  "security_groups_scan env =
    bind_exn (cc_describe_security_groups env) (\<lambda>groups.
      scan_resources group_verdict (filter (\<lambda>sg. GroupName sg \<noteq> ''default'') groups)
        empty_scan)"

text \<open>\<open>check_s3_bucket_policies\<close>: the project's buckets.\<close>

definition all_blocked :: "public_access_block \<Rightarrow> bool" where
  "all_blocked pab_config \<longleftrightarrow>
    get_default (BlockPublicAcls pab_config) False
    \<and> get_default (IgnorePublicAcls pab_config) False
    \<and> get_default (BlockPublicPolicy pab_config) False
    \<and> get_default (RestrictPublicBuckets pab_config) False"

definition access_findings :: "compliance_env \<Rightarrow> public_access_block lookup
    \<Rightarrow> exn + bucket_finding list" where
  "access_findings env answer =
    (case answer of
       Found pab_config \<Rightarrow>
         Inr (if all_blocked pab_config then [] else [Public_access_not_blocked pab_config])
     | Raised cls e \<Rightarrow>
         (case except_s3 env ''NoSuchPublicAccessBlockConfiguration'' cls e of
            Caught \<Rightarrow> Inr [No_public_access_block]
          | Escapes e' \<Rightarrow> Inl e'))"

definition encryption_findings :: "compliance_env \<Rightarrow> unit lookup \<Rightarrow> exn + bucket_finding list" where
  "encryption_findings env answer =
    (case answer of
       Found u \<Rightarrow> Inr []
     | Raised cls e \<Rightarrow>
         (case except_s3 env ''ServerSideEncryptionConfigurationNotFoundError'' cls e of
            Caught \<Rightarrow> Inr [Encryption_not_enabled]
          | Escapes e' \<Rightarrow> Inl e'))"

definition bucket_verdict :: "compliance_env \<Rightarrow> string \<Rightarrow> exn + violation option" where
  "bucket_verdict env bucket_name =
    bind_exn (access_findings env (cc_get_public_access_block env bucket_name)) (\<lambda>access.
    bind_exn (encryption_findings env (cc_get_bucket_encryption env bucket_name)) (\<lambda>encryption.
      Inr (if access @ encryption = [] then None
           else Some (Bucket_violations bucket_name (access @ encryption)))))"

definition s3_buckets_scan :: "compliance_env \<Rightarrow> exn + scan_result" where
  "s3_buckets_scan env =
    bind_exn (cc_list_buckets env 1) (\<lambda>buckets.
      scan_resources (bucket_verdict env) (filter (py_in (cc_PROJECT_NAME env)) buckets)
        empty_scan)"

text \<open>\<open>check_encryption_compliance\<close>: the database instances, then the volumes.\<close>

definition db_encryption :: "db_description \<Rightarrow> exn + violation option" where
  "db_encryption db_instance =
    Inr (if get_default (db_StorageEncrypted db_instance) False then None
         else Some (Resource_issue ''RDS Instance'' (db_DBInstanceIdentifier db_instance)
                ''Storage not encrypted''))"

definition volume_encryption :: "volume_description \<Rightarrow> exn + violation option" where
  "volume_encryption volume =
    Inr (if get_default (v_Encrypted volume) False then None
         else Some (Resource_issue ''EBS Volume'' (v_VolumeId volume) ''Volume not encrypted''))"

definition encryption_scan :: "compliance_env \<Rightarrow> exn + scan_result" where
  "encryption_scan env =
    bind_exn (cc_describe_db_instances env 0) (\<lambda>db_instances.
    bind_exn (scan_resources db_encryption db_instances empty_scan) (\<lambda>report.
    bind_exn (cc_describe_volumes env) (\<lambda>volumes.
      scan_resources volume_encryption volumes report)))"

text \<open>
  \<open>check_public_access_compliance\<close>: the database instances, then the running instances.
  An instance is a violation when it has a public address and its \<open>SubnetType\<close> tag, in
  lower case, is \<open>private\<close> or \<open>database\<close>.
\<close>

definition db_exposure :: "db_description \<Rightarrow> exn + violation option" where
  "db_exposure db_instance =
    Inr (if \<not> get_default (db_PubliclyAccessible db_instance) False then None
         else Some (Resource_issue ''RDS Instance'' (db_DBInstanceIdentifier db_instance)
                ''Database is publicly accessible''))"

definition subnet_type_of :: "instance_description \<Rightarrow> string" where
  "subnet_type_of i = lower (get_default (tags_dict (get_default (i_Tags i) []) ''SubnetType'') [])"

definition instance_exposure :: "instance_description \<Rightarrow> exn + violation option" where
  "instance_exposure i =
    Inr (if get_default (i_PublicIpAddress i) [] \<noteq> []
            \<and> (subnet_type_of i = ''private'' \<or> subnet_type_of i = ''database'')
         then Some (Resource_issue ''EC2 Instance'' (i_InstanceId i)
                (''Public IP in '' @ subnet_type_of i @ '' subnet''))
         else None)"

definition public_access_scan :: "compliance_env \<Rightarrow> exn + scan_result" where
  "public_access_scan env =
    bind_exn (cc_describe_db_instances env 1) (\<lambda>db_instances.
    bind_exn (scan_resources db_exposure db_instances empty_scan) (\<lambda>report.
    bind_exn (cc_describe_instances env 1) (\<lambda>reservations.
      scan_resources instance_exposure
        (filter (\<lambda>i. i_State i = ''running'') (concat reservations)) report)))"

text \<open>The five checks and their key names.\<close>

definition check_resource_tagging :: "compliance_env \<Rightarrow> pydict" where
  "check_resource_tagging env =
    run_check ''total_resources'' ''compliant_resources'' (tagging_scan env)"

definition check_security_groups :: "compliance_env \<Rightarrow> pydict" where
  "check_security_groups env =
    run_check ''total_security_groups'' ''compliant_security_groups'' (security_groups_scan env)"

definition check_s3_bucket_policies :: "compliance_env \<Rightarrow> pydict" where
  "check_s3_bucket_policies env =
    run_check ''total_buckets'' ''compliant_buckets'' (s3_buckets_scan env)"

definition check_encryption_compliance :: "compliance_env \<Rightarrow> pydict" where
  "check_encryption_compliance env =
    run_check ''total_resources'' ''encrypted_resources'' (encryption_scan env)"

definition check_public_access_compliance :: "compliance_env \<Rightarrow> pydict" where
  "check_public_access_compliance env =
    run_check ''total_resources'' ''private_resources'' (public_access_scan env)"

definition perform_custom_checks :: "compliance_env \<Rightarrow> (string \<times> pydict) list" where
  "perform_custom_checks env =
    [(''tagging_compliance'', check_resource_tagging env),
     (''security_groups'', check_security_groups env),
     (''s3_bucket_policies'', check_s3_bucket_policies env),
     (''encryption_status'', check_encryption_compliance env),
     (''public_access'', check_public_access_compliance env)]"


text \<open>What a check reports: the counts of its \<open>try\<close> block, or no resource at all.\<close>

definition scan_outcome :: "exn + scan_result \<Rightarrow> scan_result" where
  "scan_outcome scan = (case scan of Inl e \<Rightarrow> empty_scan | Inr r \<Rightarrow> r)"

subsection \<open>The rule listing as the specification reads it\<close>

text \<open>
  A rule of the listing has the three keys that the loop indexes; a rule is compliant when
  its compliance type is \<open>COMPLIANT\<close>.
\<close>

definition rule_complete :: "rule_compliance \<Rightarrow> bool" where
  "rule_complete rc =
    (ConfigRuleName rc \<noteq> None
     \<and> (case Compliance rc of None \<Rightarrow> False | Some compliance \<Rightarrow> ComplianceType compliance \<noteq> None))"

definition rule_compliant :: "rule_compliance \<Rightarrow> bool" where
  "rule_compliant rc =
    (case Compliance rc of
       None \<Rightarrow> False
     | Some compliance \<Rightarrow> ComplianceType compliance = Some ''COMPLIANT'')"

subsection \<open>The score as the specification states it\<close>

text \<open>
  A category is its number of evaluated resources, its number of compliant ones and its
  weight. Its score is the percentage of compliant resources; the overall score is the sum of
  score times weight over the categories with at least one resource, divided by the sum of
  their weights, and \<open>0.0\<close> when there is no such category. Sums run in the order of the
  categories, in float arithmetic.
\<close>

definition category_score :: "nat \<Rightarrow> nat \<Rightarrow> rat" where
  "category_score n_compliant n_total = fmul (rnd (of_nat n_compliant / of_nat n_total)) 100"

definition fsum :: "rat list \<Rightarrow> rat" where
  "fsum xs = foldl fadd 0 xs"

definition evaluated :: "nat \<times> nat \<times> rat \<Rightarrow> bool" where
  "evaluated cat = (case cat of (n_total, n_compliant, w) \<Rightarrow> 0 < n_total)"

definition contribution :: "nat \<times> nat \<times> rat \<Rightarrow> rat" where
  "contribution cat = (case cat of (n_total, n_compliant, w) \<Rightarrow> fmul (category_score n_compliant n_total) w)"

definition weight_of :: "nat \<times> nat \<times> rat \<Rightarrow> rat" where
  "weight_of cat = (case cat of (n_total, n_compliant, w) \<Rightarrow> w)"

definition weighted_average :: "(nat \<times> nat \<times> rat) list \<Rightarrow> rat" where
  "weighted_average cats =
    (let applied = filter evaluated cats
     in if applied = [] then 0
        else fdiv (fsum (map contribution applied)) (fsum (map weight_of applied)))"

text \<open>The six categories with the weights of the specification.\<close>

definition categories :: "nat \<times> nat \<Rightarrow> scan_result \<Rightarrow> scan_result \<Rightarrow> scan_result \<Rightarrow> scan_result
    \<Rightarrow> scan_result \<Rightarrow> (nat \<times> nat \<times> rat) list" where
  "categories rules tagging groups buckets encryption public_access =
    [(fst rules, snd rules, w40),
     (sr_total tagging, sr_compliant tagging, w15),
     (sr_total groups, sr_compliant groups, w15),
     (sr_total buckets, sr_compliant buckets, w15),
     (sr_total encryption, sr_compliant encryption, w10),
     (sr_total public_access, sr_compliant public_access, w05)]"

text \<open>The five check dictionaries as the check functions build them from their counts.\<close>

definition custom_checks_of :: "scan_result \<Rightarrow> scan_result \<Rightarrow> scan_result \<Rightarrow> scan_result
    \<Rightarrow> scan_result \<Rightarrow> (string \<times> pydict) list" where
  "custom_checks_of tagging groups buckets encryption public_access =
    [(''tagging_compliance'', run_check ''total_resources'' ''compliant_resources'' (Inr tagging)),
     (''security_groups'', run_check ''total_security_groups'' ''compliant_security_groups'' (Inr groups)),
     (''s3_bucket_policies'', run_check ''total_buckets'' ''compliant_buckets'' (Inr buckets)),
     (''encryption_status'', run_check ''total_resources'' ''encrypted_resources'' (Inr encryption)),
     (''public_access'', run_check ''total_resources'' ''private_resources'' (Inr public_access))]"

text \<open>Every category counts no more compliant resources than resources.\<close>

definition counts_ok :: "(nat \<times> nat \<times> rat) list \<Rightarrow> bool" where
  "counts_ok cats = list_all (\<lambda>(n_total, n_compliant, w). n_compliant \<le> n_total) cats"


text \<open>The weights of the six categories, in the order in which the code visits them.\<close>

definition all_weights :: "rat list" where
  "all_weights = [w40, w15, w15, w15, w10, w05]"


subsection \<open>Recommendations and notifications\<close>

text \<open>\<open>custom_checks.get(name, {}).get('violations')\<close> as a condition.\<close>

definition has_violations :: "(string \<times> pydict) list \<Rightarrow> string \<Rightarrow> bool" where
  "has_violations custom_checks name =
    (case map_of (dict_get custom_checks name []) ''violations'' of
       None \<Rightarrow> False
     | Some v \<Rightarrow> py_truthy v)"

definition generate_recommendations :: "compliance_report \<Rightarrow> exn + string list" where
  "generate_recommendations compliance_report =
    (let config_status = r_config_rules_status compliance_report;
         custom_checks = r_custom_checks compliance_report
     in bind_exn (py_gt0 (dict_get config_status ''non_compliant_rules'' (PInt 0))) (\<lambda>non_compliant.
          Inr ((if non_compliant
                then [''Review and remediate non-compliant AWS Config rules''] else [])
             @ (if has_violations custom_checks ''tagging_compliance''
                then [''Apply required tags (Project, Environment, ManagedBy) to all resources'']
                else [])
             @ (if has_violations custom_checks ''security_groups''
                then [''Review security group rules and remove overly permissive access'']
                else [])
             @ (if has_violations custom_checks ''s3_bucket_policies''
                then [''Enable S3 public access block and server-side encryption''] else [])
             @ (if has_violations custom_checks ''encryption_status''
                then [''Enable encryption for RDS instances and EBS volumes''] else [])
             @ (if has_violations custom_checks ''public_access''
                then [''Remove public access from resources in private subnets''] else []))))"

text \<open>
  \<open>str(v)\<close> inside an f-string. Only counts are rendered in a report the handler builds;
  the rendering of a list or of the rule details is abbreviated.
\<close>

definition py_str :: "pyval \<Rightarrow> string" where
  "py_str v = (case v of PInt n \<Rightarrow> show_int n | PList vs \<Rightarrow> ''[...]'' | PRules rs \<Rightarrow> ''{...}'')"

text \<open>\<open>sep.join(lines)\<close>.\<close>

fun join :: "string \<Rightarrow> string list \<Rightarrow> string" where
  "join sep [] = []"
| "join sep [l] = l"
| "join sep (l # ls) = l @ sep @ join sep ls"

text \<open>\<open>s.title()\<close> on ASCII text: a letter after a non-letter is upper case, any other lower.\<close>

fun title_from :: "bool \<Rightarrow> string \<Rightarrow> string" where
  "title_from after_letter [] = []"
| "title_from after_letter (c # cs) =
    (if is_upper c \<or> is_lower c
     then (if after_letter then to_lower c else to_upper c) # title_from True cs
     else c # title_from False cs)"

definition title :: "string \<Rightarrow> string" where
  "title s = title_from False s"

text \<open>The UTF-8 bytes of the bullet and of the symbols that open a subject.\<close>

definition bullet :: string where
  "bullet = [CHR 0xE2, CHR 0x80, CHR 0xA2]"

definition magnifier :: string where
  "magnifier = [CHR 0xF0, CHR 0x9F, CHR 0x94, CHR 0x8D]"

definition warning_sign :: string where
  "warning_sign = [CHR 0xE2, CHR 0x9A, CHR 0xA0, CHR 0xEF, CHR 0xB8, CHR 0x8F]"

definition check_mark :: string where
  "check_mark = [CHR 0xE2, CHR 0x9C, CHR 0x85]"

definition format_config_status :: "pydict \<Rightarrow> exn + string" where
  "format_config_status config_status =
    (if \<not> (case map_of config_status ''total_rules'' of None \<Rightarrow> False | Some v \<Rightarrow> py_truthy v)
     then Inr ''  No Config rules found''
     else bind_exn (dict_item config_status ''compliant_rules'') (\<lambda>compliant.
          bind_exn (dict_item config_status ''total_rules'') (\<lambda>n_rules.
            Inr (''  Compliant: '' @ py_str compliant @ ''/'' @ py_str n_rules @ '' rules''))))"

definition format_custom_checks :: "(string \<times> pydict) list \<Rightarrow> string" where
  "format_custom_checks custom_checks =
    (if custom_checks = [] then ''  No custom checks performed''
     else join [CHR 0x0A]
       (map (\<lambda>(check_name, check_data).
          (let check_display = title (map (\<lambda>c. if c = CHR ''_'' then CHR '' '' else c) check_name)
           in ''  '' @ bullet @ '' '' @ check_display @ '': ''
              @ py_str (compliant_of check_data) @ ''/'' @ py_str (total_of check_data)))
        custom_checks))"

definition format_recommendations :: "string list \<Rightarrow> string" where
  "format_recommendations recommendations =
    (if recommendations = [] then ''  No specific recommendations at this time''
     else join [CHR 0x0A] (map (\<lambda>r. ''  '' @ bullet @ '' '' @ r) recommendations))"

text \<open>\<open>if SNS_TOPIC_ARN\<close>: the variable is set and not empty.\<close>

definition topic_configured :: "compliance_env \<Rightarrow> bool" where
  "topic_configured env = (case cc_SNS_TOPIC_ARN env of None \<Rightarrow> False | Some arn \<Rightarrow> arn \<noteq> [])"

text \<open>
  The calls of \<open>sns.publish\<close> a function makes, each with the exception it raised, if any;
  that exception is logged and goes no further.
\<close>

type_synonym publish = "notification \<times> exn option"

definition send_compliance_notification :: "compliance_env \<Rightarrow> compliance_report \<Rightarrow> publish list" where
  "send_compliance_notification env compliance_report =
    (if \<not> topic_configured env then []
     else
       (let score = r_compliance_score compliance_report;
            subject = magnifier @ '' Compliance Report - '' @ cc_PROJECT_NAME env @ '' ''
              @ cc_ENVIRONMENT env @ '' - '' @ format_1f score @ ''% Score'';
            subject =
              (if score < 70 then siren @ '' '' @ subject @ '' - Critical''
               else if score < 90 then warning_sign @ '' '' @ subject @ '' - Warning''
               else check_mark @ '' '' @ subject @ '' - Good'')
        in case format_config_status (r_config_rules_status compliance_report) of
             Inl e \<Rightarrow> []
           | Inr config_text \<Rightarrow>
               (let message =
                      [cc_PROJECT_NAME env, cc_ENVIRONMENT env, format_1f score,
                       r_timestamp compliance_report, config_text,
                       format_custom_checks (r_custom_checks compliance_report),
                       format_recommendations (r_recommendations compliance_report)];
                    n = Compliance_notification subject message
                in [(n, cc_sns_publish env n)])))"

definition send_error_notification :: "compliance_env \<Rightarrow> string \<Rightarrow> publish list" where
  "send_error_notification env error_message =
    (if \<not> topic_configured env then []
     else
       (let subject = siren @ '' Compliance Check Failed - '' @ cc_PROJECT_NAME env @ '' ''
              @ cc_ENVIRONMENT env;
            message = [cc_PROJECT_NAME env, cc_ENVIRONMENT env, cc_now_isoformat env, error_message];
            n = Error_notification subject message
        in [(n, cc_sns_publish env n)]))"

subsection \<open>The handler\<close>

text \<open>The body of a response: \<open>json.dumps\<close> of the report, or of \<open>{'error': message}\<close>.\<close>

datatype 'r json_body = Report_json 'r | Error_json string

text \<open>Lines 46--70: the report, complete with its score and recommendations.\<close>

definition build_report :: "compliance_env \<Rightarrow> exn + compliance_report" where
  "build_report env =
    (let config_rules_status = get_config_rules_compliance env;
         custom_checks = perform_custom_checks env;
         compliance_report =
           \<lparr> r_timestamp = cc_now_isoformat env,
             r_project = cc_PROJECT_NAME env,
             r_environment = cc_ENVIRONMENT env,
             r_config_rules_status = config_rules_status,
             r_custom_checks = custom_checks,
             r_compliance_score = calculate_compliance_score config_rules_status custom_checks,
             r_violations = [],
             r_recommendations = [] \<rparr>
     in bind_exn (generate_recommendations compliance_report) (\<lambda>recommendations.
          Inr (compliance_report \<lparr> r_recommendations := recommendations \<rparr>)))"

text \<open>The \<open>except\<close> clause of the handler; \<open>sent\<close> are the publish calls made before.\<close>

definition handler_failed :: "compliance_env \<Rightarrow> exn \<Rightarrow> publish list
    \<Rightarrow> compliance_report json_body response \<times> publish list" where
  "handler_failed env e sent =
    (let error_msg = ''Compliance check failed: '' @ e
     in (\<lparr> statusCode = 500, body = Error_json error_msg \<rparr>,
         sent @ (if topic_configured env then send_error_notification env error_msg else [])))"

text \<open>
  \<open>handler\<close>: the response, and the publish calls in the order in which they were made.
\<close>

definition compliance_handler :: "compliance_env
    \<Rightarrow> compliance_report json_body response \<times> publish list" where
  "compliance_handler env =
    (case build_report env of
       Inl e \<Rightarrow> handler_failed env e []
     | Inr compliance_report \<Rightarrow>
         (let sent = (if r_compliance_score compliance_report < 90
                      then send_compliance_notification env compliance_report else [])
          in case cc_json_dumps env compliance_report of
               Some e \<Rightarrow> handler_failed env e sent
             | None \<Rightarrow> (\<lparr> statusCode = 200, body = Report_json compliance_report \<rparr>, sent)))"

text \<open>Whether a publish call carries a compliance report.\<close>

definition is_compliance_notification :: "publish \<Rightarrow> bool" where
  "is_compliance_notification p = (case fst p of Compliance_notification s m \<Rightarrow> True | _ \<Rightarrow> False)"


text \<open>
  The exception classes of an S3 client built from the service description of the AWS SDK:
  the description declares these and none of the three that the checks name.
\<close>

definition s3_exception_classes :: "string list" where
  "s3_exception_classes =
    [''BucketAlreadyExists'', ''BucketAlreadyOwnedByYou'', ''InvalidObjectState'',
     ''NoSuchBucket'', ''NoSuchKey'', ''NoSuchUpload'', ''ObjectAlreadyInActiveTierError'',
     ''ObjectNotInActiveTierError'']"

text \<open>
  A run of the compliance handler without a notification topic: one config rule, not
  compliant, no resource found by any custom check, every service answering.
\<close>

definition quiet_env :: compliance_env where
  "quiet_env =
    \<lparr> cc_SNS_TOPIC_ARN = None,
      cc_PROJECT_NAME = ''epic'',
      cc_ENVIRONMENT = ''dev'',
      cc_now_isoformat = ''2024-01-01T00:00:00'',
      cc_describe_compliance_by_config_rule =
        Inr (Some [\<lparr> ConfigRuleName = Some ''encrypted-volumes'',
                     Compliance = Some \<lparr> ComplianceType = Some ''NON_COMPLIANT'',
                                        ComplianceContributorCount = None \<rparr> \<rparr>]),
      cc_describe_instances = (\<lambda>n. Inr []),
      cc_list_buckets = (\<lambda>n. Inr []),
      cc_s3_exceptions = s3_exception_classes,
      cc_get_bucket_tagging = (\<lambda>b. Found None),
      cc_describe_security_groups = Inr [],
      cc_get_public_access_block = (\<lambda>b. Found
        \<lparr> BlockPublicAcls = Some True, IgnorePublicAcls = Some True,
          BlockPublicPolicy = Some True, RestrictPublicBuckets = Some True \<rparr>),
      cc_get_bucket_encryption = (\<lambda>b. Found ()),
      cc_describe_db_instances = (\<lambda>n. Inr []),
      cc_describe_volumes = Inr [],
      cc_sns_publish = (\<lambda>n. None),
      cc_json_dumps = (\<lambda>r. None) \<rparr>"

text \<open>
  A run in which the listing of config rules and the listing of volumes are refused, and
  the project's bucket has no tags: the service answers \<open>get_bucket_tagging\<close> with the error
  code \<open>NoSuchTagSet\<close>, which the client raises as a \<open>ClientError\<close>. There are three instances
  in two reservations, three security groups, two buckets of which one belongs to the
  project, and one database instance.
\<close>

definition sample_instances :: "instance_description list list" where
  "sample_instances =
    [[\<lparr> i_State = ''running'', i_InstanceId = ''i-1'',
         i_Tags = Some [(''Project'', ''epic''), (''Environment'', ''dev''),
                        (''SubnetType'', ''Private'')],
         i_PublicIpAddress = Some ''203.0.113.7'' \<rparr>,
      \<lparr> i_State = ''stopped'', i_InstanceId = ''i-2'',
         i_Tags = Some [(''Project'', ''epic''), (''Environment'', ''dev''),
                        (''ManagedBy'', ''terraform'')],
         i_PublicIpAddress = None \<rparr>],
     [\<lparr> i_State = ''terminated'', i_InstanceId = ''i-3'', i_Tags = None,
         i_PublicIpAddress = None \<rparr>]]"

definition sample_groups :: "security_group list" where
  "sample_groups =
    [\<lparr> GroupName = ''default'', GroupId = ''sg-0'', IpPermissions = [],
        IpPermissionsEgress = None \<rparr>,
     \<lparr> GroupName = ''web'', GroupId = ''sg-1'',
        IpPermissions = [\<lparr> FromPort = Some 443, IpProtocol = Some ''tcp'',
                            IpRanges = Some [Some ''0.0.0.0/0''] \<rparr>],
        IpPermissionsEgress = None \<rparr>,
     \<lparr> GroupName = ''ssh'', GroupId = ''sg-2'',
        IpPermissions = [\<lparr> FromPort = Some 22, IpProtocol = Some ''tcp'',
                            IpRanges = Some [Some ''10.0.0.0/8'', Some ''0.0.0.0/0''] \<rparr>],
        IpPermissionsEgress = None \<rparr>]"

definition sample_env :: compliance_env where
  "sample_env =
    \<lparr> cc_SNS_TOPIC_ARN = Some ''arn:aws:sns:eu-west-1:1:alerts'',
      cc_PROJECT_NAME = ''epic'',
      cc_ENVIRONMENT = ''dev'',
      cc_now_isoformat = ''2024-01-01T00:00:00'',
      cc_describe_compliance_by_config_rule = Inl ''AccessDenied'',
      cc_describe_instances = (\<lambda>n. Inr sample_instances),
      cc_list_buckets = (\<lambda>n. Inr [''epic-logs'', ''other'']),
      cc_s3_exceptions = s3_exception_classes,
      cc_get_bucket_tagging = (\<lambda>b. Raised ''ClientError''
        (''An error occurred (NoSuchTagSet) when calling the GetBucketTagging operation: ''
         @ ''The TagSet does not exist'')),
      cc_describe_security_groups = Inr sample_groups,
      cc_get_public_access_block = (\<lambda>b. Found
        \<lparr> BlockPublicAcls = Some True, IgnorePublicAcls = Some True,
          BlockPublicPolicy = Some True, RestrictPublicBuckets = Some True \<rparr>),
      cc_get_bucket_encryption = (\<lambda>b. Found ()),
      cc_describe_db_instances = (\<lambda>n. Inr
        [\<lparr> db_DBInstanceIdentifier = ''db-1'', db_StorageEncrypted = Some True,
            db_PubliclyAccessible = None \<rparr>]),
      cc_describe_volumes = Inl ''UnauthorizedOperation'',
      cc_sns_publish = (\<lambda>n. None),
      cc_json_dumps = (\<lambda>r. None) \<rparr>"


section \<open>Cost optimizer: compute instances (cost_optimizer.py)\<close>

record ec2_instance =
  InstanceId :: string
  InstanceType :: string

text \<open>A CloudWatch datapoint; \<open>dp['Average']\<close> raises when the statistic is absent.\<close>

record datapoint =
  dp_Average :: "rat option"

text \<open>
  The threshold from the environment (20.0 unless set), the listing of running instances of
  the project by reservation, and the hourly CPU statistics of an instance over seven days.
\<close>

record cost_env =
  co_UTILIZATION_THRESHOLD :: rat
  co_describe_instances :: "exn + ec2_instance list list"
  co_get_metric_statistics :: "string \<Rightarrow> exn + datapoint list"

text \<open>
  \<open>sum(dp['Average'] for dp in datapoints)\<close>, from the running total \<open>acc\<close>: the values are
  added from left to right, each partial sum rounded.
\<close>

fun sum_averages :: "rat \<Rightarrow> datapoint list \<Rightarrow> exn + rat" where
  "sum_averages acc [] = Inr acc"
| "sum_averages acc (dp # dps) =
    bind_exn (field_item (dp_Average dp) ''Average'') (\<lambda>x. sum_averages (fadd acc x) dps)"

definition get_average_cpu_utilization :: "cost_env \<Rightarrow> string \<Rightarrow> rat" where
  "get_average_cpu_utilization env instance_id =
    (case bind_exn (co_get_metric_statistics env instance_id) (\<lambda>datapoints.
            if datapoints \<noteq> []
            then bind_exn (sum_averages 0 datapoints) (\<lambda>s.
                   Inr (fdiv s (of_nat (length datapoints))))
            else Inr 0) of
       Inl e \<Rightarrow> 0
     | Inr avg_cpu \<Rightarrow> avg_cpu)"

record ec2_recommendation =
  rec_instance_id :: string
  rec_current_type :: string
  rec_suggested_type :: string
  rec_current_cpu_utilization :: rat
  rec_monthly_savings :: int
  rec_recommendation :: string
  rec_reason :: string

text \<open>The body of the loop of \<open>analyze_ec2_instances\<close>: what one instance appends.\<close>

definition analyze_instance :: "cost_env \<Rightarrow> ec2_instance \<Rightarrow> ec2_recommendation list" where
  "analyze_instance env instance =
    (let instance_id = InstanceId instance;
         instance_type = InstanceType instance;
         cpu_utilization = get_average_cpu_utilization env instance_id
     in if cpu_utilization < co_UTILIZATION_THRESHOLD env
        then (case suggest_smaller_instance_type instance_type of
                None \<Rightarrow> []
              | Some suggested_type \<Rightarrow>
                  if suggested_type = [] then []
                  else [\<lparr> rec_instance_id = instance_id,
                          rec_current_type = instance_type,
                          rec_suggested_type = suggested_type,
                          rec_current_cpu_utilization = cpu_utilization,
                          rec_monthly_savings =
                            estimate_instance_cost_savings instance_type suggested_type,
                          rec_recommendation =
                            ''Downsize from '' @ instance_type @ '' to '' @ suggested_type,
                          rec_reason =
                            ''CPU utilization is only '' @ format_1f cpu_utilization @ ''%'' \<rparr>])
        else [])"

definition analyze_ec2_instances :: "cost_env \<Rightarrow> ec2_recommendation list" where
  "analyze_ec2_instances env =
    (case co_describe_instances env of
       Inl e \<Rightarrow> []
     | Inr reservations \<Rightarrow>
         concat (map (\<lambda>reservation. concat (map (analyze_instance env) reservation)) reservations))"

text \<open>
  A fleet of four instances: busy at exactly the threshold, idle with a smaller type known,
  idle with no smaller type known, and idle with no statistics at all.
\<close>

definition fleet_env :: cost_env where
  "fleet_env =
    \<lparr> co_UTILIZATION_THRESHOLD = 20,
      co_describe_instances =
        Inr [[\<lparr> InstanceId = ''i-aaa'', InstanceType = ''t3.large'' \<rparr>,
              \<lparr> InstanceId = ''i-bbb'', InstanceType = ''t3.large'' \<rparr>],
             [\<lparr> InstanceId = ''i-ccc'', InstanceType = ''x1.32xlarge'' \<rparr>,
              \<lparr> InstanceId = ''i-ddd'', InstanceType = ''m5.xlarge'' \<rparr>]],
      co_get_metric_statistics =
        (\<lambda>instance_id.
           if instance_id = ''i-aaa''
           then Inr [\<lparr> dp_Average = Some 10 \<rparr>, \<lparr> dp_Average = Some 30 \<rparr>]
           else if instance_id = ''i-bbb''
           then Inr [\<lparr> dp_Average = Some 4 \<rparr>, \<lparr> dp_Average = Some 8 \<rparr>]
           else if instance_id = ''i-ccc''
           then Inr [\<lparr> dp_Average = Some 1 \<rparr>]
           else Inr []) \<rparr>"


section \<open>Backup rotator (db_backup.py)\<close>

subsection \<open>Dates and times\<close>

text \<open>
  A naive \<open>datetime\<close> in UTC, by its fields. \<open>utcnow()\<close> is a reading of the clock, passed to
  the function that takes it.
\<close>

record datetime =
  dt_year :: nat
  dt_month :: nat
  dt_day :: nat
  dt_hour :: nat
  dt_minute :: nat
  dt_second :: nat
  dt_microsecond :: nat

definition valid_datetime :: "datetime \<Rightarrow> bool" where
  "valid_datetime dt =
    (1 \<le> dt_year dt \<and> dt_year dt \<le> 9999 \<and> 1 \<le> dt_month dt \<and> dt_month dt \<le> 12
     \<and> 1 \<le> dt_day dt \<and> dt_day dt \<le> 31 \<and> dt_hour dt < 24 \<and> dt_minute dt < 60
     \<and> dt_second dt < 60 \<and> dt_microsecond dt < 1000000)"

text \<open>Two digits, zero padded, for a field below 100.\<close>

definition pad2 :: "nat \<Rightarrow> string" where
  "pad2 n = [digit_char (n div 10), digit_char (n mod 10)]"

text \<open>
  \<open>strftime('%Y-%m-%d-%H-%M-%S')\<close>; the year is printed in full, four digits from the year
  1000 on.
\<close>

definition strftime_stamp :: "datetime \<Rightarrow> string" where
  "strftime_stamp dt =
    show_nat (dt_year dt) @ ''-'' @ pad2 (dt_month dt) @ ''-'' @ pad2 (dt_day dt) @ ''-''
    @ pad2 (dt_hour dt) @ ''-'' @ pad2 (dt_minute dt) @ ''-'' @ pad2 (dt_second dt)"

text \<open>\<open>strftime('%Y-%m-%d')\<close>.\<close>

definition strftime_date :: "datetime \<Rightarrow> string" where
  "strftime_date dt =
    show_nat (dt_year dt) @ ''-'' @ pad2 (dt_month dt) @ ''-'' @ pad2 (dt_day dt)"

text \<open>
  The position of a datetime on the time line, in microseconds, counted as the \<open>datetime\<close>
  module counts: days by the proleptic Gregorian ordinal, on which day 1 is 1 January of
  year 1.
\<close>

definition is_leap :: "nat \<Rightarrow> bool" where
  "is_leap y = (y mod 4 = 0 \<and> (y mod 100 \<noteq> 0 \<or> y mod 400 = 0))"

definition days_before_year :: "nat \<Rightarrow> int" where
  "days_before_year year = (let y = int year - 1 in y * 365 + y div 4 - y div 100 + y div 400)"

definition days_before_month :: "nat \<Rightarrow> nat \<Rightarrow> int" where
  "days_before_month year month =
    int ([0, 0, 31, 59, 90, 120, 151, 181, 212, 243, 273, 304, 334] ! month)
    + (if 2 < month \<and> is_leap year then 1 else 0)"

definition ymd2ord :: "nat \<Rightarrow> nat \<Rightarrow> nat \<Rightarrow> int" where
  "ymd2ord year month day = days_before_year year + days_before_month year month + int day"

definition day_us :: int where
  "day_us = 86400 * 1000000"

definition to_microseconds :: "datetime \<Rightarrow> int" where
  "to_microseconds dt =
    (((ymd2ord (dt_year dt) (dt_month dt) (dt_day dt) * 24 + int (dt_hour dt)) * 60
       + int (dt_minute dt)) * 60 + int (dt_second dt)) * 1000000 + int (dt_microsecond dt)"

text \<open>
  \<open>now - timedelta(days=n)\<close>, by its position on the time line; \<open>OverflowError\<close> when the
  result leaves the years 1 to 9999.
\<close>

definition minus_days :: "datetime \<Rightarrow> int \<Rightarrow> exn + int" where
  "minus_days now n =
    (let t = to_microseconds now - n * day_us
     in if t < 1 * day_us \<or> 3652060 * day_us \<le> t then Inl ''date value out of range''
        else Inr t)"

text \<open>
  The date of a proleptic Gregorian ordinal, as the \<open>datetime\<close> module computes it from the
  cycles of 400, 100, 4 and 1 years.
\<close>

definition days_in_month :: "nat \<Rightarrow> nat \<Rightarrow> int" where
  "days_in_month year month =
    int ([0, 31, 28, 31, 30, 31, 30, 31, 31, 30, 31, 30, 31] ! month)
    + (if month = 2 \<and> is_leap year then 1 else 0)"

definition ord2ymd :: "int \<Rightarrow> nat \<times> nat \<times> nat" where
  "ord2ymd ordinal =
    (let n0 = ordinal - 1;
         n400 = n0 div 146097;
         n100 = (n0 mod 146097) div 36524;
         n4 = ((n0 mod 146097) mod 36524) div 1461;
         n1 = (((n0 mod 146097) mod 36524) mod 1461) div 365;
         n = (((n0 mod 146097) mod 36524) mod 1461) mod 365;
         year = nat (n400 * 400 + 1 + n100 * 100 + n4 * 4 + n1)
     in if n1 = 4 \<or> n100 = 4 then (year - 1, 12, 31)
        else
          (let month = nat ((n + 50) div 32);
               preceding = days_before_month year month
           in if n < preceding
              then (year, month - 1, nat (n - (preceding - days_in_month year (month - 1))) + 1)
              else (year, month, nat (n - preceding) + 1)))"

text \<open>
  \<open>now + timedelta(days=n)\<close>: the same time of day \<open>n\<close> days later, \<open>OverflowError\<close> when the
  date leaves the years 1 to 9999.
\<close>

definition plus_days :: "datetime \<Rightarrow> int \<Rightarrow> exn + datetime" where
  "plus_days now n =
    (let ordinal = ymd2ord (dt_year now) (dt_month now) (dt_day now) + n
     in if ordinal < 1 \<or> 3652059 < ordinal then Inl ''date value out of range''
        else (case ord2ymd ordinal of
                (year, month, day) \<Rightarrow>
                  Inr (now\<lparr> dt_year := year, dt_month := month, dt_day := day \<rparr>)))"

subsection \<open>Creating snapshots\<close>

text \<open>The arguments of \<open>create_db_snapshot\<close> and of \<open>create_db_cluster_snapshot\<close>.\<close>

record snapshot_request =
  rq_SnapshotIdentifier :: string
  rq_SourceIdentifier :: string
  rq_Tags :: "(string \<times> string) list"

text \<open>
  A manual snapshot as a listing describes it. Every key may be absent; the creation time
  is absent while the snapshot is being created.
\<close>

record snapshot =
  DBSnapshotIdentifier :: "string option"
  DBClusterSnapshotIdentifier :: "string option"
  TagList :: "(string \<times> string) list option"
  Tags :: "(string \<times> string) list option"
  SnapshotCreateTime :: "datetime option"

text \<open>
  The retention window, the two create calls (answering with the ARN of the snapshot or
  raising), the two listings of manual snapshots, and the two delete calls.
\<close>

record backup_env =
  bk_RETENTION_DAYS :: int
  bk_create_db_snapshot :: "snapshot_request \<Rightarrow> exn + string"
  bk_create_db_cluster_snapshot :: "snapshot_request \<Rightarrow> exn + string"
  bk_describe_db_snapshots :: "exn + snapshot list"
  bk_describe_db_cluster_snapshots :: "exn + snapshot list"
  bk_delete_db_snapshot :: "string \<Rightarrow> exn option"
  bk_delete_db_cluster_snapshot :: "string \<Rightarrow> exn option"

text \<open>
  \<open>backup_rds_instance\<close>, given the identifier of the instance and the two readings of the
  clock it takes: the request it sends, if it gets to send one, and the record it returns
  unless the retention date or the call raises.
\<close>

definition backup_rds_instance :: "backup_env \<Rightarrow> string \<Rightarrow> datetime \<Rightarrow> datetime
    \<Rightarrow> snapshot_request option \<times> (exn + (string \<times> string) list)" where
  "backup_rds_instance env instance_id now later =
    (let timestamp = strftime_stamp now;
         snapshot_id = instance_id @ ''-backup-'' @ timestamp
     in case plus_days later (bk_RETENTION_DAYS env) of
          Inl e \<Rightarrow> (None, Inl e)
        | Inr retention_date \<Rightarrow>
            (let request =
                   \<lparr> rq_SnapshotIdentifier = snapshot_id,
                     rq_SourceIdentifier = instance_id,
                     rq_Tags =
                       [(''BackupType'', ''Automated''),
                        (''BackupDate'', timestamp),
                        (''SourceInstance'', instance_id),
                        (''RetentionDate'', strftime_date retention_date)] \<rparr>
             in (Some request,
                 bind_exn (bk_create_db_snapshot env request) (\<lambda>snapshot_arn.
                   Inr [(''instance_id'', instance_id),
                        (''snapshot_id'', snapshot_id),
                        (''snapshot_arn'', snapshot_arn),
                        (''status'', ''success''),
                        (''timestamp'', timestamp)]))))"

definition backup_rds_cluster :: "backup_env \<Rightarrow> string \<Rightarrow> datetime \<Rightarrow> datetime
    \<Rightarrow> snapshot_request option \<times> (exn + (string \<times> string) list)" where
  "backup_rds_cluster env cluster_id now later =
    (let timestamp = strftime_stamp now;
         snapshot_id = cluster_id @ ''-backup-'' @ timestamp
     in case plus_days later (bk_RETENTION_DAYS env) of
          Inl e \<Rightarrow> (None, Inl e)
        | Inr retention_date \<Rightarrow>
            (let request =
                   \<lparr> rq_SnapshotIdentifier = snapshot_id,
                     rq_SourceIdentifier = cluster_id,
                     rq_Tags =
                       [(''BackupType'', ''Automated''),
                        (''BackupDate'', timestamp),
                        (''SourceCluster'', cluster_id),
                        (''RetentionDate'', strftime_date retention_date)] \<rparr>
             in (Some request,
                 bind_exn (bk_create_db_cluster_snapshot env request) (\<lambda>snapshot_arn.
                   Inr [(''cluster_id'', cluster_id),
                        (''snapshot_id'', snapshot_id),
                        (''snapshot_arn'', snapshot_arn),
                        (''status'', ''success''),
                        (''timestamp'', timestamp)]))))"

text \<open>Two datetimes name the same second when they agree in every field but the microsecond.\<close>

definition same_second :: "datetime \<Rightarrow> datetime \<Rightarrow> bool" where
  "same_second a b =
    (dt_year a = dt_year b \<and> dt_month a = dt_month b \<and> dt_day a = dt_day b
     \<and> dt_hour a = dt_hour b \<and> dt_minute a = dt_minute b \<and> dt_second a = dt_second b)"


subsection \<open>Deleting old snapshots\<close>

text \<open>The loop over the tags of \<open>is_automated_backup_snapshot\<close>.\<close>

fun has_backup_tag :: "(string \<times> string) list \<Rightarrow> bool" where
  "has_backup_tag [] = False"
| "has_backup_tag ((k, v) # tags) =
    (if k = ''BackupType'' \<and> v = ''Automated'' then True else has_backup_tag tags)"

definition is_automated_backup_snapshot :: "snapshot \<Rightarrow> bool" where
  "is_automated_backup_snapshot snapshot =
    (let tags = (case TagList snapshot of Some ts \<Rightarrow> Some ts | None \<Rightarrow> Tags snapshot)
     in if (case tags of Some ts \<Rightarrow> has_backup_tag ts | None \<Rightarrow> False) then True
        else
          (let snapshot_id =
                 (case DBSnapshotIdentifier snapshot of
                    Some i \<Rightarrow> if i \<noteq> [] then Some i else DBClusterSnapshotIdentifier snapshot
                  | None \<Rightarrow> DBClusterSnapshotIdentifier snapshot)
           in case snapshot_id of
                None \<Rightarrow> False
              | Some i \<Rightarrow> i \<noteq> [] \<and> py_in ''-backup-'' i))"

datatype snapshot_kind = Instance_snapshot | Cluster_snapshot

datatype delete_call = Delete_db_snapshot string | Delete_db_cluster_snapshot string

text \<open>An entry of \<open>cleanup_results\<close>.\<close>

record cleanup_record =
  cr_type :: string
  cr_snapshot_id :: string
  cr_status :: string
  cr_create_time :: "datetime option"
  cr_error :: "string option"

definition kind_name :: "snapshot_kind \<Rightarrow> string" where
  "kind_name kind =
    (case kind of Instance_snapshot \<Rightarrow> ''instance_snapshot'' | Cluster_snapshot \<Rightarrow> ''cluster_snapshot'')"

text \<open>\<open>snapshot['DBSnapshotIdentifier']\<close>, or \<open>snapshot['DBClusterSnapshotIdentifier']\<close>.\<close>

definition own_identifier :: "snapshot_kind \<Rightarrow> snapshot \<Rightarrow> exn + string" where
  "own_identifier kind snapshot =
    (case kind of
       Instance_snapshot \<Rightarrow> field_item (DBSnapshotIdentifier snapshot) ''DBSnapshotIdentifier''
     | Cluster_snapshot \<Rightarrow>
         field_item (DBClusterSnapshotIdentifier snapshot) ''DBClusterSnapshotIdentifier'')"

definition delete_snapshot :: "backup_env \<Rightarrow> snapshot_kind \<Rightarrow> string \<Rightarrow> exn option" where
  "delete_snapshot env kind snapshot_id =
    (case kind of
       Instance_snapshot \<Rightarrow> bk_delete_db_snapshot env snapshot_id
     | Cluster_snapshot \<Rightarrow> bk_delete_db_cluster_snapshot env snapshot_id)"

definition delete_call_of :: "snapshot_kind \<Rightarrow> string \<Rightarrow> delete_call" where
  "delete_call_of kind snapshot_id =
    (case kind of
       Instance_snapshot \<Rightarrow> Delete_db_snapshot snapshot_id
     | Cluster_snapshot \<Rightarrow> Delete_db_cluster_snapshot snapshot_id)"

text \<open>
  One of the two loops of \<open>cleanup_old_snapshots\<close>, over the snapshots of one kind. It
  carries the results so far and the delete calls made so far; an exception that is not
  the delete call's leaves the loop.
\<close>

fun cleanup_loop :: "backup_env \<Rightarrow> snapshot_kind \<Rightarrow> int \<Rightarrow> snapshot list \<Rightarrow> cleanup_record list
    \<Rightarrow> delete_call list \<Rightarrow> (exn + cleanup_record list) \<times> delete_call list" where
  "cleanup_loop env kind cutoff_date [] results calls = (Inr results, calls)"
| "cleanup_loop env kind cutoff_date (snapshot # rest) results calls =
    (if is_automated_backup_snapshot snapshot
     then
       (case SnapshotCreateTime snapshot of
          None \<Rightarrow> (Inl (key_error ''SnapshotCreateTime''), calls)
        | Some created \<Rightarrow>
            if to_microseconds created < cutoff_date
            then
              (case own_identifier kind snapshot of
                 Inl e \<Rightarrow> (Inl e, calls)
               | Inr snapshot_id \<Rightarrow>
                   (case delete_snapshot env kind snapshot_id of
                      None \<Rightarrow>
                        cleanup_loop env kind cutoff_date rest
                          (results @ [\<lparr> cr_type = kind_name kind, cr_snapshot_id = snapshot_id,
                                        cr_status = ''deleted'', cr_create_time = Some created,
                                        cr_error = None \<rparr>])
                          (calls @ [delete_call_of kind snapshot_id])
                    | Some e \<Rightarrow>
                        cleanup_loop env kind cutoff_date rest
                          (results @ [\<lparr> cr_type = kind_name kind, cr_snapshot_id = snapshot_id,
                                        cr_status = ''failed'', cr_create_time = None,
                                        cr_error = Some e \<rparr>])
                          (calls @ [delete_call_of kind snapshot_id])))
            else cleanup_loop env kind cutoff_date rest results calls)
     else cleanup_loop env kind cutoff_date rest results calls)"

text \<open>
  \<open>cleanup_old_snapshots\<close>, given the reading of the clock: the results or the exception it
  raises, and the delete calls it made.
\<close>

definition cleanup_old_snapshots :: "backup_env \<Rightarrow> datetime
    \<Rightarrow> (exn + cleanup_record list) \<times> delete_call list" where
  "cleanup_old_snapshots env now =
    (case minus_days now (bk_RETENTION_DAYS env) of
       Inl e \<Rightarrow> (Inl e, [])
     | Inr cutoff_date \<Rightarrow>
         (case bk_describe_db_snapshots env of
            Inl e \<Rightarrow> (Inl e, [])
          | Inr snapshots \<Rightarrow>
              (case cleanup_loop env Instance_snapshot cutoff_date snapshots [] [] of
                 (Inl e, calls) \<Rightarrow> (Inl e, calls)
               | (Inr results, calls) \<Rightarrow>
                   (case bk_describe_db_cluster_snapshots env of
                      Inl e \<Rightarrow> (Inl e, calls)
                    | Inr cluster_snapshots \<Rightarrow>
                        cleanup_loop env Cluster_snapshot cutoff_date cluster_snapshots
                          results calls))))"

subsection \<open>The retention rule as the specification states it\<close>

text \<open>
  The tags of a snapshot (\<open>TagList\<close>, or \<open>Tags\<close> when that key is absent) and its name (its
  instance snapshot identifier, or else its cluster snapshot identifier).
\<close>

definition snapshot_tags :: "snapshot \<Rightarrow> (string \<times> string) list" where
  "snapshot_tags s = (case TagList s of Some ts \<Rightarrow> ts | None \<Rightarrow> get_default (Tags s) [])"

definition snapshot_name :: "snapshot \<Rightarrow> string" where
  "snapshot_name s =
    (if get_default (DBSnapshotIdentifier s) [] \<noteq> [] then get_default (DBSnapshotIdentifier s) []
     else get_default (DBClusterSnapshotIdentifier s) [])"

text \<open>The automated-backup marker: the tag, or the name pattern.\<close>

definition marked :: "snapshot \<Rightarrow> bool" where
  "marked s =
    ((''BackupType'', ''Automated'') \<in> set (snapshot_tags s)
     \<or> sublist ''-backup-'' (snapshot_name s))"

text \<open>Marked, and created strictly before the cutoff.\<close>

definition due :: "int \<Rightarrow> snapshot \<Rightarrow> bool" where
  "due cutoff s =
    (marked s \<and> (case SnapshotCreateTime s of
                    None \<Rightarrow> False
                  | Some created \<Rightarrow> to_microseconds created < cutoff))"

text \<open>
  A rotation on 31 March 2024 with a window of 30 days: the cutoff is midnight of 1 March.
  Three instance snapshots (tagged and created at the cutoff, tagged and created one second
  before it, old but unmarked) and one cluster snapshot marked by its name only.
\<close>

definition march_31 :: datetime where
  "march_31 = \<lparr> dt_year = 2024, dt_month = 3, dt_day = 31, dt_hour = 0, dt_minute = 0,
     dt_second = 0, dt_microsecond = 0 \<rparr>"

definition at_cutoff :: snapshot where
  "at_cutoff =
    \<lparr> DBSnapshotIdentifier = Some ''orders-backup-2024-03-01-00-00-00'',
      DBClusterSnapshotIdentifier = None,
      TagList = Some [(''BackupType'', ''Automated'')],
      Tags = None,
      SnapshotCreateTime = Some \<lparr> dt_year = 2024, dt_month = 3, dt_day = 1, dt_hour = 0,
        dt_minute = 0, dt_second = 0, dt_microsecond = 0 \<rparr> \<rparr>"

definition second_older :: snapshot where
  "second_older =
    \<lparr> DBSnapshotIdentifier = Some ''orders-backup-2024-02-29-23-59-59'',
      DBClusterSnapshotIdentifier = None,
      TagList = Some [(''BackupType'', ''Automated'')],
      Tags = None,
      SnapshotCreateTime = Some \<lparr> dt_year = 2024, dt_month = 2, dt_day = 29, dt_hour = 23,
        dt_minute = 59, dt_second = 59, dt_microsecond = 0 \<rparr> \<rparr>"

definition by_hand :: snapshot where
  "by_hand =
    \<lparr> DBSnapshotIdentifier = Some ''orders-before-migration'',
      DBClusterSnapshotIdentifier = None,
      TagList = Some [(''Owner'', ''dba'')],
      Tags = None,
      SnapshotCreateTime = Some \<lparr> dt_year = 2023, dt_month = 6, dt_day = 1, dt_hour = 12,
        dt_minute = 0, dt_second = 0, dt_microsecond = 0 \<rparr> \<rparr>"

definition old_cluster :: snapshot where
  "old_cluster =
    \<lparr> DBSnapshotIdentifier = None,
      DBClusterSnapshotIdentifier = Some ''ledger-backup-2024-01-15-02-00-00'',
      TagList = Some [],
      Tags = None,
      SnapshotCreateTime = Some \<lparr> dt_year = 2024, dt_month = 1, dt_day = 15, dt_hour = 2,
        dt_minute = 0, dt_second = 1, dt_microsecond = 0 \<rparr> \<rparr>"

definition rotation_env :: backup_env where
  "rotation_env =
    \<lparr> bk_RETENTION_DAYS = 30,
      bk_create_db_snapshot = (\<lambda>rq. Inr ''arn:aws:rds:snapshot''),
      bk_create_db_cluster_snapshot = (\<lambda>rq. Inr ''arn:aws:rds:cluster-snapshot''),
      bk_describe_db_snapshots = Inr [at_cutoff, second_older, by_hand],
      bk_describe_db_cluster_snapshots = Inr [old_cluster],
      bk_delete_db_snapshot = (\<lambda>i. None),
      bk_delete_db_cluster_snapshot = (\<lambda>i. None) \<rparr>"

text \<open>
  The same rotation a moment after a backup of \<open>orders\<close> was requested: the listing of
  instance snapshots starts with the snapshot that is being created, which carries the tags
  of the request and has no creation time yet.
\<close>

definition in_creation :: snapshot where
  "in_creation =
    \<lparr> DBSnapshotIdentifier = Some ''orders-backup-2024-03-31-00-00-00'',
      DBClusterSnapshotIdentifier = None,
      TagList = Some [(''BackupType'', ''Automated''), (''BackupDate'', ''2024-03-31-00-00-00''),
        (''SourceInstance'', ''orders''), (''RetentionDate'', ''2024-04-30'')],
      Tags = None,
      SnapshotCreateTime = None \<rparr>"

definition busy_env :: backup_env where
  "busy_env = rotation_env\<lparr> bk_describe_db_snapshots :=
    Inr [in_creation, at_cutoff, second_older, by_hand] \<rparr>"

text \<open>The delete calls the rule asks for, in the order of the listing.\<close>

definition expected_deletions :: "snapshot_kind \<Rightarrow> int \<Rightarrow> snapshot list \<Rightarrow> delete_call list" where
  "expected_deletions kind cutoff snapshots =
    List.map_filter
      (\<lambda>s. if due cutoff s
           then map_option (delete_call_of kind)
                  (case kind of
                     Instance_snapshot \<Rightarrow> DBSnapshotIdentifier s
                   | Cluster_snapshot \<Rightarrow> DBClusterSnapshotIdentifier s)
           else None)
      snapshots"

text \<open>Every marked snapshot of a listing has its creation time and its identifier.\<close>

definition listing_complete :: "snapshot_kind \<Rightarrow> snapshot list \<Rightarrow> bool" where
  "listing_complete kind snapshots =
    list_all
      (\<lambda>s. marked s \<longrightarrow>
         SnapshotCreateTime s \<noteq> None
         \<and> (case kind of
              Instance_snapshot \<Rightarrow> DBSnapshotIdentifier s
            | Cluster_snapshot \<Rightarrow> DBClusterSnapshotIdentifier s) \<noteq> None)
      snapshots"


subsection \<open>Backup operations\<close>

text \<open>Either of the two functions that create a snapshot.\<close>

definition backup_operation :: "snapshot_kind \<Rightarrow> backup_env \<Rightarrow> string \<Rightarrow> datetime \<Rightarrow> datetime
    \<Rightarrow> snapshot_request option \<times> (exn + (string \<times> string) list)" where
  "backup_operation kind =
    (case kind of Instance_snapshot \<Rightarrow> backup_rds_instance | Cluster_snapshot \<Rightarrow> backup_rds_cluster)"


section \<open>The savings estimate\<close>

lemma dict_get_price: "dict_get cost_map t 0 = price t"
proof (cases "map_of cost_map t")
  case None
  then have "t \<notin> fst ` set cost_map"
    by (simp add: map_of_eq_None_iff)
  with None show ?thesis
    by (simp add: dict_get_def price_def)
next
  case (Some v)
  then have "t \<in> fst ` set cost_map"
    by (metis map_of_eq_None_iff option.distinct(1))
  with Some show ?thesis
    by (simp add: dict_get_def price_def)
qed

text \<open>
  C7. For every pair of instance types \<open>estimate_instance_cost_savings\<close> returns
  \<open>max(0, current_price - suggested_price)\<close> read off the static price table, the result is
  never negative, and for \<open>t3.large\<close> downsized to \<open>t3.medium\<close> it is \<open>67 - 34 = 33\<close>.
\<close>

theorem estimate_instance_cost_savings_spec:
  "estimate_instance_cost_savings c s = max 0 (price c - price s)
   \<and> 0 \<le> estimate_instance_cost_savings c s
   \<and> price ''t3.large'' = 67 \<and> price ''t3.medium'' = 34
   \<and> estimate_instance_cost_savings ''t3.large'' ''t3.medium'' = 33"
proof -
  have gen: "estimate_instance_cost_savings a b = max 0 (price a - price b)" for a b
    by (simp add: estimate_instance_cost_savings_def dict_get_price)
  have p1: "price ''t3.large'' = 67" and p2: "price ''t3.medium'' = 34"
    by (simp_all add: price_def cost_map_def)
  show ?thesis
    using gen [of c s] gen [of "''t3.large''" "''t3.medium''"] p1 p2 by simp
qed

section \<open>Classification by the notification relay\<close>

lemma py_in_sublist: "py_in sub s = sublist sub s"
  by (induction s) (simp_all add: sublist_Cons_right)

lemma relay_records_posted:
  "relay_records env url rs posted = (res, out) \<Longrightarrow>
   \<exists>n ms. map Some ms = map rec_Sns (take n rs) \<and> out = posted @ map build_slack_message ms"
proof (induction rs arbitrary: posted)
  case Nil
  then show ?case by simp
next
  case (Cons r rs)
  have stop: "out = posted \<Longrightarrow> ?case"
    by (intro exI [of _ 0] exI [of _ "[]"]) simp
  show ?case
  proof (cases "rec_Sns r")
    case None
    with Cons.prems have "out = posted" by simp
    then show ?thesis by (rule stop)
  next
    case (Some m)
    show ?thesis
    proof (cases "http_request env url (build_slack_message m)")
      case (Inl e)
      with Some Cons.prems have "out = posted" by (simp add: Let_def)
      then show ?thesis by (rule stop)
    next
      case (Inr status)
      show ?thesis
      proof (cases "status = 200")
        case True
        with Some Inr Cons.prems
        have "relay_records env url rs (posted @ [build_slack_message m]) = (res, out)"
          by (simp add: Let_def)
        from Cons.IH [OF this] obtain n ms where
          n: "map Some ms = map rec_Sns (take n rs)"
            "out = (posted @ [build_slack_message m]) @ map build_slack_message ms"
          by blast
        with Some show ?thesis
          by (intro exI [of _ "Suc n"] exI [of _ "m # ms"]) simp
      next
        case False
        with Some Inr Cons.prems have "out = posted @ [build_slack_message m]"
          by (simp add: Let_def)
        with Some show ?thesis
          by (intro exI [of _ "Suc 0"] exI [of _ "[m]"]) simp
      qed
    qed
  qed
qed

lemma relay_handler_posted:
  "\<exists>n ms. map Some ms = map rec_Sns (take n (get_default event [])) \<and>
          snd (relay_handler env event) = map build_slack_message ms"
proof -
  have none: "snd (relay_handler env event) = [] \<Longrightarrow> ?thesis"
    by (intro exI [of _ 0] exI [of _ "[]"]) simp
  show ?thesis
  proof (cases "\<exists>url records. SLACK_WEBHOOK_URL env = Some url \<and> url \<noteq> [] \<and> event = Some records")
    case False
    then have "snd (relay_handler env event) = []"
      by (auto simp: relay_handler_def split: option.splits)
    then show ?thesis by (rule none)
  next
    case True
    then obtain url records where
      u: "SLACK_WEBHOOK_URL env = Some url" "url \<noteq> []" "event = Some records"
      by blast
    obtain res out where r: "relay_records env url records [] = (res, out)"
      by (cases "relay_records env url records []") blast
    from relay_records_posted [OF r] obtain n ms where
      "map Some ms = map rec_Sns (take n records)" "out = map build_slack_message ms"
      by auto
    moreover have "snd (relay_handler env event) = out"
      using u r by (cases res) (simp_all add: relay_handler_def)
    ultimately show ?thesis
      using u by (intro exI [of _ n] exI [of _ ms]) (simp add: get_default_def)
  qed
qed

text \<open>
  C8. For every envelope the relay classifies a topic identifier that contains the literal
  substring \<open>app-notifications\<close> as \<open>Application\<close> with the green colour \<open>#36a64f\<close>, and every
  other topic identifier (an absent one reads as the empty string) as \<open>Infrastructure\<close> with
  the orange colour \<open>#ff9900\<close>; the payloads the handler posts are those built this way from
  a leading segment of the incoming envelopes, in order.
\<close>

theorem relay_topic_classification:
  "(sl_type (build_slack_message m), sl_color (build_slack_message m)) =
     (if sublist ''app-notifications'' (get_default (sns_TopicArn m) [])
      then (''Application'', ''#36a64f'')
      else (''Infrastructure'', ''#ff9900''))
   \<and> (\<exists>n ms. map Some ms = map rec_Sns (take n (get_default event [])) \<and>
          snd (relay_handler env event) = map build_slack_message ms)"
proof -
  have "(sl_type (build_slack_message m), sl_color (build_slack_message m)) =
     (if sublist ''app-notifications'' (get_default (sns_TopicArn m) [])
      then (''Application'', ''#36a64f'')
      else (''Infrastructure'', ''#ff9900''))"
    unfolding py_in_sublist [symmetric]
    by (simp add: build_slack_message_def Let_def)
  then show ?thesis
    using relay_handler_posted [of event env] by blast
qed

section \<open>Float arithmetic\<close>

subsection \<open>Rounding is monotone\<close>

lemma rhe_close:
  "of_int (round_half_even m) - 1 / 2 \<le> m" "m \<le> of_int (round_half_even m) + 1 / 2"
proof -
  have f: "of_int \<lfloor>m\<rfloor> \<le> m" "m < of_int \<lfloor>m\<rfloor> + 1"
    by linarith+
  show "of_int (round_half_even m) - 1 / 2 \<le> m"
    using f unfolding round_half_even_def Let_def
    by (simp split: if_splits; linarith)
  show "m \<le> of_int (round_half_even m) + 1 / 2"
    using f unfolding round_half_even_def Let_def
    by (simp split: if_splits; linarith)
qed

lemma rhe_mono:
  assumes "m \<le> m'"
  shows "round_half_even m \<le> round_half_even m'"
proof (rule ccontr)
  assume neg: "\<not> ?thesis"
  then have "round_half_even m' + 1 \<le> round_half_even m" by simp
  then have "(of_int (round_half_even m') :: rat) + 1 \<le> of_int (round_half_even m)"
    by (metis of_int_1 of_int_add of_int_le_iff)
  with rhe_close(1) [of m] rhe_close(2) [of m'] have "m' \<le> m" by linarith
  with assms have "m = m'" by simp
  with neg show False by simp
qed

lemma rhe_of_int [simp]: "round_half_even (of_int n) = n"
  by (simp add: round_half_even_def)

lemma bitlen_pos: "0 < n \<Longrightarrow> 1 \<le> bitlen n"
  by (metis bitlen_eq_zero_iff bitlen_nonneg int_one_le_iff_zero_less leD order_le_less)

lemma bitlen_bounds_rat:
  assumes "0 < n"
  shows "(2::rat) ^ nat (bitlen n - 1) \<le> of_int n" and "(of_int n :: rat) + 1 \<le> 2 ^ nat (bitlen n)"
proof -
  from bitlen_bounds [OF assms]
  have a: "2 ^ nat (bitlen n - 1) \<le> n" and b: "n + 1 \<le> 2 ^ nat (bitlen n)"
    by simp_all
  from a have "(of_int (2 ^ nat (bitlen n - 1)) :: rat) \<le> of_int n"
    by (simp only: of_int_le_iff)
  then show "(2::rat) ^ nat (bitlen n - 1) \<le> of_int n" by simp
  from b have "(of_int (n + 1) :: rat) \<le> of_int (2 ^ nat (bitlen n))"
    by (simp only: of_int_le_iff)
  then show "(of_int n :: rat) + 1 \<le> 2 ^ nat (bitlen n)" by simp
qed

lemma binade_ge_one:
  assumes "1 \<le> x"
  shows "2 powi binade x \<le> x" and "x < 2 powi (binade x + 1)"
proof -
  from assms have n: "0 < \<lfloor>x\<rfloor>" by simp
  have b: "binade x = bitlen \<lfloor>x\<rfloor> - 1"
    using assms by (simp add: binade_def)
  have k: "0 \<le> bitlen \<lfloor>x\<rfloor> - 1"
    using bitlen_pos [OF n] by simp
  have "2 powi binade x = (2::rat) ^ nat (bitlen \<lfloor>x\<rfloor> - 1)"
    using k by (simp add: b power_int_def)
  also have "\<dots> \<le> of_int \<lfloor>x\<rfloor>" by (rule bitlen_bounds_rat(1) [OF n])
  also have "\<dots> \<le> x" by simp
  finally show "2 powi binade x \<le> x" .
  have "x < of_int \<lfloor>x\<rfloor> + 1" by linarith
  also have "\<dots> \<le> 2 ^ nat (bitlen \<lfloor>x\<rfloor>)" by (rule bitlen_bounds_rat(2) [OF n])
  also have "\<dots> = 2 powi (binade x + 1)"
    using k by (simp add: b power_int_def)
  finally show "x < 2 powi (binade x + 1)" .
qed

lemma binade_lt_one:
  assumes "0 < x" "x < 1"
  shows "2 powi binade x \<le> x" and "x < 2 powi (binade x + 1)"
proof -
  define c where "c = \<lceil>1 / x\<rceil>"
  define k where "k = bitlen (c - 1)"
  have y: "1 < 1 / x" using assms by simp
  then have c2: "2 \<le> c" unfolding c_def by linarith
  then have n: "0 < c - 1" by simp
  have k1: "1 \<le> k" unfolding k_def by (rule bitlen_pos [OF n])
  have b: "binade x = - k"
    using assms by (simp add: binade_def c_def k_def)
  have p: "(0::rat) < 2 ^ nat k" "(0::rat) < 2 ^ nat (k - 1)" by simp_all
  have "1 / x \<le> of_int c" unfolding c_def by linarith
  also have "\<dots> = of_int (c - 1) + 1" by simp
  also have "\<dots> \<le> 2 ^ nat k"
    unfolding k_def by (rule bitlen_bounds_rat(2) [OF n])
  finally have "1 / x \<le> 2 ^ nat k" .
  then have "1 \<le> 2 ^ nat k * x"
    using assms(1) by (simp add: field_simps)
  then have "1 / 2 ^ nat k \<le> x"
    using p(1) by (simp add: field_simps)
  moreover have "2 powi binade x = 1 / (2::rat) ^ nat k"
    using k1 by (simp add: b power_int_def field_simps)
  ultimately show "2 powi binade x \<le> x" by simp
  have "(2::rat) ^ nat (k - 1) \<le> of_int (c - 1)"
    unfolding k_def by (rule bitlen_bounds_rat(1) [OF n])
  also have "\<dots> < 1 / x" unfolding c_def by linarith
  finally have "2 ^ nat (k - 1) < 1 / x" .
  then have "2 ^ nat (k - 1) * x < 1"
    using assms(1) by (simp add: field_simps)
  then have "x < 1 / 2 ^ nat (k - 1)"
    using p(2) by (simp add: field_simps)
  moreover have "2 powi (binade x + 1) = 1 / (2::rat) ^ nat (k - 1)"
  proof (cases "k = 1")
    case True
    then show ?thesis by (simp add: b)
  next
    case False
    with k1 have "- k + 1 < 0" "nat (k - 1) = nat (- (- k + 1))" by simp_all
    then show ?thesis
      by (simp add: b power_int_def field_simps)
  qed
  ultimately show "x < 2 powi (binade x + 1)" by simp
qed

lemma binade_bounds:
  assumes "0 < x"
  shows "2 powi binade x \<le> x" and "x < 2 powi (binade x + 1)"
  using assms binade_ge_one [of x] binade_lt_one [of x] by (cases "1 \<le> x"; simp)+

lemma binade_mono:
  assumes "0 < x" "x \<le> y"
  shows "binade x \<le> binade y"
proof (rule ccontr)
  assume "\<not> ?thesis"
  then have "binade y + 1 \<le> binade x" by simp
  then have "(2::rat) powi (binade y + 1) \<le> 2 powi binade x"
    by (intro power_int_increasing) simp_all
  also have "\<dots> \<le> x" by (rule binade_bounds(1) [OF assms(1)])
  also have "\<dots> \<le> y" by (rule assms(2))
  also have "\<dots> < 2 powi (binade y + 1)"
    using assms by (intro binade_bounds(2)) simp
  finally show False by simp
qed

lemma pow2_split: "(2::rat) powi (int n + k) = 2 ^ n * 2 powi k"
  by (simp add: power_int_add)

lemma rhe_ge: "of_int n \<le> m \<Longrightarrow> n \<le> round_half_even m"
  using rhe_mono [of "of_int n" m] by simp

lemma rhe_le: "m \<le> of_int n \<Longrightarrow> round_half_even m \<le> n"
  using rhe_mono [of m "of_int n"] by simp

lemma rhe_zero [simp]: "round_half_even 0 = 0"
  using rhe_of_int [of 0] by simp

lemma quantum_pos: "0 < quantum x"
  by (simp add: quantum_def)

lemma rnd_upper:
  assumes "0 < x"
  shows "rnd x \<le> 2 powi (level x + 1)"
proof -
  have "x < 2 powi (binade x + 1)" by (rule binade_bounds(2) [OF assms])
  also have "\<dots> \<le> 2 powi (level x + 1)"
    using assms by (intro power_int_increasing) (simp_all add: level_def)
  finally have "x \<le> 2 powi (level x + 1)" by simp
  moreover have e: "(2::rat) powi (level x + 1) = 2 ^ 53 * quantum x"
    using pow2_split [of 53 "level x - 52"] by (simp add: quantum_def add.commute)
  ultimately have "x / quantum x \<le> 2 ^ 53"
    using quantum_pos [of x] by (simp add: field_simps)
  with rhe_le [of "x / quantum x" "2 ^ 53"]
  have "round_half_even (x / quantum x) \<le> 2 ^ 53" by simp
  then have "(of_int (round_half_even (x / quantum x)) :: rat) \<le> of_int (2 ^ 53)"
    by (simp only: of_int_le_iff)
  then have "of_int (round_half_even (x / quantum x)) * quantum x \<le> 2 ^ 53 * quantum x"
    using quantum_pos [of x] by simp
  with assms show ?thesis
    by (simp add: rnd_def e)
qed

lemma rnd_lower:
  assumes "0 < x" "- 1022 \<le> binade x"
  shows "2 powi level x \<le> rnd x"
proof -
  have l: "level x = binade x" using assms by (simp add: level_def)
  have "2 powi level x \<le> x" unfolding l by (rule binade_bounds(1) [OF assms(1)])
  moreover have e: "(2::rat) powi level x = 2 ^ 52 * quantum x"
    using pow2_split [of 52 "level x - 52"] by (simp add: quantum_def)
  ultimately have "2 ^ 52 \<le> x / quantum x"
    using quantum_pos [of x] by (simp add: field_simps)
  with rhe_ge [of "2 ^ 52" "x / quantum x"]
  have "2 ^ 52 \<le> round_half_even (x / quantum x)" by simp
  then have "(of_int (2 ^ 52) :: rat) \<le> of_int (round_half_even (x / quantum x))"
    by (simp only: of_int_le_iff)
  then have "2 ^ 52 * quantum x \<le> of_int (round_half_even (x / quantum x)) * quantum x"
    using quantum_pos [of x] by simp
  with assms show ?thesis
    by (simp add: rnd_def e)
qed

lemma rnd_nonneg:
  assumes "0 \<le> x"
  shows "0 \<le> rnd x"
proof (cases "x = 0")
  case True
  then show ?thesis by (simp add: rnd_def)
next
  case False
  with assms have "of_int 0 \<le> x / quantum x"
    using quantum_pos [of x] by simp
  from rhe_mono [OF this] have "0 \<le> round_half_even (x / quantum x)" by simp
  then show ?thesis
    using quantum_pos [of x] by (simp add: rnd_def)
qed

lemma rnd_mono:
  assumes "0 \<le> x" "x \<le> y"
  shows "rnd x \<le> rnd y"
proof (cases "x = 0")
  case True
  with assms rnd_nonneg [of y] show ?thesis by (simp add: rnd_def)
next
  case False
  with assms have x: "0 < x" and y: "0 < y" by simp_all
  have le: "level x \<le> level y"
    using binade_mono [OF x assms(2)] x y by (simp add: level_def)
  show ?thesis
  proof (cases "level x = level y")
    case True
    then have q: "quantum x = quantum y" by (simp add: quantum_def)
    have "x / quantum y \<le> y / quantum y"
      using assms(2) quantum_pos [of y] by (simp add: divide_right_mono)
    from rhe_mono [OF this]
    have "(of_int (round_half_even (x / quantum y)) :: rat) \<le> of_int (round_half_even (y / quantum y))"
      by (simp only: of_int_le_iff)
    then show ?thesis
      using x y quantum_pos [of y] by (simp add: rnd_def q)
  next
    case False
    with le have lt: "level x + 1 \<le> level y" by simp
    then have "- 1022 \<le> binade y"
      using y by (simp add: level_def max_def split: if_splits)
    from rnd_lower [OF y this] have "2 powi level y \<le> rnd y" .
    moreover have "(2::rat) powi (level x + 1) \<le> 2 powi level y"
      using lt by (intro power_int_increasing) simp_all
    ultimately show ?thesis
      using rnd_upper [OF x] by linarith
  qed
qed

section \<open>The compliance score\<close>

subsection \<open>Scores of single categories\<close>

lemma rnd_one: "rnd 1 = 1" by code_simp
lemma rnd_hundred: "rnd 100 = 100" by code_simp

lemma ratio_bounds:
  assumes "c \<le> t" "0 < (t::nat)"
  shows "0 \<le> rnd (of_nat c / of_nat t)" "rnd (of_nat c / of_nat t) \<le> 1"
proof -
  have q: "0 \<le> (of_nat c / of_nat t :: rat)" "(of_nat c / of_nat t :: rat) \<le> 1"
    using assms by simp_all
  show "0 \<le> rnd (of_nat c / of_nat t)" by (rule rnd_nonneg [OF q(1)])
  show "rnd (of_nat c / of_nat t) \<le> 1"
    using rnd_mono [OF q] by (simp add: rnd_one)
qed

lemma py_truediv_counts:
  assumes "c \<le> t" "0 < (t::nat)"
  shows "py_truediv (PInt (int c)) (PInt (int t)) = Inr (rnd (of_nat c / of_nat t))"
proof -
  have "(1::rat) < overflow_threshold"
    unfolding overflow_threshold_def by (rule one_less_power) simp_all
  with ratio_bounds [OF assms]
  have small: "\<not> overflow_threshold \<le> \<bar>rnd (of_nat c / of_nat t)\<bar>"
    by linarith
  show ?thesis
    unfolding py_truediv_def Let_def
    apply (simp only: prod.case pyval.case)
    using small assms(2) apply (simp only: of_int_of_nat_eq if_False int_eq_iff_numeral)
    apply simp
    done
qed

lemma category_score_bounds:
  assumes "c \<le> t" "0 < (t::nat)"
  shows "0 \<le> category_score c t" "category_score c t \<le> 100"
proof -
  have a: "0 \<le> rnd (of_nat c / of_nat t) * 100" "rnd (of_nat c / of_nat t) * 100 \<le> 100"
    using ratio_bounds [OF assms] by simp_all
  show "0 \<le> category_score c t"
    unfolding category_score_def fmul_def by (rule rnd_nonneg [OF a(1)])
  show "category_score c t \<le> 100"
    unfolding category_score_def fmul_def using rnd_mono [OF a] by (simp add: rnd_hundred)
qed


subsection \<open>Reading the counts back from a check dictionary\<close>

lemma counts_of_tagging:
  "total_of (check_dict ''total_resources'' ''compliant_resources'' t c vs) = PInt (int t)"
  "compliant_of (check_dict ''total_resources'' ''compliant_resources'' t c vs) = PInt (int c)"
  by (simp_all add: total_of_def compliant_of_def check_dict_def dict_get_def py_or_def py_truthy_def)

lemma counts_of_groups:
  "total_of (check_dict ''total_security_groups'' ''compliant_security_groups'' t c vs) = PInt (int t)"
  "compliant_of (check_dict ''total_security_groups'' ''compliant_security_groups'' t c vs) = PInt (int c)"
  by (simp_all add: total_of_def compliant_of_def check_dict_def dict_get_def py_or_def py_truthy_def)

lemma counts_of_buckets:
  "total_of (check_dict ''total_buckets'' ''compliant_buckets'' t c vs) = PInt (int t)"
  "compliant_of (check_dict ''total_buckets'' ''compliant_buckets'' t c vs) = PInt (int c)"
  by (simp_all add: total_of_def compliant_of_def check_dict_def dict_get_def py_or_def py_truthy_def)

lemma counts_of_encryption:
  "total_of (check_dict ''total_resources'' ''encrypted_resources'' t c vs) = PInt (int t)"
  "compliant_of (check_dict ''total_resources'' ''encrypted_resources'' t c vs) = PInt (int c)"
  by (simp_all add: total_of_def compliant_of_def check_dict_def dict_get_def py_or_def py_truthy_def)

lemma counts_of_public_access:
  "total_of (check_dict ''total_resources'' ''private_resources'' t c vs) = PInt (int t)"
  "compliant_of (check_dict ''total_resources'' ''private_resources'' t c vs) = PInt (int c)"
  by (simp_all add: total_of_def compliant_of_def check_dict_def dict_get_def py_or_def py_truthy_def)

lemmas counts_of_check = counts_of_tagging counts_of_groups counts_of_buckets
  counts_of_encryption counts_of_public_access


subsection \<open>The scoring loop as a fold over the evaluated categories\<close>

lemma score_checks_fold:
  assumes "list_all2 (\<lambda>(name, w) (t, c, w').
      w' = w \<and> c \<le> t \<and> total_of (dict_get checks name []) = PInt (int t)
      \<and> compliant_of (dict_get checks name []) = PInt (int c)) nws cats"
  shows "score_checks nws checks (ts, tw) =
    Inr (foldl fadd ts (map contribution (filter evaluated cats)),
         foldl fadd tw (map weight_of (filter evaluated cats)))"
  using assms
proof (induction nws cats arbitrary: ts tw rule: list_all2_induct)
  case Nil
  then show ?case by simp
next
  case (Cons nw nws cat cats)
  obtain name w where nw: "nw = (name, w)" by (cases nw)
  obtain t c w' where cat: "cat = (t, c, w')" by (cases cat)
  from Cons.hyps(1) have h: "w' = w" "c \<le> t"
      "total_of (dict_get checks name []) = PInt (int t)"
      "compliant_of (dict_get checks name []) = PInt (int c)"
    by (simp_all add: nw cat)
  show ?case
  proof (cases "0 < t")
    case True
    with h show ?thesis
      by (simp add: nw cat Let_def bind_exn_def py_gt0_def py_truediv_counts Cons.IH
          evaluated_def contribution_def weight_of_def category_score_def)
  next
    case False
    with h show ?thesis
      by (simp add: nw cat Let_def bind_exn_def py_gt0_def Cons.IH evaluated_def)
  qed
qed

lemma score_config_fold:
  assumes "c \<le> t"
  shows "score_config (config_status_dict (int t) (int c) n d) =
    Inr (foldl fadd 0 (map contribution (filter evaluated [(t, c, w40)])),
         foldl fadd 0 (map weight_of (filter evaluated [(t, c, w40)])))"
proof (cases "0 < t")
  case True
  have "dict_get (config_status_dict (int t) (int c) n d) ''total_rules'' (PInt 0) = PInt (int t)"
    "dict_item (config_status_dict (int t) (int c) n d) ''total_rules'' = Inr (PInt (int t))"
    "dict_item (config_status_dict (int t) (int c) n d) ''compliant_rules'' = Inr (PInt (int c))"
    by (simp_all add: config_status_dict_def dict_get_def dict_item_def)
  with True assms show ?thesis
    by (simp add: score_config_def Let_def bind_exn_def py_gt0_def py_truediv_counts
        evaluated_def contribution_def weight_of_def category_score_def)
next
  case False
  have "dict_get (config_status_dict (int t) (int c) n d) ''total_rules'' (PInt 0) = PInt (int t)"
    by (simp add: config_status_dict_def dict_get_def)
  with False show ?thesis
    by (simp add: score_config_def bind_exn_def py_gt0_def evaluated_def)
qed

lemma custom_checks_wf:
  assumes "counts_ok (categories rules r1 r2 r3 r4 r5)"
  shows "list_all2 (\<lambda>(name, w) (t, c, w').
      w' = w \<and> c \<le> t
      \<and> total_of (dict_get (custom_checks_of r1 r2 r3 r4 r5) name []) = PInt (int t)
      \<and> compliant_of (dict_get (custom_checks_of r1 r2 r3 r4 r5) name []) = PInt (int c))
    check_weights (tl (categories rules r1 r2 r3 r4 r5))"
proof -
  have g: "dict_get (custom_checks_of r1 r2 r3 r4 r5) ''tagging_compliance'' [] =
        check_dict ''total_resources'' ''compliant_resources'' (sr_total r1) (sr_compliant r1) (sr_violations r1)"
      "dict_get (custom_checks_of r1 r2 r3 r4 r5) ''security_groups'' [] =
        check_dict ''total_security_groups'' ''compliant_security_groups'' (sr_total r2) (sr_compliant r2) (sr_violations r2)"
      "dict_get (custom_checks_of r1 r2 r3 r4 r5) ''s3_bucket_policies'' [] =
        check_dict ''total_buckets'' ''compliant_buckets'' (sr_total r3) (sr_compliant r3) (sr_violations r3)"
      "dict_get (custom_checks_of r1 r2 r3 r4 r5) ''encryption_status'' [] =
        check_dict ''total_resources'' ''encrypted_resources'' (sr_total r4) (sr_compliant r4) (sr_violations r4)"
      "dict_get (custom_checks_of r1 r2 r3 r4 r5) ''public_access'' [] =
        check_dict ''total_resources'' ''private_resources'' (sr_total r5) (sr_compliant r5) (sr_violations r5)"
    by (simp_all add: custom_checks_of_def dict_get_def run_check_def)
  from assms show ?thesis
    by (simp add: check_weights_def categories_def counts_ok_def g counts_of_check)
qed

lemma score_body_fold:
  assumes "counts_ok (categories (t, c) r1 r2 r3 r4 r5)"
  shows "bind_exn (score_config (config_status_dict (int t) (int c) n d))
           (score_checks check_weights (custom_checks_of r1 r2 r3 r4 r5)) =
    Inr (fsum (map contribution (filter evaluated (categories (t, c) r1 r2 r3 r4 r5))),
         fsum (map weight_of (filter evaluated (categories (t, c) r1 r2 r3 r4 r5))))"
proof -
  let ?cats = "categories (t, c) r1 r2 r3 r4 r5"
  have c: "c \<le> t" using assms by (simp add: counts_ok_def categories_def)
  have split: "?cats = (t, c, w40) # tl ?cats" by (simp add: categories_def)
  have "bind_exn (score_config (config_status_dict (int t) (int c) n d))
           (score_checks check_weights (custom_checks_of r1 r2 r3 r4 r5)) =
      Inr (foldl fadd (foldl fadd 0 (map contribution (filter evaluated [(t, c, w40)])))
             (map contribution (filter evaluated (tl ?cats))),
           foldl fadd (foldl fadd 0 (map weight_of (filter evaluated [(t, c, w40)])))
             (map weight_of (filter evaluated (tl ?cats))))"
    by (simp only: score_config_fold [OF c] bind_exn_def sum.case
        score_checks_fold [OF custom_checks_wf [OF assms]])
  also have "\<dots> = Inr (fsum (map contribution (filter evaluated ((t, c, w40) # tl ?cats))),
         fsum (map weight_of (filter evaluated ((t, c, w40) # tl ?cats))))"
    by (simp add: fsum_def)
  finally show ?thesis using split by simp
qed

subsection \<open>Certificates for single roundings\<close>

lemma binade_unique:
  assumes "0 < x" "2 powi e \<le> x" "x < 2 powi (e + 1)"
  shows "binade x = e"
proof (rule antisym)
  show "binade x \<le> e"
  proof (rule ccontr)
    assume "\<not> binade x \<le> e"
    then have "e + 1 \<le> binade x" by simp
    then have "(2::rat) powi (e + 1) \<le> 2 powi binade x"
      by (intro power_int_increasing) simp_all
    also have "\<dots> \<le> x" by (rule binade_bounds(1) [OF assms(1)])
    finally show False using assms(3) by simp
  qed
  show "e \<le> binade x"
  proof (rule ccontr)
    assume "\<not> e \<le> binade x"
    then have "binade x + 1 \<le> e" by simp
    then have "(2::rat) powi (binade x + 1) \<le> 2 powi e"
      by (intro power_int_increasing) simp_all
    also have "\<dots> \<le> x" by (rule assms(2))
    finally show False using binade_bounds(2) [OF assms(1)] by simp
  qed
qed

lemma rhe_cert:
  assumes "\<bar>m - of_int n\<bar> < 1 / 2 \<or> (\<bar>m - of_int n\<bar> = 1 / 2 \<and> even n)"
  shows "round_half_even m = n"
  using assms
proof
  assume a: "\<bar>m - of_int n\<bar> < 1 / 2"
  have "\<bar>(of_int (round_half_even m) :: rat) - of_int n\<bar> < 1"
    using a rhe_close [of m] by linarith
  then have "\<bar>(of_int (round_half_even m - n) :: rat)\<bar> < of_int 1"
    by simp
  then have "\<bar>round_half_even m - n\<bar> < 1"
    by (simp only: of_int_abs [symmetric] of_int_less_iff)
  then show ?thesis by simp
next
  assume a: "\<bar>m - of_int n\<bar> = 1 / 2 \<and> even n"
  then consider "m = of_int n + 1 / 2" | "m = of_int (n - 1) + 1 / 2"
    by (auto simp: abs_if split: if_splits)
  then show ?thesis
  proof cases
    case 1
    then have "\<lfloor>m\<rfloor> = n" by linarith
    with 1 a show ?thesis by (simp add: round_half_even_def)
  next
    case 2
    then have "\<lfloor>m\<rfloor> = n - 1" by linarith
    with 2 a show ?thesis by (simp add: round_half_even_def)
  qed
qed

lemma rnd_cert:
  assumes "0 < x" "- 1022 \<le> e" "2 powi e \<le> x" "x < 2 powi (e + 1)"
    and "\<bar>x / 2 powi (e - 52) - of_int n\<bar> < 1 / 2
       \<or> (\<bar>x / 2 powi (e - 52) - of_int n\<bar> = 1 / 2 \<and> even n)"
    and "r = of_int n * 2 powi (e - 52)"
  shows "rnd x = r"
proof -
  have "binade x = e" by (rule binade_unique [OF assms(1,3,4)])
  with assms(1,2) have q: "quantum x = 2 powi (e - 52)"
    by (simp add: quantum_def level_def)
  show ?thesis
    using assms(1) by (simp add: rnd_def q rhe_cert [OF assms(5)] assms(6))
qed

lemma fadd_cert:
  assumes "a = va" "b = vb"
    and "0 < va + vb" "- 1022 \<le> e" "2 powi e \<le> va + vb" "va + vb < 2 powi (e + 1)"
    and "\<bar>(va + vb) / 2 powi (e - 52) - of_int n\<bar> < 1 / 2
       \<or> (\<bar>(va + vb) / 2 powi (e - 52) - of_int n\<bar> = 1 / 2 \<and> even n)"
    and "r = of_int n * 2 powi (e - 52)"
  shows "fadd a b = r"
  unfolding fadd_def assms(1,2) by (rule rnd_cert [OF assms(3-8)])


subsection \<open>The weights and their running sums, evaluated\<close>

lemma w40_val: "w40 = 3602879701896397 / 9007199254740992"
  unfolding w40_def float_lit_def
  by (rule rnd_cert [where e = "-2" and n = "7205759403792794"]; simp)

lemma w15_val: "w15 = 5404319552844595 / 36028797018963968"
  unfolding w15_def float_lit_def
  by (rule rnd_cert [where e = "-3" and n = "5404319552844595"]; simp)

lemma w10_val: "w10 = 3602879701896397 / 36028797018963968"
  unfolding w10_def float_lit_def
  by (rule rnd_cert [where e = "-4" and n = "7205759403792794"]; simp)

lemma w05_val: "w05 = 3602879701896397 / 72057594037927936"
  unfolding w05_def float_lit_def
  by (rule rnd_cert [where e = "-5" and n = "7205759403792794"]; simp)

lemma w40_full: "fmul 100 w40 = 40"
  unfolding fmul_def w40_val
  by (rule rnd_cert [where e = "5" and n = "5629499534213120"]; simp)

lemma w15_full: "fmul 100 w15 = 15"
  unfolding fmul_def w15_val
  by (rule rnd_cert [where e = "3" and n = "8444249301319680"]; simp)

lemma w10_full: "fmul 100 w10 = 10"
  unfolding fmul_def w10_val
  by (rule rnd_cert [where e = "3" and n = "5629499534213120"]; simp)

lemma w05_full: "fmul 100 w05 = 5"
  unfolding fmul_def w05_val
  by (rule rnd_cert [where e = "2" and n = "5629499534213120"]; simp)

lemma tw_a0k0b0c1: "fadd 0 w05 = 3602879701896397 / 72057594037927936"
  by (rule fadd_cert [OF refl w05_val, where e = "-5" and n = "7205759403792794"]; simp)

lemma tw_a0k0b1c0: "fadd 0 w10 = 3602879701896397 / 36028797018963968"
  by (rule fadd_cert [OF refl w10_val, where e = "-4" and n = "7205759403792794"]; simp)

lemma tw_a0k0b1c1: "fadd (3602879701896397 / 36028797018963968) w05 = 1351079888211149 / 9007199254740992"
  by (rule fadd_cert [OF refl w05_val, where e = "-3" and n = "5404319552844596"]; simp)

lemma tw_a0k1b0c0: "fadd 0 w15 = 5404319552844595 / 36028797018963968"
  by (rule fadd_cert [OF refl w15_val, where e = "-3" and n = "5404319552844595"]; simp)

lemma tw_a0k1b0c1: "fadd (5404319552844595 / 36028797018963968) w05 = 3602879701896397 / 18014398509481984"
  by (rule fadd_cert [OF refl w05_val, where e = "-3" and n = "7205759403792794"]; simp)

lemma tw_a0k1b1c0: "fadd (5404319552844595 / 36028797018963968) w10 = 1 / 4"
  by (rule fadd_cert [OF refl w10_val, where e = "-2" and n = "4503599627370496"]; simp)

lemma tw_a0k1b1c1: "fadd (1 / 4) w05 = 5404319552844595 / 18014398509481984"
  by (rule fadd_cert [OF refl w05_val, where e = "-2" and n = "5404319552844595"]; simp)

lemma tw_a0k2b0c0: "fadd (5404319552844595 / 36028797018963968) w15 = 5404319552844595 / 18014398509481984"
  by (rule fadd_cert [OF refl w15_val, where e = "-2" and n = "5404319552844595"]; simp)

lemma tw_a0k2b0c1: "fadd (5404319552844595 / 18014398509481984) w05 = 3152519739159347 / 9007199254740992"
  by (rule fadd_cert [OF refl w05_val, where e = "-2" and n = "6305039478318694"]; simp)

lemma tw_a0k2b1c0: "fadd (5404319552844595 / 18014398509481984) w10 = 3602879701896397 / 9007199254740992"
  by (rule fadd_cert [OF refl w10_val, where e = "-2" and n = "7205759403792794"]; simp)

lemma tw_a0k2b1c1: "fadd (3602879701896397 / 9007199254740992) w05 = 8106479329266893 / 18014398509481984"
  by (rule fadd_cert [OF refl w05_val, where e = "-2" and n = "8106479329266893"]; simp)

lemma tw_a0k3b0c0: "fadd (5404319552844595 / 18014398509481984) w15 = 2026619832316723 / 4503599627370496"
  by (rule fadd_cert [OF refl w15_val, where e = "-2" and n = "8106479329266892"]; simp)

lemma tw_a0k3b0c1: "fadd (2026619832316723 / 4503599627370496) w05 = 9007199254740991 / 18014398509481984"
  by (rule fadd_cert [OF refl w05_val, where e = "-2" and n = "9007199254740991"]; simp)

lemma tw_a0k3b1c0: "fadd (2026619832316723 / 4503599627370496) w10 = 4953959590107545 / 9007199254740992"
  by (rule fadd_cert [OF refl w10_val, where e = "-1" and n = "4953959590107545"]; simp)

lemma tw_a0k3b1c1: "fadd (4953959590107545 / 9007199254740992) w05 = 5404319552844595 / 9007199254740992"
  by (rule fadd_cert [OF refl w05_val, where e = "-1" and n = "5404319552844595"]; simp)

lemma tw_a1k0b0c0: "fadd 0 w40 = 3602879701896397 / 9007199254740992"
  by (rule fadd_cert [OF refl w40_val, where e = "-2" and n = "7205759403792794"]; simp)

lemma tw_a1k0b1c0: "fadd (3602879701896397 / 9007199254740992) w10 = 1 / 2"
  by (rule fadd_cert [OF refl w10_val, where e = "-1" and n = "4503599627370496"]; simp)

lemma tw_a1k0b1c1: "fadd (1 / 2) w05 = 2476979795053773 / 4503599627370496"
  by (rule fadd_cert [OF refl w05_val, where e = "-1" and n = "4953959590107546"]; simp)

lemma tw_a1k1b0c0: "fadd (3602879701896397 / 9007199254740992) w15 = 2476979795053773 / 4503599627370496"
  by (rule fadd_cert [OF refl w15_val, where e = "-1" and n = "4953959590107546"]; simp)

lemma tw_a1k1b0c1: "fadd (2476979795053773 / 4503599627370496) w05 = 1351079888211149 / 2251799813685248"
  by (rule fadd_cert [OF refl w05_val, where e = "-1" and n = "5404319552844596"]; simp)

lemma tw_a1k1b1c0: "fadd (2476979795053773 / 4503599627370496) w10 = 5854679515581645 / 9007199254740992"
  by (rule fadd_cert [OF refl w10_val, where e = "-1" and n = "5854679515581645"]; simp)

lemma tw_a1k1b1c1: "fadd (5854679515581645 / 9007199254740992) w05 = 6305039478318695 / 9007199254740992"
  by (rule fadd_cert [OF refl w05_val, where e = "-1" and n = "6305039478318695"]; simp)

lemma tw_a1k2b0c0: "fadd (2476979795053773 / 4503599627370496) w15 = 6305039478318695 / 9007199254740992"
  by (rule fadd_cert [OF refl w15_val, where e = "-1" and n = "6305039478318695"]; simp)

lemma tw_a1k2b0c1: "fadd (6305039478318695 / 9007199254740992) w05 = 6755399441055745 / 9007199254740992"
  by (rule fadd_cert [OF refl w05_val, where e = "-1" and n = "6755399441055745"]; simp)

lemma tw_a1k2b1c0: "fadd (6305039478318695 / 9007199254740992) w10 = 3602879701896397 / 4503599627370496"
  by (rule fadd_cert [OF refl w10_val, where e = "-1" and n = "7205759403792794"]; simp)

lemma tw_a1k2b1c1: "fadd (3602879701896397 / 4503599627370496) w05 = 1914029841632461 / 2251799813685248"
  by (rule fadd_cert [OF refl w05_val, where e = "-1" and n = "7656119366529844"]; simp)

lemma tw_a1k3b0c0: "fadd (6305039478318695 / 9007199254740992) w15 = 1914029841632461 / 2251799813685248"
  by (rule fadd_cert [OF refl w15_val, where e = "-1" and n = "7656119366529844"]; simp)

lemma tw_a1k3b0c1: "fadd (1914029841632461 / 2251799813685248) w05 = 4053239664633447 / 4503599627370496"
  by (rule fadd_cert [OF refl w05_val, where e = "-1" and n = "8106479329266894"]; simp)

lemma tw_a1k3b1c0: "fadd (1914029841632461 / 2251799813685248) w10 = 8556839292003943 / 9007199254740992"
  by (rule fadd_cert [OF refl w10_val, where e = "-1" and n = "8556839292003943"]; simp)

lemma tw_a1k3b1c1: "fadd (8556839292003943 / 9007199254740992) w05 = 1"
  by (rule fadd_cert [OF refl w05_val, where e = "0" and n = "4503599627370496"]; simp)

lemmas tw_values =
  tw_a0k0b0c1 tw_a0k0b1c0 tw_a0k0b1c1 tw_a0k1b0c0 tw_a0k1b0c1 tw_a0k1b1c0
  tw_a0k1b1c1 tw_a0k2b0c0 tw_a0k2b0c1 tw_a0k2b1c0 tw_a0k2b1c1 tw_a0k3b0c0
  tw_a0k3b0c1 tw_a0k3b1c0 tw_a0k3b1c1 tw_a1k0b0c0 tw_a1k0b1c0 tw_a1k0b1c1
  tw_a1k1b0c0 tw_a1k1b0c1 tw_a1k1b1c0 tw_a1k1b1c1 tw_a1k2b0c0 tw_a1k2b0c1
  tw_a1k2b1c0 tw_a1k2b1c1 tw_a1k3b0c0 tw_a1k3b0c1 tw_a1k3b1c0 tw_a1k3b1c1

subsection \<open>Bounds on the score\<close>

lemma rnd_of_nat:
  assumes "n < 2 ^ 53"
  shows "rnd (of_nat n) = of_nat n"
proof (cases "n = 0")
  case True
  then show ?thesis by (simp add: rnd_def)
next
  case False
  define x :: rat where "x = of_nat n"
  define e where "e = binade x"
  have x: "1 \<le> x" "0 < x" using False by (simp_all add: x_def)
  have fl: "0 < \<lfloor>x\<rfloor>" using x by simp
  have e0: "0 \<le> e"
    using x bitlen_pos [OF fl] by (simp add: e_def binade_def)
  have "e < 53"
  proof (rule ccontr)
    assume "\<not> e < 53"
    then have "(2::rat) powi 53 \<le> 2 powi e"
      by (intro power_int_increasing) simp_all
    also have "\<dots> \<le> x" unfolding e_def by (rule binade_bounds(1) [OF x(2)])
    finally have "(2::rat) ^ 53 \<le> of_nat n" by (simp add: x_def)
    then have "(of_nat (2 ^ 53) :: rat) \<le> of_nat n" by simp
    then have "(2::nat) ^ 53 \<le> n" by (simp only: of_nat_le_iff)
    with assms show False by simp
  qed
  define k where "k = nat (52 - e)"
  have ek: "e - 52 = - int k" using \<open>e < 53\<close> by (simp add: k_def)
  have q: "quantum x = 1 / 2 ^ k"
    using x e0 by (simp add: quantum_def level_def e_def [symmetric] ek power_int_minus_divide)
  have "x / quantum x = of_int (int n * 2 ^ k)"
    unfolding q by (simp add: x_def)
  then have "round_half_even (x / quantum x) = int n * 2 ^ k"
    by (simp only: rhe_of_int)
  then have "rnd x = of_int (int n * 2 ^ k) * (1 / 2 ^ k)"
    using x unfolding rnd_def q by simp
  then have "rnd x = x"
    by (simp add: x_def)
  then show ?thesis by (simp add: x_def)
qed

lemma rnd_numeral:
  assumes "numeral k < (2::nat) ^ 53"
  shows "rnd (numeral k) = numeral k"
  using rnd_of_nat [OF assms] by simp

lemma foldl_fadd_mono:
  assumes "list_all2 (\<le>) xs ys" "\<forall>x \<in> set xs. 0 \<le> x" "0 \<le> a" "a \<le> b"
  shows "0 \<le> foldl fadd a xs \<and> foldl fadd a xs \<le> foldl fadd b ys"
  using assms
proof (induction xs ys arbitrary: a b rule: list_all2_induct)
  case Nil
  then show ?case by simp
next
  case (Cons x xs y ys)
  from Cons.prems Cons.hyps(1) have "0 \<le> a + x" "a + x \<le> b + y" by simp_all
  then have "0 \<le> fadd a x" "fadd a x \<le> fadd b y"
    unfolding fadd_def by (simp_all add: rnd_nonneg rnd_mono)
  with Cons.IH [of "fadd a x" "fadd b y"] Cons.prems show ?case by simp
qed

lemma filter_map_subseqs: "map f (filter P xs) \<in> set (subseqs (map f xs))"
  by (induction xs) (simp_all add: Let_def)

lemma weights_enum:
  "list_all (\<lambda>ws. ws = [] \<or>
       (0 < fsum ws \<and> fsum (map (fmul 100) ws) / fsum ws \<le> 100 + 1 / 2 ^ 46))
     (subseqs all_weights)"
  apply (simp only: all_weights_def subseqs.simps Let_def list.map append.simps map_append
      list.pred_inject fsum_def foldl.simps)
  apply (simp only: tw_values w40_full w15_full w10_full w05_full)
  apply (simp add: fadd_def rnd_numeral)
  done


lemma applied_weights:
  "map weight_of (filter evaluated (categories rules r1 r2 r3 r4 r5)) \<in> set (subseqs all_weights)"
proof -
  have "map weight_of (categories rules r1 r2 r3 r4 r5) = all_weights"
    by (simp add: categories_def weight_of_def all_weights_def)
  with filter_map_subseqs [of weight_of evaluated "categories rules r1 r2 r3 r4 r5"]
  show ?thesis by simp
qed

lemma weights_bound:
  assumes "ws \<in> set (subseqs all_weights)" "ws \<noteq> []"
  shows "0 < fsum ws" "fsum (map (fmul 100) ws) / fsum ws \<le> 100 + 1 / 2 ^ 46"
  using assms weights_enum by (auto simp: list_all_iff)

lemma all_weights_nonneg: "w \<in> set all_weights \<Longrightarrow> 0 \<le> w"
  by (auto simp: all_weights_def w40_val w15_val w10_val w05_val)

lemma ceiling_exact: "rnd (100 + 1 / 2 ^ 46) = 100 + 1 / 2 ^ 46"
  by (rule rnd_cert [where e = 6 and n = 7036874417766401]; simp)

lemma score_formula:
  assumes "counts_ok (categories (t, c) r1 r2 r3 r4 r5)"
  shows "calculate_compliance_score (config_status_dict (int t) (int c) n d)
      (custom_checks_of r1 r2 r3 r4 r5) =
    weighted_average (categories (t, c) r1 r2 r3 r4 r5)"
proof -
  let ?applied = "filter evaluated (categories (t, c) r1 r2 r3 r4 r5)"
  show ?thesis
  proof (cases "?applied = []")
    case True
    then show ?thesis
      by (simp add: calculate_compliance_score_def score_body_fold [OF assms]
          weighted_average_def fsum_def)
  next
    case False
    then have "map weight_of ?applied \<noteq> []" by simp
    from weights_bound(1) [OF applied_weights this]
    have "0 < fsum (map weight_of ?applied)" .
    with False show ?thesis
      by (simp add: calculate_compliance_score_def score_body_fold [OF assms]
          weighted_average_def Let_def)
  qed
qed

lemma contribution_bounds:
  assumes "evaluated cat" "counts_ok [cat]" "0 \<le> weight_of cat"
  shows "0 \<le> contribution cat" "contribution cat \<le> fmul 100 (weight_of cat)"
proof -
  obtain t c w where cat: "cat = (t, c, w)" by (cases cat)
  from assms have h: "0 < t" "c \<le> t" "0 \<le> w"
    by (simp_all add: cat evaluated_def counts_ok_def weight_of_def)
  have "0 \<le> category_score c t * w" "category_score c t * w \<le> 100 * w"
    using category_score_bounds [OF h(2,1)] h(3) by (simp_all add: mult_right_mono)
  then show "0 \<le> contribution cat" "contribution cat \<le> fmul 100 (weight_of cat)"
    by (simp_all add: cat contribution_def weight_of_def fmul_def rnd_nonneg rnd_mono)
qed

lemma weighted_average_bounds:
  assumes "counts_ok (categories rules r1 r2 r3 r4 r5)"
  shows "0 \<le> weighted_average (categories rules r1 r2 r3 r4 r5)"
    and "weighted_average (categories rules r1 r2 r3 r4 r5) \<le> 100 + 1 / 2 ^ 46"
proof -
  let ?cats = "categories rules r1 r2 r3 r4 r5"
  let ?applied = "filter evaluated ?cats"
  let ?ws = "map weight_of ?applied"
  have each: "0 \<le> contribution cat \<and> contribution cat \<le> fmul 100 (weight_of cat)"
    if "cat \<in> set ?applied" for cat
  proof -
    from that have m: "cat \<in> set ?cats" "evaluated cat" by simp_all
    from m(1) assms have "counts_ok [cat]"
      by (simp add: counts_ok_def list_all_iff)
    moreover have "weight_of cat \<in> set all_weights"
      using m(1) by (auto simp: categories_def weight_of_def all_weights_def)
    then have "0 \<le> weight_of cat" by (rule all_weights_nonneg)
    ultimately show ?thesis
      using contribution_bounds [OF m(2)] by simp
  qed
  have le: "list_all2 (\<le>) (map contribution ?applied) (map (fmul 100) ?ws)"
    using each by (simp add: list_all2_map1 list_all2_map2 list_all2_same)
  have nn: "\<forall>x \<in> set (map contribution ?applied). 0 \<le> x"
    using each by auto
  from foldl_fadd_mono [OF le nn, of 0 0]
  have ts: "0 \<le> fsum (map contribution ?applied)"
      "fsum (map contribution ?applied) \<le> fsum (map (fmul 100) ?ws)"
    by (simp_all add: fsum_def)
  show "0 \<le> weighted_average ?cats"
  proof (cases "?applied = []")
    case True
    then show ?thesis by (simp add: weighted_average_def)
  next
    case False
    then have "?ws \<noteq> []" by simp
    from weights_bound(1) [OF applied_weights this] ts(1)
    have "0 \<le> fsum (map contribution ?applied) / fsum ?ws" by simp
    from rnd_nonneg [OF this] False show ?thesis
      by (simp add: weighted_average_def fdiv_def Let_def)
  qed
  show "weighted_average ?cats \<le> 100 + 1 / 2 ^ 46"
  proof (cases "?applied = []")
    case True
    then show ?thesis by (simp add: weighted_average_def)
  next
    case False
    then have ne: "?ws \<noteq> []" by simp
    note tw = weights_bound [OF applied_weights ne]
    have q0: "0 \<le> fsum (map contribution ?applied) / fsum ?ws"
      using tw(1) ts(1) by simp
    have "fsum (map contribution ?applied) / fsum ?ws \<le> fsum (map (fmul 100) ?ws) / fsum ?ws"
      using tw(1) ts(2) by (simp add: divide_right_mono)
    also have "\<dots> \<le> 100 + 1 / 2 ^ 46" by (rule tw(2))
    finally have "rnd (fsum (map contribution ?applied) / fsum ?ws) \<le> rnd (100 + 1 / 2 ^ 46)"
      by (rule rnd_mono [OF q0])
    with False show ?thesis
      by (simp only: weighted_average_def Let_def if_False fdiv_def ceiling_exact)
  qed
qed


subsection \<open>The formula and the range of the score\<close>

lemma weighted_average_evaluated:
  "weighted_average (filter evaluated cats) = weighted_average cats"
  by (simp add: weighted_average_def)

text \<open>
  C1. For every rule-compliance status and every five check results as the check functions
  build them (a count of compliant resources never exceeds the count of resources),
  \<open>calculate_compliance_score\<close> returns the sum of category score times weight divided by
  the sum of the weights applied, over the categories config rules (0.40), tagging (0.15),
  security groups (0.15), bucket policy (0.15), encryption (0.10) and public access (0.05),
  in float arithmetic. A category with no evaluated resource contributes to neither sum:
  leaving such categories out does not change the result, and the result is \<open>0.0\<close> when no
  category has a resource.
\<close>

theorem compliance_score_weighted_average:
  assumes "counts_ok (categories (t, c) r1 r2 r3 r4 r5)"
  shows "calculate_compliance_score (config_status_dict (int t) (int c) n d)
        (custom_checks_of r1 r2 r3 r4 r5) =
      weighted_average (categories (t, c) r1 r2 r3 r4 r5)
    \<and> weighted_average (categories (t, c) r1 r2 r3 r4 r5) =
      weighted_average (filter evaluated (categories (t, c) r1 r2 r3 r4 r5))
    \<and> (filter evaluated (categories (t, c) r1 r2 r3 r4 r5) = [] \<longrightarrow>
        calculate_compliance_score (config_status_dict (int t) (int c) n d)
          (custom_checks_of r1 r2 r3 r4 r5) = 0)"
  using score_formula [OF assms, of n d]
    weighted_average_evaluated [of "categories (t, c) r1 r2 r3 r4 r5"]
  by (simp add: weighted_average_def)

theorem compliance_score_weighted_average_witness:
  "counts_ok (categories (10, 8)
      \<lparr>sr_total = 4, sr_compliant = 3, sr_violations = [Missing_tags ''EC2 Instance'' ''i-1'' [''ManagedBy'']]\<rparr>
      \<lparr>sr_total = 2, sr_compliant = 2, sr_violations = []\<rparr>
      \<lparr>sr_total = 0, sr_compliant = 0, sr_violations = []\<rparr>
      \<lparr>sr_total = 5, sr_compliant = 0, sr_violations = [Resource_issue ''EBS Volume'' ''vol-1'' ''Volume not encrypted'']\<rparr>
      \<lparr>sr_total = 1, sr_compliant = 1, sr_violations = []\<rparr>)
   \<and> calculate_compliance_score (config_status_dict 10 8 2 [])
      (custom_checks_of
        \<lparr>sr_total = 4, sr_compliant = 3, sr_violations = [Missing_tags ''EC2 Instance'' ''i-1'' [''ManagedBy'']]\<rparr>
        \<lparr>sr_total = 2, sr_compliant = 2, sr_violations = []\<rparr>
        \<lparr>sr_total = 0, sr_compliant = 0, sr_violations = []\<rparr>
        \<lparr>sr_total = 5, sr_compliant = 0, sr_violations = [Resource_issue ''EBS Volume'' ''vol-1'' ''Volume not encrypted'']\<rparr>
        \<lparr>sr_total = 1, sr_compliant = 1, sr_violations = []\<rparr>) =
     weighted_average [(10, 8, w40), (4, 3, w15), (2, 2, w15), (5, 0, w10), (1, 1, w05)]"
proof -
  let ?r1 = "\<lparr>sr_total = 4, sr_compliant = 3, sr_violations = [Missing_tags ''EC2 Instance'' ''i-1'' [''ManagedBy'']]\<rparr>"
  let ?r2 = "\<lparr>sr_total = 2, sr_compliant = 2, sr_violations = []\<rparr>"
  let ?r3 = "\<lparr>sr_total = 0, sr_compliant = 0, sr_violations = []\<rparr>"
  let ?r4 = "\<lparr>sr_total = 5, sr_compliant = 0, sr_violations = [Resource_issue ''EBS Volume'' ''vol-1'' ''Volume not encrypted'']\<rparr>"
  let ?r5 = "\<lparr>sr_total = 1, sr_compliant = 1, sr_violations = []\<rparr>"
  have ok: "counts_ok (categories (10, 8) ?r1 ?r2 ?r3 ?r4 ?r5)"
    by (simp add: counts_ok_def categories_def)
  have "filter evaluated (categories (10, 8) ?r1 ?r2 ?r3 ?r4 ?r5) =
      [(10, 8, w40), (4, 3, w15), (2, 2, w15), (5, 0, w10), (1, 1, w05)]"
    by (simp add: categories_def evaluated_def)
  with compliance_score_weighted_average [OF ok, of 2 "[]"] ok show ?thesis
    by simp
qed

text \<open>
  C9. Under the precondition that in every category the count of compliant resources does
  not exceed the count of resources, the returned score is at least 0 and at most
  \<open>100 + 2 ^ -46\<close>, the float next above 100. It is not always at most 100: with no config
  rule, one compliant resource in each of tagging, security groups and bucket policy, and
  nothing to evaluate for encryption and public access, the weights sum to
  \<open>0.44999999999999996\<close> and the quotient \<open>45.0 / 0.44999999999999996\<close> rounds to
  \<open>100.00000000000001\<close>.
\<close>

theorem compliance_score_range:
  assumes "counts_ok (categories (t, c) r1 r2 r3 r4 r5)"
  shows "0 \<le> calculate_compliance_score (config_status_dict (int t) (int c) n d)
        (custom_checks_of r1 r2 r3 r4 r5)
    \<and> calculate_compliance_score (config_status_dict (int t) (int c) n d)
        (custom_checks_of r1 r2 r3 r4 r5) \<le> 100 + 1 / 2 ^ 46"
  using weighted_average_bounds [OF assms] by (simp add: score_formula [OF assms])

theorem compliance_score_range_witness:
  "counts_ok (categories (10, 8)
      \<lparr>sr_total = 4, sr_compliant = 3, sr_violations = [Missing_tags ''EC2 Instance'' ''i-1'' [''ManagedBy'']]\<rparr>
      \<lparr>sr_total = 2, sr_compliant = 2, sr_violations = []\<rparr>
      \<lparr>sr_total = 0, sr_compliant = 0, sr_violations = []\<rparr>
      \<lparr>sr_total = 5, sr_compliant = 0, sr_violations = [Resource_issue ''EBS Volume'' ''vol-1'' ''Volume not encrypted'']\<rparr>
      \<lparr>sr_total = 1, sr_compliant = 1, sr_violations = []\<rparr>)
   \<and> 0 \<le> calculate_compliance_score (config_status_dict 10 8 2 [])
      (custom_checks_of
        \<lparr>sr_total = 4, sr_compliant = 3, sr_violations = [Missing_tags ''EC2 Instance'' ''i-1'' [''ManagedBy'']]\<rparr>
        \<lparr>sr_total = 2, sr_compliant = 2, sr_violations = []\<rparr>
        \<lparr>sr_total = 0, sr_compliant = 0, sr_violations = []\<rparr>
        \<lparr>sr_total = 5, sr_compliant = 0, sr_violations = [Resource_issue ''EBS Volume'' ''vol-1'' ''Volume not encrypted'']\<rparr>
        \<lparr>sr_total = 1, sr_compliant = 1, sr_violations = []\<rparr>)
   \<and> calculate_compliance_score (config_status_dict 10 8 2 [])
      (custom_checks_of
        \<lparr>sr_total = 4, sr_compliant = 3, sr_violations = [Missing_tags ''EC2 Instance'' ''i-1'' [''ManagedBy'']]\<rparr>
        \<lparr>sr_total = 2, sr_compliant = 2, sr_violations = []\<rparr>
        \<lparr>sr_total = 0, sr_compliant = 0, sr_violations = []\<rparr>
        \<lparr>sr_total = 5, sr_compliant = 0, sr_violations = [Resource_issue ''EBS Volume'' ''vol-1'' ''Volume not encrypted'']\<rparr>
        \<lparr>sr_total = 1, sr_compliant = 1, sr_violations = []\<rparr>) \<le> 100 + 1 / 2 ^ 46"
proof -
  let ?r1 = "\<lparr>sr_total = 4, sr_compliant = 3, sr_violations = [Missing_tags ''EC2 Instance'' ''i-1'' [''ManagedBy'']]\<rparr>"
  let ?r2 = "\<lparr>sr_total = 2, sr_compliant = 2, sr_violations = []\<rparr>"
  let ?r3 = "\<lparr>sr_total = 0, sr_compliant = 0, sr_violations = []\<rparr>"
  let ?r4 = "\<lparr>sr_total = 5, sr_compliant = 0, sr_violations = [Resource_issue ''EBS Volume'' ''vol-1'' ''Volume not encrypted'']\<rparr>"
  let ?r5 = "\<lparr>sr_total = 1, sr_compliant = 1, sr_violations = []\<rparr>"
  have ok: "counts_ok (categories (10, 8) ?r1 ?r2 ?r3 ?r4 ?r5)"
    by (simp add: counts_ok_def categories_def)
  from compliance_score_range [OF ok, of 2 "[]"] ok show ?thesis
    by simp
qed

lemma three_perfect_checks:
  "weighted_average [(Suc 0, Suc 0, w15), (Suc 0, Suc 0, w15), (Suc 0, Suc 0, w15)] =
     7036874417766401 / 70368744177664"
proof -
  have s: "category_score (Suc 0) (Suc 0) = 100"
    by (simp add: category_score_def fmul_def rnd_one rnd_hundred)
  have ts: "fsum [fmul 100 w15, fmul 100 w15, fmul 100 w15] = 45"
    by (simp add: fsum_def w15_full fadd_def rnd_numeral)
  have tw: "fsum [w15, w15, w15] = 2026619832316723 / 4503599627370496"
    by (simp only: fsum_def foldl.simps tw_values)
  have q: "rnd (202661983231672320 / 2026619832316723) = 7036874417766401 / 70368744177664"
    by (rule rnd_cert [where e = 6 and n = 7036874417766401]; simp)
  show ?thesis
    by (simp add: weighted_average_def evaluated_def contribution_def weight_of_def s ts tw
        fdiv_def q)
qed

theorem compliance_score_above_100:
  "counts_ok (categories (0, 0)
      \<lparr>sr_total = 1, sr_compliant = 1, sr_violations = []\<rparr>
      \<lparr>sr_total = 1, sr_compliant = 1, sr_violations = []\<rparr>
      \<lparr>sr_total = 1, sr_compliant = 1, sr_violations = []\<rparr>
      \<lparr>sr_total = 0, sr_compliant = 0, sr_violations = []\<rparr>
      \<lparr>sr_total = 0, sr_compliant = 0, sr_violations = []\<rparr>)
   \<and> calculate_compliance_score (config_status_dict 0 0 0 [])
      (custom_checks_of
        \<lparr>sr_total = 1, sr_compliant = 1, sr_violations = []\<rparr>
        \<lparr>sr_total = 1, sr_compliant = 1, sr_violations = []\<rparr>
        \<lparr>sr_total = 1, sr_compliant = 1, sr_violations = []\<rparr>
        \<lparr>sr_total = 0, sr_compliant = 0, sr_violations = []\<rparr>
        \<lparr>sr_total = 0, sr_compliant = 0, sr_violations = []\<rparr>) = 100 + 1 / 2 ^ 46
   \<and> \<not> calculate_compliance_score (config_status_dict 0 0 0 [])
      (custom_checks_of
        \<lparr>sr_total = 1, sr_compliant = 1, sr_violations = []\<rparr>
        \<lparr>sr_total = 1, sr_compliant = 1, sr_violations = []\<rparr>
        \<lparr>sr_total = 1, sr_compliant = 1, sr_violations = []\<rparr>
        \<lparr>sr_total = 0, sr_compliant = 0, sr_violations = []\<rparr>
        \<lparr>sr_total = 0, sr_compliant = 0, sr_violations = []\<rparr>) \<le> 100"
proof -
  let ?one = "\<lparr>sr_total = 1, sr_compliant = 1, sr_violations = []\<rparr>"
  let ?none = "\<lparr>sr_total = 0, sr_compliant = 0, sr_violations = []\<rparr>"
  have ok: "counts_ok (categories (0, 0) ?one ?one ?one ?none ?none)"
    by (simp add: counts_ok_def categories_def)
  have w: "weighted_average (categories (0, 0) ?one ?one ?one ?none ?none) =
      weighted_average [(Suc 0, Suc 0, w15), (Suc 0, Suc 0, w15), (Suc 0, Suc 0, w15)]"
    by (subst weighted_average_evaluated [symmetric]) (simp add: categories_def evaluated_def)
  have "calculate_compliance_score (config_status_dict (int 0) (int 0) 0 [])
      (custom_checks_of ?one ?one ?one ?none ?none) =
      weighted_average (categories (0, 0) ?one ?one ?one ?none ?none)"
    by (rule score_formula [OF ok])
  also note w
  also note three_perfect_checks
  finally have "calculate_compliance_score (config_status_dict 0 0 0 [])
      (custom_checks_of ?one ?one ?one ?none ?none) = 7036874417766401 / 70368744177664"
    by simp
  with ok show ?thesis by simp
qed


section \<open>The compliance handler\<close>

lemma get_config_rules_compliance_shape:
  "\<exists>t c n d. get_config_rules_compliance env = config_status_dict t c n d"
  by (auto simp: get_config_rules_compliance_def split: sum.splits prod.splits)

text \<open>
  The loop over the rules raises \<open>KeyError\<close> exactly when a rule lacks a key it indexes;
  otherwise it counts every rule once, as compliant or as not compliant.
\<close>

lemma rule_complete_keys:
  assumes "rule_complete rc"
  shows "\<exists>rule_name compliance ctype. ConfigRuleName rc = Some rule_name
    \<and> Compliance rc = Some compliance \<and> ComplianceType compliance = Some ctype"
proof (cases "Compliance rc")
  case None
  with assms show ?thesis by (simp add: rule_complete_def)
next
  case (Some compliance)
  with assms have "ConfigRuleName rc \<noteq> None" "ComplianceType compliance \<noteq> None"
    by (simp_all add: rule_complete_def)
  with Some show ?thesis by auto
qed

lemma count_rules_complete:
  "list_all rule_complete rcs \<Longrightarrow>
    \<exists>d'. count_rules rcs (t, c, n, d) =
      Inr (t + int (length rcs), c + int (length (filter rule_compliant rcs)),
           n + int (length (filter (\<lambda>rc. \<not> rule_compliant rc) rcs)), d')"
proof (induction rcs arbitrary: t c n d)
  case Nil
  then show ?case by simp
next
  case (Cons rc rest)
  from Cons.prems have rc: "rule_complete rc" and rest: "list_all rule_complete rest"
    by simp_all
  from rule_complete_keys [OF rc] obtain rule_name compliance ctype where
      k: "ConfigRuleName rc = Some rule_name" "Compliance rc = Some compliance"
        "ComplianceType compliance = Some ctype"
    by blast
  show ?case
  proof (cases "ctype = ''COMPLIANT''")
    case True
    then have "rule_compliant rc" by (simp add: rule_compliant_def k)
    with Cons.IH [OF rest, of "t + 1" "c + 1" n] True show ?thesis
      by (simp add: k bind_exn_def field_item_def Let_def add.assoc)
  next
    case False
    then have "\<not> rule_compliant rc" by (simp add: rule_compliant_def k)
    with Cons.IH [OF rest, of "t + 1" c "n + 1"] False show ?thesis
      by (simp add: k bind_exn_def field_item_def Let_def add.assoc)
  qed
qed

lemma count_rules_incomplete:
  "\<not> list_all rule_complete rcs \<Longrightarrow> \<exists>e. count_rules rcs (t, c, n, d) = Inl e"
proof (induction rcs arbitrary: t c n d)
  case Nil
  then show ?case by simp
next
  case (Cons rc rest)
  show ?case
  proof (cases "rule_complete rc")
    case True
    from rule_complete_keys [OF this] obtain rule_name compliance ctype where
        k: "ConfigRuleName rc = Some rule_name" "Compliance rc = Some compliance"
          "ComplianceType compliance = Some ctype"
      by blast
    from True Cons.prems have "\<not> list_all rule_complete rest" by simp
    from Cons.IH [OF this] show ?thesis
      by (simp add: k bind_exn_def field_item_def Let_def)
  next
    case False
    then show ?thesis
      by (auto simp: rule_complete_def bind_exn_def field_item_def split: option.splits)
  qed
qed

lemma config_rules_status_cases:
  "case cc_describe_compliance_by_config_rule env of
     Inl e \<Rightarrow> get_config_rules_compliance env = config_status_dict 0 0 0 []
   | Inr response \<Rightarrow>
       if list_all rule_complete (get_default response [])
       then \<exists>detail. get_config_rules_compliance env =
              config_status_dict (int (length (get_default response [])))
                (int (length (filter rule_compliant (get_default response []))))
                (int (length (filter (\<lambda>rc. \<not> rule_compliant rc) (get_default response []))))
                detail
       else get_config_rules_compliance env = config_status_dict 0 0 0 []"
proof (cases "cc_describe_compliance_by_config_rule env")
  case (Inl e)
  then show ?thesis
    by (simp add: get_config_rules_compliance_def config_rules_scan_def bind_exn_def)
next
  case (Inr response)
  show ?thesis
  proof (cases "list_all rule_complete (get_default response [])")
    case True
    from count_rules_complete [OF True, of 0 0 0 "[]"] Inr True show ?thesis
      by (auto simp: get_config_rules_compliance_def config_rules_scan_def bind_exn_def)
  next
    case False
    from count_rules_incomplete [OF False, of 0 0 0 "[]"] Inr False show ?thesis
      by (auto simp: get_config_rules_compliance_def config_rules_scan_def bind_exn_def)
  qed
qed

text \<open>
  An exception raised by a call on a bucket is caught by the \<open>except\<close> clause of the loop
  only when the client defines the class that the clause names. When it does not, any
  exception raised by the call on a bucket of the project ends the whole check, which then
  returns its all-zero dictionary.
\<close>

lemma except_s3_undefined:
  "name \<notin> set (cc_s3_exceptions env) \<Longrightarrow> except_s3 env name cls e = Escapes (attribute_error name)"
  by (simp add: except_s3_def)

lemma bucket_tagging_undefined:
  assumes "''NoSuchTagSet'' \<notin> set (cc_s3_exceptions env)"
    and "cc_get_bucket_tagging env bucket_name = Raised cls e"
  shows "bucket_tagging env bucket_name = Inl (attribute_error ''NoSuchTagSet'')"
  using assms by (simp add: bucket_tagging_def except_s3_def)

lemma bucket_verdict_undefined:
  assumes "''NoSuchPublicAccessBlockConfiguration'' \<notin> set (cc_s3_exceptions env)"
    and "cc_get_public_access_block env bucket_name = Raised cls e"
  shows "bucket_verdict env bucket_name =
    Inl (attribute_error ''NoSuchPublicAccessBlockConfiguration'')"
  using assms by (simp add: bucket_verdict_def access_findings_def except_s3_def bind_exn_def)

lemma scan_resources_raises:
  "x \<in> set xs \<Longrightarrow> verdict x = Inl e \<Longrightarrow> \<exists>e'. scan_resources verdict xs r = Inl e'"
proof (induction xs arbitrary: r)
  case Nil
  then show ?case by simp
next
  case (Cons y ys)
  show ?case
  proof (cases "verdict y")
    case (Inl e')
    then show ?thesis by simp
  next
    case (Inr v)
    with Cons.prems have "x \<in> set ys" by auto
    from Cons.IH [OF this Cons.prems(2)] Inr show ?thesis
      by (cases v) simp_all
  qed
qed

lemma scan_resources_returns:
  assumes "\<And>x. \<exists>v. verdict x = Inr v"
  shows "\<exists>r'. scan_resources verdict xs r = Inr r'"
proof (induction xs arbitrary: r)
  case Nil
  then show ?case by simp
next
  case (Cons x xs)
  from assms obtain v where v: "verdict x = Inr v" by blast
  show ?case
  proof (cases v)
    case None
    with v Cons.IH [of "add_compliant r"] show ?thesis by simp
  next
    case (Some w)
    with v Cons.IH [of "add_violation w r"] show ?thesis by simp
  qed
qed

lemma check_resource_tagging_undefined:
  assumes "''NoSuchTagSet'' \<notin> set (cc_s3_exceptions env)"
    and "cc_describe_instances env 0 = Inr reservations"
    and "cc_list_buckets env 0 = Inr buckets"
    and "bucket_name \<in> set buckets" "py_in (cc_PROJECT_NAME env) bucket_name"
    and "cc_get_bucket_tagging env bucket_name = Raised cls e"
  shows "check_resource_tagging env =
    check_dict ''total_resources'' ''compliant_resources'' 0 0 []"
proof -
  obtain report where i: "scan_resources instance_tagging
        (filter (\<lambda>i. i_State i = ''running'' \<or> i_State i = ''stopped'') (concat reservations))
        empty_scan = Inr report"
    using scan_resources_returns [of instance_tagging] by (auto simp: instance_tagging_def)
  have "bucket_name \<in> set (filter (py_in (cc_PROJECT_NAME env)) buckets)"
    using assms(4,5) by simp
  from scan_resources_raises [of bucket_name _ "bucket_tagging env", OF this
      bucket_tagging_undefined [OF assms(1,6)]]
  obtain e' where "scan_resources (bucket_tagging env)
      (filter (py_in (cc_PROJECT_NAME env)) buckets) report = Inl e'"
    by blast
  then have "tagging_scan env = Inl e'"
    by (simp add: tagging_scan_def assms(2,3) i bind_exn_def)
  then show ?thesis
    by (simp add: check_resource_tagging_def run_check_def)
qed

lemma check_s3_bucket_policies_undefined:
  assumes "''NoSuchPublicAccessBlockConfiguration'' \<notin> set (cc_s3_exceptions env)"
    and "cc_list_buckets env 1 = Inr buckets"
    and "bucket_name \<in> set buckets" "py_in (cc_PROJECT_NAME env) bucket_name"
    and "cc_get_public_access_block env bucket_name = Raised cls e"
  shows "check_s3_bucket_policies env = check_dict ''total_buckets'' ''compliant_buckets'' 0 0 []"
proof -
  have "bucket_name \<in> set (filter (py_in (cc_PROJECT_NAME env)) buckets)"
    using assms(3,4) by simp
  from scan_resources_raises [of bucket_name _ "bucket_verdict env", OF this
      bucket_verdict_undefined [OF assms(1,5)]]
  obtain e' where "scan_resources (bucket_verdict env)
      (filter (py_in (cc_PROJECT_NAME env)) buckets) empty_scan = Inl e'"
    by blast
  with assms(2) have "s3_buckets_scan env = Inl e'"
    by (simp add: s3_buckets_scan_def bind_exn_def)
  then show ?thesis
    by (simp add: check_s3_bucket_policies_def run_check_def)
qed

lemma config_status_dict_lookups:
  "dict_get (config_status_dict t c n d) ''non_compliant_rules'' (PInt 0) = PInt n"
  "map_of (config_status_dict t c n d) ''total_rules'' = Some (PInt t)"
  "dict_item (config_status_dict t c n d) ''total_rules'' = Inr (PInt t)"
  "dict_item (config_status_dict t c n d) ''compliant_rules'' = Inr (PInt c)"
  by (simp_all add: config_status_dict_def dict_get_def dict_item_def)

lemma build_report_returns:
  "\<exists>report. build_report env = Inr report
     \<and> r_config_rules_status report = get_config_rules_compliance env
     \<and> r_custom_checks report = perform_custom_checks env
     \<and> r_compliance_score report =
         calculate_compliance_score (get_config_rules_compliance env) (perform_custom_checks env)"
proof -
  obtain t c n d where "get_config_rules_compliance env = config_status_dict t c n d"
    using get_config_rules_compliance_shape by blast
  then show ?thesis
    by (simp add: build_report_def generate_recommendations_def Let_def bind_exn_def
        py_gt0_def config_status_dict_lookups)
qed

lemma format_config_status_returns:
  "\<exists>text. format_config_status (get_config_rules_compliance env) = Inr text"
proof -
  obtain t c n d where "get_config_rules_compliance env = config_status_dict t c n d"
    using get_config_rules_compliance_shape by blast
  then show ?thesis
    by (simp add: format_config_status_def bind_exn_def config_status_dict_lookups)
qed

text \<open>The checks of the sample run, evaluated.\<close>

lemma sample_tagging: "tagging_scan sample_env = Inl (attribute_error ''NoSuchTagSet'')"
  by code_simp

lemma sample_groups_scan:
  "security_groups_scan sample_env = Inr
    \<lparr> sr_total = 2, sr_compliant = 1,
      sr_violations = [Group_violations ''sg-2'' ''ssh''
        [Overly_permissive_inbound (Some 22) (Some ''tcp'')]] \<rparr>"
  by code_simp

lemma sample_buckets:
  "s3_buckets_scan sample_env = Inr \<lparr> sr_total = 1, sr_compliant = 1, sr_violations = [] \<rparr>"
  by code_simp

lemma sample_encryption: "encryption_scan sample_env = Inl ''UnauthorizedOperation''"
  by code_simp

lemma sample_public_access:
  "public_access_scan sample_env = Inr
    \<lparr> sr_total = 2, sr_compliant = 1,
      sr_violations = [Resource_issue ''EC2 Instance'' ''i-1'' ''Public IP in private subnet''] \<rparr>"
  by code_simp

lemma sample_json: "cc_json_dumps sample_env report = None"
  by (simp add: sample_env_def)

lemma sample_rules: "cc_describe_compliance_by_config_rule sample_env = Inl ''AccessDenied''"
  by (simp add: sample_env_def)

text \<open>
  C4. Two tiers of error handling in the compliance handler. First tier: when the listing of
  config rules raises, or a rule of the listing lacks a key that the loop indexes, the rule
  status is the all-zero structure, and otherwise it holds the counts of the listing; when
  the body of a custom check raises, that check yields its all-zero result while every other
  check keeps its own. The report is built in every case. Second tier: if serialising the
  report does not raise, the handler answers 200 with the report; if an exception \<open>e\<close>
  escapes the body, it answers 500 with the body
  \<open>{'error': 'Compliance check failed: ' + str(e)}\<close> and no part of the report.
\<close>

theorem compliance_handler_two_tier:
  "\<exists>report. build_report env = Inr report
    \<and> (case cc_describe_compliance_by_config_rule env of
         Inl e \<Rightarrow> r_config_rules_status report = config_status_dict 0 0 0 []
       | Inr response \<Rightarrow>
           if list_all rule_complete (get_default response [])
           then \<exists>detail. r_config_rules_status report =
                  config_status_dict (int (length (get_default response [])))
                    (int (length (filter rule_compliant (get_default response []))))
                    (int (length (filter (\<lambda>rc. \<not> rule_compliant rc) (get_default response []))))
                    detail
           else r_config_rules_status report = config_status_dict 0 0 0 [])
    \<and> r_custom_checks report =
        [(''tagging_compliance'',
            case tagging_scan env of
              Inl e \<Rightarrow> check_dict ''total_resources'' ''compliant_resources'' 0 0 []
            | Inr r \<Rightarrow> check_dict ''total_resources'' ''compliant_resources''
                        (sr_total r) (sr_compliant r) (sr_violations r)),
         (''security_groups'',
            case security_groups_scan env of
              Inl e \<Rightarrow> check_dict ''total_security_groups'' ''compliant_security_groups'' 0 0 []
            | Inr r \<Rightarrow> check_dict ''total_security_groups'' ''compliant_security_groups''
                        (sr_total r) (sr_compliant r) (sr_violations r)),
         (''s3_bucket_policies'',
            case s3_buckets_scan env of
              Inl e \<Rightarrow> check_dict ''total_buckets'' ''compliant_buckets'' 0 0 []
            | Inr r \<Rightarrow> check_dict ''total_buckets'' ''compliant_buckets''
                        (sr_total r) (sr_compliant r) (sr_violations r)),
         (''encryption_status'',
            case encryption_scan env of
              Inl e \<Rightarrow> check_dict ''total_resources'' ''encrypted_resources'' 0 0 []
            | Inr r \<Rightarrow> check_dict ''total_resources'' ''encrypted_resources''
                        (sr_total r) (sr_compliant r) (sr_violations r)),
         (''public_access'',
            case public_access_scan env of
              Inl e \<Rightarrow> check_dict ''total_resources'' ''private_resources'' 0 0 []
            | Inr r \<Rightarrow> check_dict ''total_resources'' ''private_resources''
                        (sr_total r) (sr_compliant r) (sr_violations r))]
    \<and> fst (compliance_handler env) =
        (case cc_json_dumps env report of
           None \<Rightarrow> \<lparr> statusCode = 200, body = Report_json report \<rparr>
         | Some e \<Rightarrow> \<lparr> statusCode = 500, body = Error_json (''Compliance check failed: '' @ e) \<rparr>)"
proof -
  obtain report where r: "build_report env = Inr report"
      "r_config_rules_status report = get_config_rules_compliance env"
      "r_custom_checks report = perform_custom_checks env"
    using build_report_returns by blast
  have k: "run_check tk ck scan =
        (case scan of Inl e \<Rightarrow> check_dict tk ck 0 0 []
         | Inr r \<Rightarrow> check_dict tk ck (sr_total r) (sr_compliant r) (sr_violations r))"
    for tk ck scan
    by (simp add: run_check_def)
  have p: "perform_custom_checks env =
        [(''tagging_compliance'', run_check ''total_resources'' ''compliant_resources'' (tagging_scan env)),
         (''security_groups'', run_check ''total_security_groups'' ''compliant_security_groups'' (security_groups_scan env)),
         (''s3_bucket_policies'', run_check ''total_buckets'' ''compliant_buckets'' (s3_buckets_scan env)),
         (''encryption_status'', run_check ''total_resources'' ''encrypted_resources'' (encryption_scan env)),
         (''public_access'', run_check ''total_resources'' ''private_resources'' (public_access_scan env))]"
    by (simp add: perform_custom_checks_def check_resource_tagging_def check_security_groups_def
        check_s3_bucket_policies_def check_encryption_compliance_def
        check_public_access_compliance_def)
  have h: "fst (compliance_handler env) =
        (case cc_json_dumps env report of
           None \<Rightarrow> \<lparr> statusCode = 200, body = Report_json report \<rparr>
         | Some e \<Rightarrow> \<lparr> statusCode = 500, body = Error_json (''Compliance check failed: '' @ e) \<rparr>)"
    by (simp add: compliance_handler_def r(1) handler_failed_def Let_def split: option.splits)
  show ?thesis
    apply (rule exI [of _ report])
    apply (intro conjI)
       apply (rule r(1))
      apply (simp only: r(2))
      apply (rule config_rules_status_cases)
     apply (simp only: r(3) p k)
    apply (rule h)
    done
qed

text \<open>
  The sample run. The rule listing is refused, so the rule status is all-zero. The tagging
  check is all-zero: the bucket without tags makes \<open>get_bucket_tagging\<close> raise, and the
  \<open>except\<close> clause names a class that the client does not define. The encryption check is
  all-zero: the listing of volumes is refused. The other three checks keep their counts, and
  the answer is 200 with the report. The same run with a report that cannot be serialised
  answers 500 with the error only.
\<close>

theorem compliance_handler_two_tier_witness:
  "\<exists>report. build_report sample_env = Inr report
    \<and> r_config_rules_status report = config_status_dict 0 0 0 []
    \<and> r_custom_checks report =
        [(''tagging_compliance'',
            check_dict ''total_resources'' ''compliant_resources'' 0 0 []),
         (''security_groups'',
            check_dict ''total_security_groups'' ''compliant_security_groups'' 2 1
              [Group_violations ''sg-2'' ''ssh'' [Overly_permissive_inbound (Some 22) (Some ''tcp'')]]),
         (''s3_bucket_policies'',
            check_dict ''total_buckets'' ''compliant_buckets'' 1 1 []),
         (''encryption_status'',
            check_dict ''total_resources'' ''encrypted_resources'' 0 0 []),
         (''public_access'',
            check_dict ''total_resources'' ''private_resources'' 2 1
              [Resource_issue ''EC2 Instance'' ''i-1'' ''Public IP in private subnet''])]
    \<and> fst (compliance_handler sample_env) = \<lparr> statusCode = 200, body = Report_json report \<rparr>
    \<and> fst (compliance_handler (sample_env\<lparr> cc_json_dumps := \<lambda>r. Some ''not serializable'' \<rparr>)) =
        \<lparr> statusCode = 500, body = Error_json ''Compliance check failed: not serializable'' \<rparr>"
proof -
  let ?refused = "sample_env\<lparr> cc_json_dumps := \<lambda>r. Some ''not serializable'' \<rparr>"
  from compliance_handler_two_tier [of ?refused] obtain report where
      "fst (compliance_handler ?refused) =
        (case cc_json_dumps ?refused report of
           None \<Rightarrow> \<lparr> statusCode = 200, body = Report_json report \<rparr>
         | Some e \<Rightarrow> \<lparr> statusCode = 500, body = Error_json (''Compliance check failed: '' @ e) \<rparr>)"
    by blast
  then have "fst (compliance_handler ?refused) =
      \<lparr> statusCode = 500, body = Error_json ''Compliance check failed: not serializable'' \<rparr>"
    by simp
  with compliance_handler_two_tier [of sample_env] show ?thesis
    by (simp add: sample_tagging sample_groups_scan sample_buckets sample_encryption
        sample_public_access sample_json sample_rules)
qed

lemma send_compliance_notification_calls:
  "filter is_compliance_notification (send_compliance_notification env report) \<noteq> [] \<longleftrightarrow>
     topic_configured env \<and> (\<exists>text. format_config_status (r_config_rules_status report) = Inr text)"
  by (cases "format_config_status (r_config_rules_status report)")
    (simp_all add: send_compliance_notification_def Let_def is_compliance_notification_def)

lemma send_error_notification_calls:
  "filter is_compliance_notification (send_error_notification env msg) = []"
  by (simp add: send_error_notification_def Let_def is_compliance_notification_def)

lemma handler_failed_calls:
  "filter is_compliance_notification (snd (handler_failed env e sent)) =
     filter is_compliance_notification sent"
  by (simp add: handler_failed_def Let_def send_error_notification_calls)

text \<open>
  C5. In every run of the compliance handler, a compliance notification is handed to
  \<open>sns.publish\<close> if and only if the computed score is strictly less than 90.0 and the
  notification topic is configured (\<open>SNS_TOPIC_ARN\<close> set and not empty); no compliance
  notification is sent for a score of 90.0 or more. When serialising the report does not
  fail, the answer is 200 and carries that score.
\<close>

theorem compliance_notification_iff:
  "\<exists>report. build_report env = Inr report
    \<and> (filter is_compliance_notification (snd (compliance_handler env)) \<noteq> [] \<longleftrightarrow>
         r_compliance_score report < 90 \<and> topic_configured env)
    \<and> (if cc_json_dumps env report = None
        then fst (compliance_handler env) = \<lparr> statusCode = 200, body = Report_json report \<rparr>
        else statusCode (fst (compliance_handler env)) = 500)"
proof -
  obtain report where r: "build_report env = Inr report"
      "r_config_rules_status report = get_config_rules_compliance env"
    using build_report_returns by blast
  have f: "\<exists>text. format_config_status (r_config_rules_status report) = Inr text"
    unfolding r(2) by (rule format_config_status_returns)
  have s: "filter is_compliance_notification (snd (compliance_handler env)) =
      filter is_compliance_notification
        (if r_compliance_score report < 90 then send_compliance_notification env report else [])"
    by (cases "cc_json_dumps env report")
      (simp_all add: compliance_handler_def r(1) Let_def handler_failed_calls)
  have "filter is_compliance_notification (snd (compliance_handler env)) \<noteq> [] \<longleftrightarrow>
         r_compliance_score report < 90 \<and> topic_configured env"
    unfolding s using f send_compliance_notification_calls [of env report] by simp
  moreover have "if cc_json_dumps env report = None
        then fst (compliance_handler env) = \<lparr> statusCode = 200, body = Report_json report \<rparr>
        else statusCode (fst (compliance_handler env)) = 500"
    by (cases "cc_json_dumps env report")
      (simp_all add: compliance_handler_def r(1) Let_def handler_failed_def)
  ultimately show ?thesis using r(1) by blast
qed

lemma quiet_env_score:
  "calculate_compliance_score (get_config_rules_compliance quiet_env)
     (perform_custom_checks quiet_env) = 0"
proof -
  have c: "get_config_rules_compliance quiet_env =
      config_status_dict (int 1) (int 0) 1
        [(''encrypted-volumes'',
          \<lparr>rd_status = ''NON_COMPLIANT'',
             rd_last_evaluated = \<lparr>CappedCount = None, CapExceeded = None\<rparr>\<rparr>)]"
    by (simp add: quiet_env_def get_config_rules_compliance_def config_rules_scan_def
        bind_exn_def get_default_def field_item_def)
  let ?none = "\<lparr>sr_total = 0, sr_compliant = 0, sr_violations = []\<rparr>"
  have p: "perform_custom_checks quiet_env = custom_checks_of ?none ?none ?none ?none ?none"
    by (simp add: quiet_env_def perform_custom_checks_def custom_checks_of_def
        check_resource_tagging_def check_security_groups_def check_s3_bucket_policies_def
        check_encryption_compliance_def check_public_access_compliance_def
        tagging_scan_def security_groups_scan_def s3_buckets_scan_def encryption_scan_def
        public_access_scan_def bind_exn_def empty_scan_def)
  have ok: "counts_ok (categories (1, 0) ?none ?none ?none ?none ?none)"
    by (simp add: counts_ok_def categories_def)
  have z: "rnd 0 = 0" by (simp add: rnd_def)
  have "weighted_average (categories (1, 0) ?none ?none ?none ?none ?none) = 0"
    by (simp add: weighted_average_def categories_def evaluated_def contribution_def
        weight_of_def category_score_def fsum_def fmul_def fdiv_def fadd_def z)
  then show ?thesis
    unfolding c p by (simp only: score_formula [OF ok])
qed

text \<open>
  The run of \<open>quiet_env\<close> ends with status 200 and a score of 0.0, below 90.0, and publishes
  nothing: the topic is not configured.
\<close>

theorem compliance_notification_needs_topic:
  "statusCode (fst (compliance_handler quiet_env)) = 200
   \<and> (\<exists>report. body (fst (compliance_handler quiet_env)) = Report_json report
        \<and> r_compliance_score report = 0 \<and> r_compliance_score report < 90)
   \<and> snd (compliance_handler quiet_env) = []"
proof -
  obtain report where r: "build_report quiet_env = Inr report"
      "r_compliance_score report =
         calculate_compliance_score (get_config_rules_compliance quiet_env)
           (perform_custom_checks quiet_env)"
    using build_report_returns by blast
  have s: "r_compliance_score report = 0"
    unfolding r(2) by (rule quiet_env_score)
  have t: "\<not> topic_configured quiet_env" "cc_json_dumps quiet_env report = None"
    by (simp_all add: topic_configured_def quiet_env_def)
  have "compliance_handler quiet_env = (\<lparr> statusCode = 200, body = Report_json report \<rparr>, [])"
    by (simp add: compliance_handler_def r(1) s t send_compliance_notification_def)
  with s show ?thesis by simp
qed


subsection \<open>The counts and the score of a run\<close>

text \<open>
  No check counts more compliant resources than resources, whatever the services answer,
  and the same holds for the count of the managed rules.
\<close>

lemma scan_resources_counts:
  "scan_resources verdict xs r = Inr r' \<Longrightarrow> sr_compliant r \<le> sr_total r
    \<Longrightarrow> sr_compliant r' \<le> sr_total r'"
proof (induction xs arbitrary: r)
  case Nil
  then show ?case by simp
next
  case (Cons x xs)
  show ?case
  proof (cases "verdict x")
    case (Inl e)
    with Cons.prems show ?thesis by simp
  next
    case (Inr v)
    show ?thesis
    proof (cases v)
      case None
      with Inr Cons.prems have "scan_resources verdict xs (add_compliant r) = Inr r'" by simp
      moreover have "sr_compliant (add_compliant r) \<le> sr_total (add_compliant r)"
        using Cons.prems(2) by (simp add: add_compliant_def)
      ultimately show ?thesis by (rule Cons.IH)
    next
      case (Some w)
      with Inr Cons.prems have "scan_resources verdict xs (add_violation w r) = Inr r'" by simp
      moreover have "sr_compliant (add_violation w r) \<le> sr_total (add_violation w r)"
        using Cons.prems(2) by (simp add: add_violation_def)
      ultimately show ?thesis by (rule Cons.IH)
    qed
  qed
qed

lemma empty_scan_counts: "sr_compliant empty_scan \<le> sr_total empty_scan"
  by (simp add: empty_scan_def)

lemma bind_exn_Inr: "bind_exn m f = Inr y \<Longrightarrow> \<exists>x. m = Inr x \<and> f x = Inr y"
  by (cases m) (simp_all add: bind_exn_def)

lemma tagging_scan_counts:
  assumes "tagging_scan env = Inr r" shows "sr_compliant r \<le> sr_total r"
proof -
  from assms obtain reservations report buckets where
      a: "scan_resources instance_tagging
        (filter (\<lambda>i. i_State i = ''running'' \<or> i_State i = ''stopped'') (concat reservations))
        empty_scan = Inr report"
      and b: "scan_resources (bucket_tagging env) (filter (py_in (cc_PROJECT_NAME env)) buckets)
        report = Inr r"
    unfolding tagging_scan_def by (blast dest: bind_exn_Inr)
  from scan_resources_counts [OF b scan_resources_counts [OF a empty_scan_counts]]
  show ?thesis .
qed

lemma security_groups_scan_counts:
  assumes "security_groups_scan env = Inr r" shows "sr_compliant r \<le> sr_total r"
proof -
  from assms obtain groups where
      a: "scan_resources group_verdict (filter (\<lambda>sg. GroupName sg \<noteq> ''default'') groups)
        empty_scan = Inr r"
    unfolding security_groups_scan_def by (blast dest: bind_exn_Inr)
  from scan_resources_counts [OF a empty_scan_counts] show ?thesis .
qed

lemma s3_buckets_scan_counts:
  assumes "s3_buckets_scan env = Inr r" shows "sr_compliant r \<le> sr_total r"
proof -
  from assms obtain buckets where
      a: "scan_resources (bucket_verdict env) (filter (py_in (cc_PROJECT_NAME env)) buckets)
        empty_scan = Inr r"
    unfolding s3_buckets_scan_def by (blast dest: bind_exn_Inr)
  from scan_resources_counts [OF a empty_scan_counts] show ?thesis .
qed

lemma encryption_scan_counts:
  assumes "encryption_scan env = Inr r" shows "sr_compliant r \<le> sr_total r"
proof -
  from assms obtain db_instances report volumes where
      a: "scan_resources db_encryption db_instances empty_scan = Inr report"
      and b: "scan_resources volume_encryption volumes report = Inr r"
    unfolding encryption_scan_def by (blast dest: bind_exn_Inr)
  from scan_resources_counts [OF b scan_resources_counts [OF a empty_scan_counts]]
  show ?thesis .
qed

lemma public_access_scan_counts:
  assumes "public_access_scan env = Inr r" shows "sr_compliant r \<le> sr_total r"
proof -
  from assms obtain db_instances report reservations where
      a: "scan_resources db_exposure db_instances empty_scan = Inr report"
      and b: "scan_resources instance_exposure
        (filter (\<lambda>i. i_State i = ''running'') (concat reservations)) report = Inr r"
    unfolding public_access_scan_def by (blast dest: bind_exn_Inr)
  from scan_resources_counts [OF b scan_resources_counts [OF a empty_scan_counts]]
  show ?thesis .
qed


lemma count_rules_counts:
  "count_rules rcs (t, c, n, d) = Inr (t', c', n', d') \<Longrightarrow> 0 \<le> c \<Longrightarrow> c \<le> t
    \<Longrightarrow> 0 \<le> c' \<and> c' \<le> t'"
proof (induction rcs arbitrary: t c n d)
  case Nil
  then show ?case by simp
next
  case (Cons rc rest)
  from Cons.prems(1) have
      "(\<exists>d1. count_rules rest (t + 1, c + 1, n, d1) = Inr (t', c', n', d'))
       \<or> (\<exists>d1. count_rules rest (t + 1, c, n + 1, d1) = Inr (t', c', n', d'))"
    by (auto simp: bind_exn_def field_item_def Let_def split: option.splits if_splits)
  then show ?case
  proof
    assume "\<exists>d1. count_rules rest (t + 1, c + 1, n, d1) = Inr (t', c', n', d')"
    then obtain d1 where "count_rules rest (t + 1, c + 1, n, d1) = Inr (t', c', n', d')" ..
    from Cons.IH [OF this] Cons.prems(2,3) show ?thesis by simp
  next
    assume "\<exists>d1. count_rules rest (t + 1, c, n + 1, d1) = Inr (t', c', n', d')"
    then obtain d1 where "count_rules rest (t + 1, c, n + 1, d1) = Inr (t', c', n', d')" ..
    from Cons.IH [OF this] Cons.prems(2,3) show ?thesis by simp
  qed
qed

lemma get_config_rules_compliance_counts:
  "\<exists>t c n d. get_config_rules_compliance env = config_status_dict (int t) (int c) n d \<and> c \<le> t"
proof (cases "config_rules_scan env")
  case (Inl e)
  then have "get_config_rules_compliance env = config_status_dict (int 0) (int 0) 0 []"
    by (simp add: get_config_rules_compliance_def)
  then show ?thesis by blast
next
  case (Inr st)
  obtain t' c' n' d' where st: "st = (t', c', n', d')" by (cases st)
  from Inr obtain response where
      "count_rules (get_default response []) (0, 0, 0, []) = Inr (t', c', n', d')"
    unfolding st config_rules_scan_def by (blast dest: bind_exn_Inr)
  from count_rules_counts [OF this] have b: "0 \<le> c'" "c' \<le> t'" by simp_all
  from Inr have "get_config_rules_compliance env = config_status_dict t' c' n' d'"
    by (simp add: get_config_rules_compliance_def st)
  with b have "get_config_rules_compliance env = config_status_dict (int (nat t')) (int (nat c')) n' d'
      \<and> nat c' \<le> nat t'"
    by simp
  then show ?thesis by blast
qed

text \<open>
  Hence every run of the handler scores counts as the theorems on the score require them,
  and the score of its report lies in the range proved there.
\<close>

lemma scan_outcome_counts:
  assumes "\<And>r. scan = Inr r \<Longrightarrow> sr_compliant r \<le> sr_total r"
  shows "sr_compliant (scan_outcome scan) \<le> sr_total (scan_outcome scan)"
  using assms by (cases scan) (simp_all add: scan_outcome_def empty_scan_def)

lemma run_check_outcome: "run_check tk ck scan = run_check tk ck (Inr (scan_outcome scan))"
  by (cases scan) (simp_all add: run_check_def scan_outcome_def empty_scan_def)

lemma perform_custom_checks_outcomes:
  "perform_custom_checks env =
    custom_checks_of (scan_outcome (tagging_scan env)) (scan_outcome (security_groups_scan env))
      (scan_outcome (s3_buckets_scan env)) (scan_outcome (encryption_scan env))
      (scan_outcome (public_access_scan env))"
  unfolding perform_custom_checks_def custom_checks_of_def check_resource_tagging_def
    check_security_groups_def check_s3_bucket_policies_def check_encryption_compliance_def
    check_public_access_compliance_def
  by (simp only: run_check_outcome [symmetric])

lemma handler_counts:
  "\<exists>t c n d. get_config_rules_compliance env = config_status_dict (int t) (int c) n d
    \<and> counts_ok (categories (t, c)
         (scan_outcome (tagging_scan env)) (scan_outcome (security_groups_scan env))
         (scan_outcome (s3_buckets_scan env)) (scan_outcome (encryption_scan env))
         (scan_outcome (public_access_scan env)))"
proof -
  obtain t c n d where
      g: "get_config_rules_compliance env = config_status_dict (int t) (int c) n d" "c \<le> t"
    using get_config_rules_compliance_counts by blast
  have "counts_ok (categories (t, c)
         (scan_outcome (tagging_scan env)) (scan_outcome (security_groups_scan env))
         (scan_outcome (s3_buckets_scan env)) (scan_outcome (encryption_scan env))
         (scan_outcome (public_access_scan env)))"
    by (simp add: counts_ok_def categories_def g(2)
        scan_outcome_counts [OF tagging_scan_counts]
        scan_outcome_counts [OF security_groups_scan_counts]
        scan_outcome_counts [OF s3_buckets_scan_counts]
        scan_outcome_counts [OF encryption_scan_counts]
        scan_outcome_counts [OF public_access_scan_counts])
  with g(1) show ?thesis by blast
qed

lemma report_score_range:
  "\<exists>report. build_report env = Inr report
    \<and> 0 \<le> r_compliance_score report \<and> r_compliance_score report \<le> 100 + 1 / 2 ^ 46"
proof -
  obtain report where r: "build_report env = Inr report"
      "r_compliance_score report =
         calculate_compliance_score (get_config_rules_compliance env) (perform_custom_checks env)"
    using build_report_returns by blast
  obtain t c n d where
      g: "get_config_rules_compliance env = config_status_dict (int t) (int c) n d"
      and ok: "counts_ok (categories (t, c)
         (scan_outcome (tagging_scan env)) (scan_outcome (security_groups_scan env))
         (scan_outcome (s3_buckets_scan env)) (scan_outcome (encryption_scan env))
         (scan_outcome (public_access_scan env)))"
    using handler_counts by blast
  have "r_compliance_score report = weighted_average (categories (t, c)
         (scan_outcome (tagging_scan env)) (scan_outcome (security_groups_scan env))
         (scan_outcome (s3_buckets_scan env)) (scan_outcome (encryption_scan env))
         (scan_outcome (public_access_scan env)))"
    unfolding r(2) g perform_custom_checks_outcomes by (rule score_formula [OF ok])
  with weighted_average_bounds [OF ok] r(1) show ?thesis by auto
qed


section \<open>Downsizing recommendations for compute instances\<close>

lemma downsize_map_values: "suggest_smaller_instance_type t = Some s \<Longrightarrow> s \<noteq> []"
proof -
  assume "suggest_smaller_instance_type t = Some s"
  then have "(t, s) \<in> set downsize_map"
    by (simp add: suggest_smaller_instance_type_def map_of_SomeD)
  moreover have "list_all (\<lambda>(k, v). v \<noteq> []) downsize_map"
    by (simp add: downsize_map_def)
  ultimately show "s \<noteq> []"
    by (auto simp: list_all_iff)
qed

lemma analyze_instance_flags:
  "analyze_instance env i \<noteq> [] \<longleftrightarrow>
     get_average_cpu_utilization env (InstanceId i) < co_UTILIZATION_THRESHOLD env
     \<and> suggest_smaller_instance_type (InstanceType i) \<noteq> None"
  by (auto simp: analyze_instance_def Let_def dest: downsize_map_values split: option.splits)

lemma analyze_instance_result:
  assumes "get_average_cpu_utilization env (InstanceId i) < co_UTILIZATION_THRESHOLD env"
    and "suggest_smaller_instance_type (InstanceType i) = Some s"
  shows "analyze_instance env i =
    [\<lparr> rec_instance_id = InstanceId i,
       rec_current_type = InstanceType i,
       rec_suggested_type = s,
       rec_current_cpu_utilization = get_average_cpu_utilization env (InstanceId i),
       rec_monthly_savings = estimate_instance_cost_savings (InstanceType i) s,
       rec_recommendation = ''Downsize from '' @ InstanceType i @ '' to '' @ s,
       rec_reason = ''CPU utilization is only ''
         @ format_1f (get_average_cpu_utilization env (InstanceId i)) @ ''%'' \<rparr>]"
  using assms downsize_map_values [OF assms(2)] by (simp add: analyze_instance_def Let_def)

lemma analyze_ec2_instances_members:
  "r \<in> set (analyze_ec2_instances env) \<longleftrightarrow>
     (\<exists>reservations i. co_describe_instances env = Inr reservations
        \<and> i \<in> set (concat reservations) \<and> r \<in> set (analyze_instance env i))"
  by (cases "co_describe_instances env") (auto simp: analyze_ec2_instances_def)

text \<open>
  C3. \<open>analyze_ec2_instances\<close> emits a downsizing recommendation for a running instance only
  if its average CPU utilization is strictly below the utilization threshold and the downsize
  table has an entry for its instance type: an instance whose utilization equals the threshold
  appends nothing, an instance whose type has no entry appends nothing, and every
  recommendation of the result comes from a listed instance that passes both tests.
\<close>

theorem ec2_downsizing_only_if:
  "(analyze_instance env i \<noteq> [] \<longrightarrow>
      get_average_cpu_utilization env (InstanceId i) < co_UTILIZATION_THRESHOLD env
      \<and> suggest_smaller_instance_type (InstanceType i) \<noteq> None)
   \<and> (get_average_cpu_utilization env (InstanceId i) = co_UTILIZATION_THRESHOLD env \<longrightarrow>
      analyze_instance env i = [])
   \<and> (suggest_smaller_instance_type (InstanceType i) = None \<longrightarrow> analyze_instance env i = [])
   \<and> (\<forall>r \<in> set (analyze_ec2_instances env).
        \<exists>reservations j. co_describe_instances env = Inr reservations
          \<and> j \<in> set (concat reservations) \<and> r \<in> set (analyze_instance env j)
          \<and> rec_instance_id r = InstanceId j
          \<and> get_average_cpu_utilization env (InstanceId j) < co_UTILIZATION_THRESHOLD env
          \<and> suggest_smaller_instance_type (InstanceType j) = Some (rec_suggested_type r))"
proof -
  have a: "analyze_instance env i \<noteq> [] \<longrightarrow>
      get_average_cpu_utilization env (InstanceId i) < co_UTILIZATION_THRESHOLD env
      \<and> suggest_smaller_instance_type (InstanceType i) \<noteq> None"
    by (simp add: analyze_instance_flags)
  have b: "get_average_cpu_utilization env (InstanceId i) = co_UTILIZATION_THRESHOLD env \<longrightarrow>
      analyze_instance env i = []"
    by (simp add: analyze_instance_def Let_def)
  have c: "suggest_smaller_instance_type (InstanceType i) = None \<longrightarrow> analyze_instance env i = []"
    by (simp add: analyze_instance_def Let_def)
  have d: "\<exists>reservations j. co_describe_instances env = Inr reservations
          \<and> j \<in> set (concat reservations) \<and> r \<in> set (analyze_instance env j)
          \<and> rec_instance_id r = InstanceId j
          \<and> get_average_cpu_utilization env (InstanceId j) < co_UTILIZATION_THRESHOLD env
          \<and> suggest_smaller_instance_type (InstanceType j) = Some (rec_suggested_type r)"
    if "r \<in> set (analyze_ec2_instances env)" for r
  proof -
    from that obtain reservations j where j: "co_describe_instances env = Inr reservations"
        "j \<in> set (concat reservations)" "r \<in> set (analyze_instance env j)"
      unfolding analyze_ec2_instances_members by blast
    from j(3) have ne: "analyze_instance env j \<noteq> []" by auto
    then have cpu: "get_average_cpu_utilization env (InstanceId j) < co_UTILIZATION_THRESHOLD env"
      and "suggest_smaller_instance_type (InstanceType j) \<noteq> None"
      by (simp_all add: analyze_instance_flags)
    then obtain s where s: "suggest_smaller_instance_type (InstanceType j) = Some s" by blast
    from j(3) have "rec_instance_id r = InstanceId j" "rec_suggested_type r = s"
      unfolding analyze_instance_result [OF cpu s] by simp_all
    with j cpu s show ?thesis by blast
  qed
  from a b c d show ?thesis by blast
qed

lemma fleet_averages:
  "get_average_cpu_utilization fleet_env ''i-aaa'' = 20"
  "get_average_cpu_utilization fleet_env ''i-bbb'' = 6"
  "get_average_cpu_utilization fleet_env ''i-ccc'' = 1"
  "get_average_cpu_utilization fleet_env ''i-ddd'' = 0"
  by (simp_all add: get_average_cpu_utilization_def fleet_env_def bind_exn_def field_item_def
      fadd_def fdiv_def rnd_numeral rnd_one)

lemma fleet_types:
  "suggest_smaller_instance_type ''t3.large'' = Some ''t3.medium''"
  "suggest_smaller_instance_type ''x1.32xlarge'' = None"
  "suggest_smaller_instance_type ''m5.xlarge'' = Some ''m5.large''"
  by (simp_all add: suggest_smaller_instance_type_def downsize_map_def)

lemma fleet_instances:
  "analyze_instance fleet_env \<lparr> InstanceId = ''i-aaa'', InstanceType = ''t3.large'' \<rparr> = []"
  "analyze_instance fleet_env \<lparr> InstanceId = ''i-ccc'', InstanceType = ''x1.32xlarge'' \<rparr> = []"
  "analyze_instance fleet_env \<lparr> InstanceId = ''i-bbb'', InstanceType = ''t3.large'' \<rparr> \<noteq> []"
  "analyze_instance fleet_env \<lparr> InstanceId = ''i-ddd'', InstanceType = ''m5.xlarge'' \<rparr> \<noteq> []"
proof -
  have thr: "co_UTILIZATION_THRESHOLD fleet_env = 20" by (simp add: fleet_env_def)
  show "analyze_instance fleet_env \<lparr> InstanceId = ''i-aaa'', InstanceType = ''t3.large'' \<rparr> = []"
    by (simp add: analyze_instance_def fleet_averages thr)
  show "analyze_instance fleet_env \<lparr> InstanceId = ''i-ccc'', InstanceType = ''x1.32xlarge'' \<rparr> = []"
    by (simp add: analyze_instance_def fleet_averages fleet_types thr)
  show "analyze_instance fleet_env \<lparr> InstanceId = ''i-bbb'', InstanceType = ''t3.large'' \<rparr> \<noteq> []"
    by (simp add: analyze_instance_flags fleet_averages fleet_types thr)
  show "analyze_instance fleet_env \<lparr> InstanceId = ''i-ddd'', InstanceType = ''m5.xlarge'' \<rparr> \<noteq> []"
    by (simp add: analyze_instance_flags fleet_averages fleet_types thr)
qed

theorem ec2_downsizing_only_if_witness:
  "analyze_instance fleet_env \<lparr> InstanceId = ''i-bbb'', InstanceType = ''t3.large'' \<rparr> \<noteq> []
   \<and> get_average_cpu_utilization fleet_env ''i-bbb'' < co_UTILIZATION_THRESHOLD fleet_env
   \<and> suggest_smaller_instance_type ''t3.large'' \<noteq> None
   \<and> get_average_cpu_utilization fleet_env ''i-aaa'' = co_UTILIZATION_THRESHOLD fleet_env
   \<and> analyze_instance fleet_env \<lparr> InstanceId = ''i-aaa'', InstanceType = ''t3.large'' \<rparr> = []
   \<and> suggest_smaller_instance_type ''x1.32xlarge'' = None
   \<and> analyze_instance fleet_env \<lparr> InstanceId = ''i-ccc'', InstanceType = ''x1.32xlarge'' \<rparr> = []
   \<and> analyze_ec2_instances fleet_env \<noteq> []"
proof -
  have thr: "co_UTILIZATION_THRESHOLD fleet_env = 20" by (simp add: fleet_env_def)
  have "analyze_ec2_instances fleet_env \<noteq> []"
    by (simp add: analyze_ec2_instances_def fleet_env_def fleet_instances [unfolded fleet_env_def])
  with ec2_downsizing_only_if [of fleet_env "\<lparr> InstanceId = ''i-bbb'', InstanceType = ''t3.large'' \<rparr>"]
    ec2_downsizing_only_if [of fleet_env "\<lparr> InstanceId = ''i-aaa'', InstanceType = ''t3.large'' \<rparr>"]
    ec2_downsizing_only_if [of fleet_env "\<lparr> InstanceId = ''i-ccc'', InstanceType = ''x1.32xlarge'' \<rparr>"]
    fleet_instances(3)
  show ?thesis
    by (simp add: fleet_averages fleet_types thr)
qed

text \<open>
  C10. A running instance whose metric query returns no datapoint is given an average CPU
  utilization of exactly \<open>0.0\<close>, the value an instance idle in every hour gets; so for any
  positive threshold, whenever the downsize table has an entry for its type and the instance
  is listed, \<open>analyze_ec2_instances\<close> recommends downsizing it, reporting a utilization of
  \<open>0.0\<close>.
\<close>

theorem no_datapoints_flagged:
  assumes "co_get_metric_statistics env (InstanceId i) = Inr []"
  shows "get_average_cpu_utilization env (InstanceId i) = 0
    \<and> get_average_cpu_utilization
        (env \<lparr> co_get_metric_statistics := (\<lambda>instance_id. Inr [\<lparr> dp_Average = Some 0 \<rparr>]) \<rparr>)
        (InstanceId i) = 0
    \<and> (0 < co_UTILIZATION_THRESHOLD env
        \<and> suggest_smaller_instance_type (InstanceType i) = Some s
        \<and> co_describe_instances env = Inr reservations
        \<and> i \<in> set (concat reservations)
      \<longrightarrow> (\<exists>r \<in> set (analyze_ec2_instances env).
            rec_instance_id r = InstanceId i \<and> rec_current_type r = InstanceType i
            \<and> rec_suggested_type r = s \<and> rec_current_cpu_utilization r = 0))"
proof -
  have z: "get_average_cpu_utilization env (InstanceId i) = 0"
    using assms by (simp add: get_average_cpu_utilization_def bind_exn_def)
  have idle: "get_average_cpu_utilization
        (env \<lparr> co_get_metric_statistics := (\<lambda>instance_id. Inr [\<lparr> dp_Average = Some 0 \<rparr>]) \<rparr>)
        (InstanceId i) = 0"
    by (simp add: get_average_cpu_utilization_def bind_exn_def field_item_def fadd_def fdiv_def
        rnd_def)
  have flagged: "\<exists>r \<in> set (analyze_ec2_instances env).
            rec_instance_id r = InstanceId i \<and> rec_current_type r = InstanceType i
            \<and> rec_suggested_type r = s \<and> rec_current_cpu_utilization r = 0"
    if h: "0 < co_UTILIZATION_THRESHOLD env"
        "suggest_smaller_instance_type (InstanceType i) = Some s"
        "co_describe_instances env = Inr reservations"
        "i \<in> set (concat reservations)"
  proof -
    from h(1) z have cpu: "get_average_cpu_utilization env (InstanceId i) < co_UTILIZATION_THRESHOLD env"
      by simp
    let ?r = "\<lparr> rec_instance_id = InstanceId i,
       rec_current_type = InstanceType i,
       rec_suggested_type = s,
       rec_current_cpu_utilization = get_average_cpu_utilization env (InstanceId i),
       rec_monthly_savings = estimate_instance_cost_savings (InstanceType i) s,
       rec_recommendation = ''Downsize from '' @ InstanceType i @ '' to '' @ s,
       rec_reason = ''CPU utilization is only ''
         @ format_1f (get_average_cpu_utilization env (InstanceId i)) @ ''%'' \<rparr>"
    have "?r \<in> set (analyze_instance env i)"
      unfolding analyze_instance_result [OF cpu h(2)] by simp
    with h(3,4) have "?r \<in> set (analyze_ec2_instances env)"
      unfolding analyze_ec2_instances_members by blast
    then show ?thesis using z by (intro bexI [of _ ?r]) simp_all
  qed
  from z idle flagged show ?thesis by blast
qed

theorem no_datapoints_flagged_witness:
  "co_get_metric_statistics fleet_env ''i-ddd'' = Inr []
   \<and> get_average_cpu_utilization fleet_env ''i-ddd'' = 0
   \<and> (\<exists>r \<in> set (analyze_ec2_instances fleet_env).
        rec_instance_id r = ''i-ddd'' \<and> rec_current_type r = ''m5.xlarge''
        \<and> rec_suggested_type r = ''m5.large'' \<and> rec_current_cpu_utilization r = 0)"
proof -
  let ?i = "\<lparr> InstanceId = ''i-ddd'', InstanceType = ''m5.xlarge'' \<rparr>"
  have m: "co_get_metric_statistics fleet_env (InstanceId ?i) = Inr []"
    by (simp add: fleet_env_def)
  have h: "0 < co_UTILIZATION_THRESHOLD fleet_env"
      "co_describe_instances fleet_env =
        Inr [[\<lparr> InstanceId = ''i-aaa'', InstanceType = ''t3.large'' \<rparr>,
              \<lparr> InstanceId = ''i-bbb'', InstanceType = ''t3.large'' \<rparr>],
             [\<lparr> InstanceId = ''i-ccc'', InstanceType = ''x1.32xlarge'' \<rparr>, ?i]]"
    by (simp_all add: fleet_env_def)
  have mem: "?i \<in> set (concat [[\<lparr> InstanceId = ''i-aaa'', InstanceType = ''t3.large'' \<rparr>,
              \<lparr> InstanceId = ''i-bbb'', InstanceType = ''t3.large'' \<rparr>],
             [\<lparr> InstanceId = ''i-ccc'', InstanceType = ''x1.32xlarge'' \<rparr>, ?i]])"
    by simp
  from no_datapoints_flagged [OF m, where s = "''m5.large''" and reservations =
      "[[\<lparr> InstanceId = ''i-aaa'', InstanceType = ''t3.large'' \<rparr>,
         \<lparr> InstanceId = ''i-bbb'', InstanceType = ''t3.large'' \<rparr>],
        [\<lparr> InstanceId = ''i-ccc'', InstanceType = ''x1.32xlarge'' \<rparr>, ?i]]"]
    h mem fleet_types(3) m
  show ?thesis by simp
qed


section \<open>Retention of backup snapshots\<close>

lemma has_backup_tag_set:
  "has_backup_tag ts \<longleftrightarrow> (''BackupType'', ''Automated'') \<in> set ts"
proof -
  define a where "a = ''BackupType''"
  define b where "b = ''Automated''"
  have step: "has_backup_tag ((k, v) # tags) = (if k = a \<and> v = b then True else has_backup_tag tags)"
    for k v tags
    unfolding a_def b_def by (rule has_backup_tag.simps)
  have "has_backup_tag ts \<longleftrightarrow> (a, b) \<in> set ts"
  proof (induction ts)
    case Nil
    then show ?case by simp
  next
    case (Cons t ts)
    obtain k v where t: "t = (k, v)" by (cases t)
    show ?case
      unfolding t step using Cons.IH by auto
  qed
  then show ?thesis by (simp only: a_def b_def)
qed

lemma no_pattern_in_empty: "\<not> sublist ''-backup-'' []"
  by simp

lemma is_automated_marked: "is_automated_backup_snapshot s = marked s"
proof -
  have tags: "(case (case TagList s of Some ts \<Rightarrow> Some ts | None \<Rightarrow> Tags s) of
        Some ts \<Rightarrow> has_backup_tag ts | None \<Rightarrow> False)
      \<longleftrightarrow> (''BackupType'', ''Automated'') \<in> set (snapshot_tags s)"
    by (simp add: snapshot_tags_def get_default_def has_backup_tag_set split: option.splits)
  have name: "(case (case DBSnapshotIdentifier s of
                    Some i \<Rightarrow> if i \<noteq> [] then Some i else DBClusterSnapshotIdentifier s
                  | None \<Rightarrow> DBClusterSnapshotIdentifier s) of
           None \<Rightarrow> False | Some i \<Rightarrow> i \<noteq> [] \<and> py_in ''-backup-'' i)
      \<longleftrightarrow> sublist ''-backup-'' (snapshot_name s)"
  proof (cases "DBSnapshotIdentifier s")
    case None
    show ?thesis
    proof (cases "DBClusterSnapshotIdentifier s")
      case None
      with \<open>DBSnapshotIdentifier s = None\<close> show ?thesis
        by (simp add: snapshot_name_def get_default_def)
    next
      case (Some c)
      with None show ?thesis
        by (cases "c = []") (simp_all add: snapshot_name_def get_default_def py_in_sublist)
    qed
  next
    case (Some i)
    show ?thesis
    proof (cases "i = []")
      case False
      with Some show ?thesis
        by (simp add: snapshot_name_def get_default_def py_in_sublist)
    next
      case True
      show ?thesis
      proof (cases "DBClusterSnapshotIdentifier s")
        case None
        with Some True show ?thesis
          by (simp add: snapshot_name_def get_default_def)
      next
        case c: (Some c)
        with Some True show ?thesis
          by (cases "c = []") (simp_all add: snapshot_name_def get_default_def py_in_sublist)
      qed
    qed
  qed
  show ?thesis
    unfolding is_automated_backup_snapshot_def Let_def marked_def tags name by simp
qed

lemma cleanup_loop_calls:
  assumes "listing_complete kind snapshots"
  shows "\<exists>results'. cleanup_loop env kind cutoff snapshots results calls =
    (Inr results', calls @ expected_deletions kind cutoff snapshots)"
  using assms
proof (induction snapshots arbitrary: results calls)
  case Nil
  then show ?case by (simp add: expected_deletions_def)
next
  case (Cons s rest)
  from Cons.prems have rest: "listing_complete kind rest"
    and s: "marked s \<longrightarrow> SnapshotCreateTime s \<noteq> None
         \<and> (case kind of
              Instance_snapshot \<Rightarrow> DBSnapshotIdentifier s
            | Cluster_snapshot \<Rightarrow> DBClusterSnapshotIdentifier s) \<noteq> None"
    by (simp_all add: listing_complete_def)
  note IH = Cons.IH [OF rest]
  show ?case
  proof (cases "due cutoff s")
    case False
    then have e: "expected_deletions kind cutoff (s # rest) = expected_deletions kind cutoff rest"
      by (simp add: expected_deletions_def)
    show ?thesis
    proof (cases "marked s")
      case True
      with s obtain created where c: "SnapshotCreateTime s = Some created" by auto
      with True False have "\<not> to_microseconds created < cutoff" by (simp add: due_def)
      with True c IH [of results calls] show ?thesis
        by (simp add: is_automated_marked e)
    next
      case False
      with IH [of results calls] show ?thesis
        by (simp add: is_automated_marked e)
    qed
  next
    case True
    then have m: "marked s" by (simp add: due_def)
    with s True obtain created i where c: "SnapshotCreateTime s = Some created"
        "to_microseconds created < cutoff"
        "(case kind of
              Instance_snapshot \<Rightarrow> DBSnapshotIdentifier s
            | Cluster_snapshot \<Rightarrow> DBClusterSnapshotIdentifier s) = Some i"
      by (auto simp: due_def split: option.splits)
    from c(3) have own: "own_identifier kind s = Inr i"
      by (cases kind) (simp_all add: own_identifier_def field_item_def)
    from True c(3) have e: "expected_deletions kind cutoff (s # rest) =
        delete_call_of kind i # expected_deletions kind cutoff rest"
      by (simp add: expected_deletions_def)
    show ?thesis
    proof (cases "delete_snapshot env kind i")
      case None
      with m c own IH [of _ "calls @ [delete_call_of kind i]"] show ?thesis
        by (simp add: is_automated_marked e)
    next
      case (Some x)
      with m c own IH [of _ "calls @ [delete_call_of kind i]"] show ?thesis
        by (simp add: is_automated_marked e)
    qed
  qed
qed

text \<open>
  The test of both loops selects a snapshot if and only if it carries the automated-backup
  marker (a tag \<open>BackupType=Automated\<close> or, failing that, an identifier containing
  \<open>-backup-\<close>) and its creation time is strictly older than now minus the retention window.
  When that cutoff is a valid date, both listings answer and every marked snapshot listed
  has its creation time and identifier, the function returns and the delete calls it made
  are exactly those for the snapshots the rule selects, instance snapshots first. A marked
  snapshot created exactly at the cutoff is not selected; one created one second earlier is.
\<close>

theorem cleanup_deletes_exactly_due:
  assumes "minus_days now (bk_RETENTION_DAYS env) = Inr cutoff"
    and "bk_describe_db_snapshots env = Inr snapshots"
    and "bk_describe_db_cluster_snapshots env = Inr cluster_snapshots"
    and "listing_complete Instance_snapshot snapshots"
    and "listing_complete Cluster_snapshot cluster_snapshots"
  shows "cutoff = to_microseconds now - bk_RETENTION_DAYS env * day_us
    \<and> (\<exists>results. fst (cleanup_old_snapshots env now) = Inr results)
    \<and> snd (cleanup_old_snapshots env now) =
        expected_deletions Instance_snapshot cutoff snapshots
        @ expected_deletions Cluster_snapshot cutoff cluster_snapshots
    \<and> (\<forall>s created. marked s \<and> SnapshotCreateTime s = Some created \<longrightarrow>
          (to_microseconds created = cutoff \<longrightarrow> \<not> due cutoff s)
          \<and> (to_microseconds created = cutoff - 1000000 \<longrightarrow> due cutoff s))
    \<and> (\<forall>s. due cutoff s \<longleftrightarrow>
          is_automated_backup_snapshot s
          \<and> (\<exists>created. SnapshotCreateTime s = Some created \<and> to_microseconds created < cutoff))"
proof -
  have c: "cutoff = to_microseconds now - bk_RETENTION_DAYS env * day_us"
    using assms(1) by (simp add: minus_days_def Let_def split: if_splits)
  obtain r1 where r1: "cleanup_loop env Instance_snapshot cutoff snapshots [] [] =
      (Inr r1, [] @ expected_deletions Instance_snapshot cutoff snapshots)"
    using cleanup_loop_calls [OF assms(4)] by blast
  obtain r2 where r2: "cleanup_loop env Cluster_snapshot cutoff cluster_snapshots r1
        (expected_deletions Instance_snapshot cutoff snapshots) =
      (Inr r2, expected_deletions Instance_snapshot cutoff snapshots
         @ expected_deletions Cluster_snapshot cutoff cluster_snapshots)"
    using cleanup_loop_calls [OF assms(5)] by blast
  have run: "cleanup_old_snapshots env now =
      (Inr r2, expected_deletions Instance_snapshot cutoff snapshots
         @ expected_deletions Cluster_snapshot cutoff cluster_snapshots)"
    using r1 r2 by (simp add: cleanup_old_snapshots_def assms(1,2,3))
  have b: "\<forall>s created. marked s \<and> SnapshotCreateTime s = Some created \<longrightarrow>
          (to_microseconds created = cutoff \<longrightarrow> \<not> due cutoff s)
          \<and> (to_microseconds created = cutoff - 1000000 \<longrightarrow> due cutoff s)"
    by (simp add: due_def)
  have d: "\<forall>s. due cutoff s \<longleftrightarrow>
          is_automated_backup_snapshot s
          \<and> (\<exists>created. SnapshotCreateTime s = Some created \<and> to_microseconds created < cutoff)"
    by (simp add: due_def is_automated_marked split: option.splits)
  from c run b d show ?thesis by simp
qed


lemma rotation_cutoff: "minus_days march_31 30 = Inr 63844934400000000"
  by (simp add: minus_days_def march_31_def to_microseconds_def ymd2ord_def days_before_year_def
      days_before_month_def is_leap_def day_us_def Let_def)

lemma rotation_marks:
  "marked at_cutoff" "marked second_older" "\<not> marked by_hand" "marked old_cluster"
  unfolding is_automated_marked [symmetric]
  by (simp_all add: is_automated_backup_snapshot_def at_cutoff_def second_older_def by_hand_def
      old_cluster_def)

lemma rotation_times:
  "SnapshotCreateTime at_cutoff \<noteq> None"
  "to_microseconds (the (SnapshotCreateTime at_cutoff)) = 63844934400000000"
  "SnapshotCreateTime second_older \<noteq> None"
  "to_microseconds (the (SnapshotCreateTime second_older)) = 63844934400000000 - 1000000"
  "SnapshotCreateTime old_cluster \<noteq> None"
  "to_microseconds (the (SnapshotCreateTime old_cluster)) < 63844934400000000"
  by (simp_all add: at_cutoff_def second_older_def old_cluster_def to_microseconds_def
      ymd2ord_def days_before_year_def days_before_month_def is_leap_def Let_def)

lemma due_the:
  "due cutoff s \<longleftrightarrow>
     marked s \<and> SnapshotCreateTime s \<noteq> None \<and> to_microseconds (the (SnapshotCreateTime s)) < cutoff"
  by (cases "SnapshotCreateTime s") (simp_all add: due_def)

lemma rotation_due:
  "\<not> due 63844934400000000 at_cutoff" "due 63844934400000000 second_older"
  "\<not> due 63844934400000000 by_hand" "due 63844934400000000 old_cluster"
  by (simp_all add: due_the rotation_marks rotation_times)

theorem cleanup_deletes_exactly_due_witness:
  "minus_days march_31 (bk_RETENTION_DAYS rotation_env) = Inr 63844934400000000
   \<and> bk_describe_db_snapshots rotation_env = Inr [at_cutoff, second_older, by_hand]
   \<and> bk_describe_db_cluster_snapshots rotation_env = Inr [old_cluster]
   \<and> listing_complete Instance_snapshot [at_cutoff, second_older, by_hand]
   \<and> listing_complete Cluster_snapshot [old_cluster]
   \<and> marked at_cutoff \<and> \<not> due 63844934400000000 at_cutoff
   \<and> marked second_older \<and> due 63844934400000000 second_older
   \<and> snd (cleanup_old_snapshots rotation_env march_31) =
       [Delete_db_snapshot ''orders-backup-2024-02-29-23-59-59'',
        Delete_db_cluster_snapshot ''ledger-backup-2024-01-15-02-00-00'']"
proof -
  have h: "minus_days march_31 (bk_RETENTION_DAYS rotation_env) = Inr 63844934400000000"
      "bk_describe_db_snapshots rotation_env = Inr [at_cutoff, second_older, by_hand]"
      "bk_describe_db_cluster_snapshots rotation_env = Inr [old_cluster]"
    by (simp_all add: rotation_env_def rotation_cutoff)
  have l: "listing_complete Instance_snapshot [at_cutoff, second_older, by_hand]"
      "listing_complete Cluster_snapshot [old_cluster]"
    by (simp_all add: listing_complete_def at_cutoff_def second_older_def by_hand_def
        old_cluster_def)
  have e: "expected_deletions Instance_snapshot 63844934400000000 [at_cutoff, second_older, by_hand]
        = [Delete_db_snapshot ''orders-backup-2024-02-29-23-59-59'']"
      "expected_deletions Cluster_snapshot 63844934400000000 [old_cluster]
        = [Delete_db_cluster_snapshot ''ledger-backup-2024-01-15-02-00-00'']"
    by (simp_all add: expected_deletions_def rotation_due map_filter_simps delete_call_of_def
        second_older_def [THEN arg_cong, of DBSnapshotIdentifier]
        old_cluster_def [THEN arg_cong, of DBClusterSnapshotIdentifier])
  from cleanup_deletes_exactly_due [OF h l] h l e rotation_marks rotation_due
  show ?thesis by simp
qed


text \<open>
  C2. During cleanup a manual snapshot is to be deleted if and only if it carries the
  automated-backup marker and its creation time is strictly older than now minus the
  retention window. The code misses the \<open>if\<close> half when a listing holds a marked snapshot
  without a creation time, as a snapshot has while it is being created:
  \<open>snapshot['SnapshotCreateTime']\<close> raises \<open>KeyError\<close>, the function re-raises, and no
  snapshot listed after it is looked at. In the run of \<open>busy_env\<close> the cutoff is midnight of
  1 March, the instance snapshot of 29 February and the cluster snapshot of 15 January are
  marked and older than the cutoff, and the function raises without a single delete call.
\<close>

theorem cleanup_stops_at_snapshot_in_creation:
  "minus_days march_31 (bk_RETENTION_DAYS busy_env) = Inr 63844934400000000
   \<and> bk_describe_db_snapshots busy_env = Inr [in_creation, at_cutoff, second_older, by_hand]
   \<and> bk_describe_db_cluster_snapshots busy_env = Inr [old_cluster]
   \<and> is_automated_backup_snapshot in_creation \<and> SnapshotCreateTime in_creation = None
   \<and> due 63844934400000000 second_older \<and> due 63844934400000000 old_cluster
   \<and> cleanup_old_snapshots busy_env march_31 = (Inl (key_error ''SnapshotCreateTime''), [])"
proof -
  have h: "minus_days march_31 (bk_RETENTION_DAYS busy_env) = Inr 63844934400000000"
      "bk_describe_db_snapshots busy_env = Inr [in_creation, at_cutoff, second_older, by_hand]"
      "bk_describe_db_cluster_snapshots busy_env = Inr [old_cluster]"
    by (simp_all add: busy_env_def rotation_env_def rotation_cutoff)
  have m: "is_automated_backup_snapshot in_creation" "SnapshotCreateTime in_creation = None"
    by (simp_all add: is_automated_backup_snapshot_def in_creation_def)
  have "cleanup_loop busy_env Instance_snapshot 63844934400000000
      [in_creation, at_cutoff, second_older, by_hand] [] [] =
      (Inl (key_error ''SnapshotCreateTime''), [])"
    by (simp add: m)
  then have "cleanup_old_snapshots busy_env march_31 = (Inl (key_error ''SnapshotCreateTime''), [])"
    by (simp add: cleanup_old_snapshots_def h)
  with h m rotation_due show ?thesis by simp
qed

section \<open>Snapshot identifiers\<close>

lemma digit_char_inj:
  assumes "digit_char a = digit_char b" "a < 10" "b < 10"
  shows "a = b"
proof -
  from assms(1) have "(of_char (digit_char a) :: nat) = of_char (digit_char b)" by simp
  then have "(48 + a) mod 256 = (48 + b) mod 256"
    by (simp add: digit_char_def)
  with assms(2,3) show ?thesis by simp
qed

lemma pad2_inj:
  assumes "pad2 a = pad2 b" "a < 100" "b < 100"
  shows "a = b"
proof -
  from assms(1) have "digit_char (a div 10) = digit_char (b div 10)"
      "digit_char (a mod 10) = digit_char (b mod 10)"
    by (simp_all add: pad2_def)
  moreover have "a div 10 < 10" "b div 10 < 10" "a mod 10 < 10" "b mod 10 < 10"
    using assms(2,3) by simp_all
  ultimately have "a div 10 = b div 10" "a mod 10 = b mod 10"
    by (auto dest: digit_char_inj)
  then show ?thesis by (metis div_mult_mod_eq)
qed

lemma show_nat_nonempty: "show_nat n \<noteq> []"
  by (subst show_nat.simps) simp

lemma show_nat_inj: "show_nat n = show_nat m \<Longrightarrow> n = m"
proof (induction n arbitrary: m rule: show_nat.induct)
  case (1 n)
  show ?case
  proof (cases "n < 10")
    case True
    show ?thesis
    proof (cases "m < 10")
      case m: True
      from "1.prems" True m have "digit_char n = digit_char m"
        by (simp add: show_nat.simps [of n] show_nat.simps [of m])
      then show ?thesis using True m by (rule digit_char_inj)
    next
      case False
      with "1.prems" True have "[digit_char n] = show_nat (m div 10) @ [digit_char (m mod 10)]"
        by (simp add: show_nat.simps [of n] show_nat.simps [of m])
      then show ?thesis using show_nat_nonempty [of "m div 10"] by simp
    qed
  next
    case False
    show ?thesis
    proof (cases "m < 10")
      case True
      with "1.prems" False have "show_nat (n div 10) @ [digit_char (n mod 10)] = [digit_char m]"
        by (simp add: show_nat.simps [of n] show_nat.simps [of m])
      then show ?thesis using show_nat_nonempty [of "n div 10"] by simp
    next
      case m: False
      with "1.prems" False
      have "show_nat (n div 10) @ [digit_char (n mod 10)] =
          show_nat (m div 10) @ [digit_char (m mod 10)]"
        by (simp add: show_nat.simps [of n] show_nat.simps [of m])
      then have e: "show_nat (n div 10) = show_nat (m div 10)"
          "digit_char (n mod 10) = digit_char (m mod 10)"
        by simp_all
      from "1.IH" [OF False e(1)] have "n div 10 = m div 10" .
      moreover from e(2) have "n mod 10 = m mod 10"
        by (rule digit_char_inj) simp_all
      ultimately show ?thesis by (metis div_mult_mod_eq)
    qed
  qed
qed

lemma strftime_stamp_same_second:
  "same_second a b \<Longrightarrow> strftime_stamp a = strftime_stamp b"
  by (simp add: same_second_def strftime_stamp_def)

lemma strftime_stamp_inj:
  assumes "strftime_stamp a = strftime_stamp b" "valid_datetime a" "valid_datetime b"
  shows "same_second a b"
proof -
  define rest where "rest = (\<lambda>d :: datetime. ''-'' @ pad2 (dt_month d) @ ''-'' @ pad2 (dt_day d) @ ''-''
    @ pad2 (dt_hour d) @ ''-'' @ pad2 (dt_minute d) @ ''-'' @ pad2 (dt_second d))"
  have l: "length (rest a) = length (rest b)" by (simp add: rest_def pad2_def)
  from assms(1) have e: "show_nat (dt_year a) @ rest a = show_nat (dt_year b) @ rest b"
    by (simp add: strftime_stamp_def rest_def)
  have "(show_nat (dt_year a) @ rest a = show_nat (dt_year b) @ rest b) =
      (show_nat (dt_year a) = show_nat (dt_year b) \<and> rest a = rest b)"
    by (rule append_eq_append_conv) (simp add: l)
  with e have y: "show_nat (dt_year a) = show_nat (dt_year b)" and r: "rest a = rest b"
    by simp_all
  from r have p: "pad2 (dt_month a) = pad2 (dt_month b)" "pad2 (dt_day a) = pad2 (dt_day b)"
      "pad2 (dt_hour a) = pad2 (dt_hour b)" "pad2 (dt_minute a) = pad2 (dt_minute b)"
      "pad2 (dt_second a) = pad2 (dt_second b)"
    by (simp_all add: rest_def pad2_def)
  from assms(2,3) have b: "dt_month a < 100" "dt_month b < 100" "dt_day a < 100" "dt_day b < 100"
      "dt_hour a < 100" "dt_hour b < 100" "dt_minute a < 100" "dt_minute b < 100"
      "dt_second a < 100" "dt_second b < 100"
    by (simp_all add: valid_datetime_def)
  show ?thesis
    unfolding same_second_def
    using show_nat_inj [OF y] pad2_inj [OF p(1) b(1,2)] pad2_inj [OF p(2) b(3,4)]
      pad2_inj [OF p(3) b(5,6)] pad2_inj [OF p(4) b(7,8)] pad2_inj [OF p(5) b(9,10)]
    by simp
qed


lemma backup_operation_request:
  "fst (backup_operation kind env src now later) =
    (case plus_days later (bk_RETENTION_DAYS env) of
       Inl e \<Rightarrow> None
     | Inr retention_date \<Rightarrow>
         Some \<lparr> rq_SnapshotIdentifier = src @ ''-backup-'' @ strftime_stamp now,
                rq_SourceIdentifier = src,
                rq_Tags =
                  [(''BackupType'', ''Automated''),
                   (''BackupDate'', strftime_stamp now),
                   (case kind of Instance_snapshot \<Rightarrow> ''SourceInstance''
                    | Cluster_snapshot \<Rightarrow> ''SourceCluster'', src),
                   (''RetentionDate'', strftime_date retention_date)] \<rparr>)"
  by (cases kind; cases "plus_days later (bk_RETENTION_DAYS env)")
    (simp_all add: backup_operation_def backup_rds_instance_def backup_rds_cluster_def Let_def)

lemma identifier_sources:
  assumes "same_second now now'" "src \<noteq> src'"
  shows "src @ ''-backup-'' @ strftime_stamp now \<noteq> src' @ ''-backup-'' @ strftime_stamp now'"
proof
  assume "src @ ''-backup-'' @ strftime_stamp now = src' @ ''-backup-'' @ strftime_stamp now'"
  then have "src @ (''-backup-'' @ strftime_stamp now) = src' @ (''-backup-'' @ strftime_stamp now)"
    using strftime_stamp_same_second [OF assms(1)] by simp
  then have "src = src'" by (simp only: append_same_eq)
  with assms(2) show False by simp
qed

lemma identifier_seconds:
  assumes "valid_datetime now" "valid_datetime now'" "\<not> same_second now now'"
  shows "src @ ''-backup-'' @ strftime_stamp now \<noteq> src @ ''-backup-'' @ strftime_stamp now'"
proof
  assume "src @ ''-backup-'' @ strftime_stamp now = src @ ''-backup-'' @ strftime_stamp now'"
  then have "strftime_stamp now = strftime_stamp now'" by simp
  from strftime_stamp_inj [OF this assms(1,2)] assms(3) show False by simp
qed

text \<open>
  C6. The snapshot identifier is the deterministic function
  \<open>{source_id}-backup-{UTC timestamp to the second}\<close>: every request that a backup
  operation sends, for an instance or for a cluster, carries this identifier, and a request
  is sent unless the retention date is out of range. Consequently, for any two backup
  operations that send a request: the same source in the same second gives the same
  identifier, different sources in the same second give different identifiers, and the same
  source at two distinct seconds gives different identifiers.
\<close>

theorem snapshot_identifier_distinct:
  "(fst (backup_operation kind env src now later) = None
      \<longleftrightarrow> isl (plus_days later (bk_RETENTION_DAYS env)))
   \<and> (\<forall>rq rq'.
        fst (backup_operation kind env src now later) = Some rq
        \<and> fst (backup_operation kind' env' src' now' later') = Some rq' \<longrightarrow>
          rq_SnapshotIdentifier rq = src @ ''-backup-'' @ strftime_stamp now
          \<and> (same_second now now' \<and> src = src' \<longrightarrow>
                rq_SnapshotIdentifier rq = rq_SnapshotIdentifier rq')
          \<and> (same_second now now' \<and> src \<noteq> src' \<longrightarrow>
                rq_SnapshotIdentifier rq \<noteq> rq_SnapshotIdentifier rq')
          \<and> (valid_datetime now \<and> valid_datetime now' \<and> \<not> same_second now now' \<and> src = src' \<longrightarrow>
                rq_SnapshotIdentifier rq \<noteq> rq_SnapshotIdentifier rq'))"
proof -
  have n: "fst (backup_operation kind env src now later) = None
      \<longleftrightarrow> isl (plus_days later (bk_RETENTION_DAYS env))"
    by (cases "plus_days later (bk_RETENTION_DAYS env)") (simp_all add: backup_operation_request)
  have i: "rq_SnapshotIdentifier rq = s @ ''-backup-'' @ strftime_stamp t"
    if "fst (backup_operation k e s t l) = Some rq" for k e s t l rq
    using that by (cases "plus_days l (bk_RETENTION_DAYS e)") (auto simp: backup_operation_request)
  show ?thesis
    using n i [of kind env src now later] i [of kind' env' src' now' later']
      strftime_stamp_same_second [of now now'] identifier_sources [of now now' src src']
      identifier_seconds [of now now' src]
    by (intro conjI allI impI) (simp_all)
qed


text \<open>
  The rotation of 31 March: the retention date is 30 April. A backup of \<open>orders\<close>, one of
  \<open>ledger\<close> five microseconds later, and one of \<open>orders\<close> a second later.
\<close>

lemma march_31_stamp: "strftime_stamp march_31 = ''2024-03-31-00-00-00''"
  by code_simp

lemma rotation_retention_date:
  "plus_days march_31 (bk_RETENTION_DAYS rotation_env) = Inr (march_31\<lparr> dt_month := 4, dt_day := 30 \<rparr>)"
  by (simp add: rotation_env_def plus_days_def march_31_def ymd2ord_def days_before_year_def
      days_before_month_def days_in_month_def is_leap_def ord2ymd_def Let_def)

lemma rotation_requests:
  "fst (backup_operation kind rotation_env src now march_31) \<noteq> None"
  by (simp add: backup_operation_request rotation_retention_date)

lemma rotation_request_orders:
  "fst (backup_operation Instance_snapshot rotation_env ''orders'' march_31 march_31) =
    Some \<lparr> rq_SnapshotIdentifier = ''orders-backup-2024-03-31-00-00-00'',
           rq_SourceIdentifier = ''orders'',
           rq_Tags = [(''BackupType'', ''Automated''), (''BackupDate'', ''2024-03-31-00-00-00''),
             (''SourceInstance'', ''orders''), (''RetentionDate'', ''2024-04-30'')] \<rparr>"
proof -
  have "strftime_date (march_31\<lparr> dt_month := 4, dt_day := 30 \<rparr>) = ''2024-04-30''"
    by code_simp
  then show ?thesis
    by (simp add: backup_operation_request rotation_retention_date march_31_stamp)
qed

theorem snapshot_identifier_distinct_witness:
  "fst (backup_operation Instance_snapshot rotation_env ''orders'' march_31 march_31) \<noteq> None
   \<and> fst (backup_operation Cluster_snapshot rotation_env ''ledger''
        (march_31\<lparr> dt_microsecond := 5 \<rparr>) march_31) \<noteq> None
   \<and> fst (backup_operation Instance_snapshot rotation_env ''orders''
        (march_31\<lparr> dt_second := 1 \<rparr>) march_31) \<noteq> None
   \<and> same_second march_31 (march_31\<lparr> dt_microsecond := 5 \<rparr>) \<and> ''orders'' \<noteq> ''ledger''
   \<and> valid_datetime march_31 \<and> valid_datetime (march_31\<lparr> dt_second := 1 \<rparr>)
   \<and> \<not> same_second march_31 (march_31\<lparr> dt_second := 1 \<rparr>)
   \<and> rq_SnapshotIdentifier
        (the (fst (backup_operation Instance_snapshot rotation_env ''orders'' march_31 march_31))) =
      ''orders-backup-2024-03-31-00-00-00''
   \<and> rq_SnapshotIdentifier
        (the (fst (backup_operation Instance_snapshot rotation_env ''orders'' march_31 march_31))) \<noteq>
      rq_SnapshotIdentifier
        (the (fst (backup_operation Cluster_snapshot rotation_env ''ledger''
          (march_31\<lparr> dt_microsecond := 5 \<rparr>) march_31)))
   \<and> rq_SnapshotIdentifier
        (the (fst (backup_operation Instance_snapshot rotation_env ''orders'' march_31 march_31))) \<noteq>
      rq_SnapshotIdentifier
        (the (fst (backup_operation Instance_snapshot rotation_env ''orders''
          (march_31\<lparr> dt_second := 1 \<rparr>) march_31)))"
proof -
  define orders where "orders = ''orders''"
  define ledger where "ledger = ''ledger''"
  let ?again = "march_31\<lparr> dt_microsecond := 5 \<rparr>"
  let ?next = "march_31\<lparr> dt_second := 1 \<rparr>"
  obtain rq where rq: "fst (backup_operation Instance_snapshot rotation_env orders march_31 march_31) = Some rq"
    using rotation_requests by blast
  obtain rq1 where rq1: "fst (backup_operation Cluster_snapshot rotation_env ledger ?again march_31) = Some rq1"
    using rotation_requests by blast
  obtain rq2 where rq2: "fst (backup_operation Instance_snapshot rotation_env orders ?next march_31) = Some rq2"
    using rotation_requests by blast
  have a: "same_second march_31 ?again" by (simp add: same_second_def)
  have b: "orders \<noteq> ledger" by (simp add: orders_def ledger_def)
  have c: "valid_datetime march_31" "valid_datetime ?next" "\<not> same_second march_31 ?next"
    by (simp_all add: valid_datetime_def same_second_def march_31_def)
  note t1 = snapshot_identifier_distinct [where kind = Instance_snapshot and kind' = Cluster_snapshot
      and env = rotation_env and env' = rotation_env and src = orders and src' = ledger
      and now = march_31 and now' = ?again and later = march_31 and later' = march_31]
  note t2 = snapshot_identifier_distinct [where kind = Instance_snapshot and kind' = Instance_snapshot
      and env = rotation_env and env' = rotation_env and src = orders and src' = orders
      and now = march_31 and now' = ?next and later = march_31 and later' = march_31]
  from t1 rq rq1 have "rq_SnapshotIdentifier rq = orders @ ''-backup-'' @ strftime_stamp march_31"
    by blast
  then have i: "rq_SnapshotIdentifier rq = ''orders-backup-2024-03-31-00-00-00''"
    by (simp add: march_31_stamp orders_def)
  from t1 rq rq1 a b have d1: "rq_SnapshotIdentifier rq \<noteq> rq_SnapshotIdentifier rq1"
    by blast
  from t2 rq rq2 c have d2: "rq_SnapshotIdentifier rq \<noteq> rq_SnapshotIdentifier rq2"
    by blast
  from a b c i d1 d2 rq rq1 rq2 show ?thesis
    unfolding orders_def ledger_def by simp
qed

end
